theory Spec2Isabelle
  imports Complex_Main "HOL-Library.Char_ord" "HOL-Library.List_Lexorder"
begin

section \<open>Python values\<close>

text \<open>
  A Python \<open>str\<close> is modelled as a \<open>string\<close>, one \<open>char\<close> per code point, for texts
  whose code points are below 256. Python floats are modelled as real numbers: the claims
  below compare scores with constants and add and multiply small numbers, and no claim
  depends on rounding. An exception is a value of type \<open>error\<close>; a computation that
  may raise returns \<open>error + 'a\<close> with \<open>Inl\<close> for the exception.
\<close>

datatype error =
    KeyError string
  | TypeError string
  | ValueError string
  | AttributeError string
  | OverflowError string
  | Exception string

text \<open>\<open>str(e)\<close>\<close>

fun str_error :: "error \<Rightarrow> string" where
  "str_error (KeyError k) = [CHR 0x27] @ k @ [CHR 0x27]"
| "str_error (TypeError m) = m"
| "str_error (ValueError m) = m"
| "str_error (AttributeError m) = m"
| "str_error (OverflowError m) = m"
| "str_error (Exception m) = m"

text \<open>
  Character classes of \<open>str\<close> and of the \<open>re\<close> module on code points below 256:
  \<open>\d\<close> is a decimal digit, \<open>\s\<close> and \<open>str.strip\<close> use \<open>str.isspace\<close>, \<open>\w\<close> is
  \<open>str.isalnum\<close> or an underscore.
\<close>

definition code :: "char \<Rightarrow> nat" where
  "code c = of_char c"

definition is_digit :: "char \<Rightarrow> bool" where
  "is_digit c = (48 \<le> code c \<and> code c \<le> 57)"

definition is_ascii_letter :: "char \<Rightarrow> bool" where
  "is_ascii_letter c = ((65 \<le> code c \<and> code c \<le> 90) \<or> (97 \<le> code c \<and> code c \<le> 122))"

definition is_space :: "char \<Rightarrow> bool" where
  "is_space c = ((9 \<le> code c \<and> code c \<le> 13) \<or> (28 \<le> code c \<and> code c \<le> 32)
     \<or> code c = 133 \<or> code c = 160)"

definition is_word :: "char \<Rightarrow> bool" where
  "is_word c = (is_digit c \<or> is_ascii_letter c \<or> code c = 95
     \<or> code c = 170 \<or> code c = 178 \<or> code c = 179 \<or> code c = 181 \<or> code c = 185
     \<or> code c = 186 \<or> (188 \<le> code c \<and> code c \<le> 190)
     \<or> (192 \<le> code c \<and> code c \<le> 214) \<or> (216 \<le> code c \<and> code c \<le> 246)
     \<or> (248 \<le> code c \<and> code c \<le> 255))"

text \<open>\<open>str.lower\<close>, one character at a time\<close>

definition lower_char :: "char \<Rightarrow> char" where
  "lower_char c =
     (if (65 \<le> code c \<and> code c \<le> 90) \<or> (192 \<le> code c \<and> code c \<le> 222 \<and> code c \<noteq> 215)
      then char_of (code c + 32) else c)"

definition lower :: "string \<Rightarrow> string" where
  "lower s = map lower_char s"

text \<open>\<open>str.strip()\<close>\<close>

definition strip :: "string \<Rightarrow> string" where
  "strip s = rev (dropWhile is_space (rev (dropWhile is_space s)))"

text \<open>\<open>s.startswith(p)\<close> and the substring test \<open>sub in s\<close>\<close>

fun startswith :: "string \<Rightarrow> string \<Rightarrow> bool" where
  "startswith s [] = True"
| "startswith [] (p # ps) = False"
| "startswith (c # cs) (p # ps) = (c = p \<and> startswith cs ps)"

fun contains :: "string \<Rightarrow> string \<Rightarrow> bool" where
  "contains [] sub = (sub = [])"
| "contains (c # cs) sub = (startswith (c # cs) sub \<or> contains cs sub)"

text \<open>\<open>str(n)\<close> for a count \<open>n\<close>\<close>

definition digit_char :: "nat \<Rightarrow> char" where
  "digit_char d = char_of (48 + d)"

fun str_nat_aux :: "nat \<Rightarrow> nat \<Rightarrow> string \<Rightarrow> string" where
  "str_nat_aux 0 n acc = acc"
| "str_nat_aux (Suc fuel) n acc =
     (if n < 10 then digit_char n # acc
      else str_nat_aux fuel (n div 10) (digit_char (n mod 10) # acc))"

definition str_nat :: "nat \<Rightarrow> string" where
  "str_nat n = str_nat_aux (Suc n) n []"

text \<open>
  A value read from parsed JSON where the code expects a number: a number, or something
  a comparison with a float raises \<open>TypeError\<close> on.
\<close>

datatype pyval = Num real | NotNum

text \<open>A value that parsed JSON may give as \<open>null\<close>, which Python reads as \<open>None\<close>\<close>

datatype 'a nullable = Null | Val 'a

text \<open>\<open>d.get(key, default)\<close> for an optional key\<close>

definition get_or :: "'a \<Rightarrow> 'a option \<Rightarrow> 'a" where
  "get_or d v = (case v of None \<Rightarrow> d | Some x \<Rightarrow> x)"

section \<open>Goal parser\<close>

subsection \<open>Text helpers\<close>

text \<open>\<open>s.split(sep)\<close> for a one-character separator\<close>

fun split_acc :: "char \<Rightarrow> string \<Rightarrow> string \<Rightarrow> string list" where
  "split_acc sep cur [] = [rev cur]"
| "split_acc sep cur (c # cs) =
     (if c = sep then rev cur # split_acc sep [] cs else split_acc sep (c # cur) cs)"

definition split :: "char \<Rightarrow> string \<Rightarrow> string list" where
  "split sep s = split_acc sep [] s"

text \<open>
  \<open>re.findall(r'\b[a-zA-Z]{3,}\b', text)\<close>. A match starts and ends at a word boundary
  and holds ASCII letters only, and the letters between two boundaries cannot be split by
  backtracking (there is no boundary between two word characters), so the matches are
  the maximal runs of word characters that are made of at least three ASCII letters.
\<close>

fun word_runs :: "string \<Rightarrow> string \<Rightarrow> string list" where
  "word_runs cur [] = (if cur = [] then [] else [rev cur])"
| "word_runs cur (c # cs) =
     (if is_word c then word_runs (c # cur) cs
      else (if cur = [] then [] else [rev cur]) @ word_runs [] cs)"

definition findall_words :: "string \<Rightarrow> string list" where
  "findall_words text =
     filter (\<lambda>w. 3 \<le> length w \<and> list_all is_ascii_letter w) (word_runs [] text)"

text \<open>\<open>list(dict.fromkeys(xs))\<close>: the first occurrence of every element, in order\<close>

fun fromkeys :: "'a list \<Rightarrow> 'a list" where
  "fromkeys [] = []"
| "fromkeys (x # xs) = x # filter (\<lambda>y. y \<noteq> x) (fromkeys xs)"

text \<open>
  \<open>re.search(r'\{.*\}', response, re.DOTALL)\<close>: from the first opening brace to the last
  closing brace after it, if there is one.
\<close>

definition json_block :: "string \<Rightarrow> string option" where
  "json_block response =
     (let from_brace = dropWhile (\<lambda>c. c \<noteq> CHR ''{'') response;
          block = rev (dropWhile (\<lambda>c. c \<noteq> CHR ''}'') (rev from_brace))
      in if block = [] then None else Some block)"

subsection \<open>Goals\<close>

text \<open>
  The dictionary of a goal and of a subgoal as the parser builds them itself, in the
  manual parse and in the fallback structure, and as the execution agent reads a parsed
  goal. A key may be absent, so every key is optional.
\<close>

record subgoal_rec =
  sg_id :: "nat option"
  sg_title :: "string option"
  sg_description :: "string option"
  sg_search_terms :: "string list option"
  sg_priority :: "string option"
  sg_expected_sources :: "string list option"

record goal =
  main_goal :: "string option"
  research_domain :: "string option"
  time_scope :: "string option"
  subgoals :: "subgoal_rec list option"
  success_criteria :: "string list option"
  estimated_complexity :: "string option"
  created_at :: "string option"
  total_subgoals :: "nat option"

subsection \<open>JSON values\<close>

text \<open>
  What \<open>json.loads\<close> gives for the answer of the model: \<open>None\<close>, a bool, a number, a
  \<open>str\<close>, a list, or a dictionary with string keys. A dictionary is the list of its items
  in insertion order; its keys are distinct.
\<close>

datatype json =
    JNull
  | JBool bool
  | JNum real
  | JStr string
  | JArr "json list"
  | JObj "(string \<times> json) list"

type_synonym dict = "(string \<times> json) list"

text \<open>\<open>bool(v)\<close>, the truth value that \<open>not v\<close> negates\<close>

fun truthy :: "json \<Rightarrow> bool" where
  "truthy JNull = False"
| "truthy (JBool b) = b"
| "truthy (JNum x) = (x \<noteq> 0)"
| "truthy (JStr s) = (s \<noteq> [])"
| "truthy (JArr xs) = (xs \<noteq> [])"
| "truthy (JObj kvs) = (kvs \<noteq> [])"

text \<open>\<open>d.get(k)\<close>, with \<open>None\<close> for \<open>k not in d\<close>, and \<open>d[k] = v\<close>\<close>

definition dict_get :: "dict \<Rightarrow> string \<Rightarrow> json option" where
  "dict_get d k = map_of d k"

fun dict_set :: "string \<Rightarrow> json \<Rightarrow> dict \<Rightarrow> dict" where
  "dict_set k v [] = [(k, v)]"
| "dict_set k v (kv # kvs) =
     (if fst kv = k then (k, v) # kvs else kv # dict_set k v kvs)"

text \<open>\<open>if k not in d: d[k] = v\<close>\<close>

definition set_default :: "string \<Rightarrow> json \<Rightarrow> dict \<Rightarrow> dict" where
  "set_default k v d = (if dict_get d k = None then dict_set k v d else d)"

text \<open>\<open>len(v)\<close>, which raises on a value without a length\<close>

definition json_len :: "json \<Rightarrow> error + nat" where
  "json_len v =
     (case v of
        JArr xs \<Rightarrow> Inr (length xs)
      | JStr s \<Rightarrow> Inr (length s)
      | JObj kvs \<Rightarrow> Inr (length kvs)
      | _ \<Rightarrow> Inl (TypeError ''object has no len()''))"

text \<open>
  The dictionaries that the parser builds itself, as JSON values: the keys that are
  present, in the order of the dictionary display in the source.
\<close>

definition dict_item :: "string \<Rightarrow> ('a \<Rightarrow> json) \<Rightarrow> 'a option \<Rightarrow> dict" where
  "dict_item k f v = (case v of None \<Rightarrow> [] | Some x \<Rightarrow> [(k, f x)])"

definition str_list :: "string list \<Rightarrow> json" where
  "str_list xs = JArr (map JStr xs)"

definition subgoal_dict :: "subgoal_rec \<Rightarrow> dict" where
  "subgoal_dict sg =
     dict_item ''id'' (\<lambda>n. JNum (real n)) (sg_id sg)
     @ dict_item ''title'' JStr (sg_title sg)
     @ dict_item ''description'' JStr (sg_description sg)
     @ dict_item ''search_terms'' str_list (sg_search_terms sg)
     @ dict_item ''priority'' JStr (sg_priority sg)
     @ dict_item ''expected_sources'' str_list (sg_expected_sources sg)"

definition goal_dict :: "goal \<Rightarrow> dict" where
  "goal_dict g =
     dict_item ''main_goal'' JStr (main_goal g)
     @ dict_item ''research_domain'' JStr (research_domain g)
     @ dict_item ''time_scope'' JStr (time_scope g)
     @ dict_item ''subgoals'' (\<lambda>sgs. JArr (map (\<lambda>sg. JObj (subgoal_dict sg)) sgs)) (subgoals g)
     @ dict_item ''success_criteria'' str_list (success_criteria g)
     @ dict_item ''estimated_complexity'' JStr (estimated_complexity g)
     @ dict_item ''created_at'' JStr (created_at g)
     @ dict_item ''total_subgoals'' (\<lambda>n. JNum (real n)) (total_subgoals g)"

text \<open>
  The subgoals of a goal dictionary, the items of the list under \<open>subgoals\<close>, and the
  value a subgoal holds under \<open>search_terms\<close>.
\<close>

definition subgoals_of :: "dict \<Rightarrow> json list" where
  "subgoals_of d = (case dict_get d ''subgoals'' of Some (JArr xs) \<Rightarrow> xs | _ \<Rightarrow> [])"

definition search_terms_of :: "json \<Rightarrow> json option" where
  "search_terms_of sg = (case sg of JObj d \<Rightarrow> dict_get d ''search_terms'' | _ \<Rightarrow> None)"

definition stop_words :: "string list" where
  "stop_words =
     [''the'', ''and'', ''for'', ''are'', ''but'', ''not'', ''you'', ''all'', ''can'', ''had'',
      ''her'', ''was'', ''one'', ''our'', ''out'', ''day'', ''get'', ''has'', ''him'', ''his'',
      ''how'', ''its'', ''may'', ''new'', ''now'', ''old'', ''see'', ''two'', ''way'', ''who'',
      ''boy'', ''did'', ''she'', ''use'', ''find'', ''any'', ''work'', ''part'', ''take'',
      ''know'', ''back'', ''good'', ''give'', ''most'', ''very'', ''research'',
      ''comprehensive'', ''conduct'', ''information'', ''data'']"

text \<open>\<open>GoalParser._generate_search_terms\<close>\<close>

definition generate_search_terms :: "string \<Rightarrow> string list" where
  "generate_search_terms description =
     (if description = [] then [''research'', ''information'']
      else
        let words = findall_words (lower description);
            keywords = filter (\<lambda>w. w \<notin> set stop_words \<and> length w > 2) words;
            unique_keywords = fromkeys keywords
        in if unique_keywords = [] then
             (if contains (lower description) ''morocco''
              then [''morocco'', ''location'', ''geography'', ''africa'', ''country'']
              else if list_ex (\<lambda>geo_term. contains (lower description) geo_term)
                        [''where'', ''location'', ''place'', ''country'', ''city'']
              then (let words_clean = filter (\<lambda>w. length w > 3) words
                    in if words_clean \<noteq> [] then take 3 words_clean @ [''location'', ''geography'']
                       else [''location'', ''geography'', ''place''])
              else [''information'', ''research'', ''facts''])
           else take 5 unique_keywords)"

text \<open>
  \<open>GoalParser._manual_parse\<close>. The loop over the lines carries \<open>main_goal\<close>,
  \<open>subgoals\<close>, \<open>current_subgoal\<close> (the empty dictionary is \<open>None\<close>) and \<open>in_subgoal\<close>.
\<close>

definition any_in :: "string list \<Rightarrow> string \<Rightarrow> bool" where
  "any_in indicators line = list_ex (\<lambda>indicator. contains (lower line) indicator) indicators"

definition add_description :: "string \<Rightarrow> subgoal_rec \<Rightarrow> subgoal_rec" where
  "add_description line sg =
     (if get_or [] (sg_description sg) \<noteq> []
      then sg\<lparr>sg_description := Some (get_or [] (sg_description sg) @ '' '' @ line)\<rparr>
      else sg\<lparr>sg_description := Some line\<rparr>)"

definition manual_line ::
  "string \<times> subgoal_rec list \<times> subgoal_rec option \<times> bool \<Rightarrow> string
     \<Rightarrow> string \<times> subgoal_rec list \<times> subgoal_rec option \<times> bool" where
  "manual_line st raw_line =
     (case st of (main, sgs, current_subgoal, in_subgoal) \<Rightarrow>
        let line = strip raw_line in
        if line = [] then st
        else if any_in [''main goal'', ''objective'', ''research goal''] line
        then ((if CHR '':'' \<in> set line
               then strip (tl (dropWhile (\<lambda>c. c \<noteq> CHR '':'') line)) else line),
              sgs, current_subgoal, in_subgoal)
        else if any_in [''subtask'', ''subgoal'', ''task''] line
        then (let sgs' = (case current_subgoal of None \<Rightarrow> sgs | Some sg \<Rightarrow> sgs @ [sg])
              in (main, sgs',
                  Some \<lparr>sg_id = Some (length sgs' + 1), sg_title = Some line,
                        sg_description = Some [], sg_search_terms = Some [],
                        sg_priority = Some ''medium'',
                        sg_expected_sources = Some [''academic papers'', ''websites'']\<rparr>,
                  True))
        else if in_subgoal
        then (main, sgs, map_option (add_description line) current_subgoal, in_subgoal)
        else st)"

definition manual_parse :: "string \<Rightarrow> goal" where
  "manual_parse response =
     (case foldl manual_line ([], [], None, False) (split CHR 0x0A response) of
        (main, sgs, current_subgoal, in_subgoal) \<Rightarrow>
          \<lparr>main_goal = Some (if main \<noteq> [] then main else ''Research the specified topic''),
           research_domain = Some ''General'',
           time_scope = Some ''recent'',
           subgoals = Some (case current_subgoal of None \<Rightarrow> sgs | Some sg \<Rightarrow> sgs @ [sg]),
           success_criteria = Some [''Comprehensive coverage'', ''Accurate citations''],
           estimated_complexity = Some ''moderate'',
           created_at = None,
           total_subgoals = None\<rparr>)"

text \<open>
  \<open>GoalParser._extract_structured_goal\<close>. The response is the value that text generation
  returned, a \<open>str\<close> or \<open>None\<close>. \<open>loads\<close> stands for \<open>json.loads\<close>, a parameter, the
  JSON parser being a library; the block it is given starts with a brace, so what it
  returns is a dictionary. No brace-delimited block, or a block that does not parse, leads
  to the manual parse. On \<open>None\<close> the search raises \<open>TypeError\<close>, which is caught here, and
  the manual parse then raises \<open>AttributeError\<close>, which is not.
\<close>

definition extract_structured_goal ::
  "(string \<Rightarrow> error + dict) \<Rightarrow> string option \<Rightarrow> error + dict" where
  "extract_structured_goal loads response =
     (case response of
        None \<Rightarrow> Inl (AttributeError ''NoneType object has no attribute split'')
      | Some answer \<Rightarrow>
          (case json_block answer of
             None \<Rightarrow> Inr (goal_dict (manual_parse answer))
           | Some json_str \<Rightarrow>
               (case loads json_str of
                  Inl e \<Rightarrow> Inr (goal_dict (manual_parse answer))
                | Inr parsed \<Rightarrow> Inr parsed)))"

text \<open>
  \<open>_generate_search_terms\<close> on the value found under \<open>description\<close>: a falsy value gives
  the two generic terms, a text gives its keywords, and any other value has no
  \<open>lower\<close> method.
\<close>

definition search_terms_for :: "json \<Rightarrow> error + string list" where
  "search_terms_for description =
     (if \<not> truthy description then Inr [''research'', ''information'']
      else (case description of
              JStr s \<Rightarrow> Inr (generate_search_terms s)
            | _ \<Rightarrow> Inl (AttributeError ''object has no attribute lower'')))"

text \<open>
  The body of the loop of \<open>GoalParser._validate_and_enhance\<close> on the item \<open>subgoal\<close>
  with index \<open>i\<close>. On a dictionary it sets the missing keys; the search terms are
  generated when the key is absent or its value is falsy. On any other value a statement
  raises: \<open>'id' not in subgoal\<close> on \<open>None\<close>, a bool or a number; on a \<open>str\<close> or a list
  either the assignment \<open>subgoal['id'] = i + 1\<close>, or, when \<open>'id'\<close> is in it,
  \<open>subgoal.get\<close> or \<open>subgoal['search_terms']\<close>.
\<close>

definition not_a_dict :: "bool \<Rightarrow> bool \<Rightarrow> error" where
  "not_a_dict has_id has_search_terms =
     (if has_id \<and> \<not> has_search_terms then AttributeError ''object has no attribute get''
      else TypeError ''object does not support item assignment or string indices'')"

definition enhance_subgoal :: "nat \<Rightarrow> json \<Rightarrow> error + json" where
  "enhance_subgoal i subgoal =
     (case subgoal of
        JObj d \<Rightarrow>
          (let with_id = set_default ''id'' (JNum (real (i + 1))) d in
           case (if (case dict_get with_id ''search_terms'' of
                       None \<Rightarrow> True
                     | Some v \<Rightarrow> \<not> truthy v)
                 then (case search_terms_for (get_or (JStr []) (dict_get with_id ''description'')) of
                         Inl e \<Rightarrow> Inl e
                       | Inr terms \<Rightarrow> Inr (dict_set ''search_terms'' (str_list terms) with_id))
                 else Inr with_id) of
             Inl e \<Rightarrow> Inl e
           | Inr with_terms \<Rightarrow>
               Inr (JObj (set_default ''expected_sources''
                            (str_list [''academic papers'', ''websites'', ''reports''])
                            (set_default ''priority'' (JStr ''medium'') with_terms))))
      | JStr s \<Rightarrow> Inl (not_a_dict (contains s ''id'') (contains s ''search_terms''))
      | JArr xs \<Rightarrow> Inl (not_a_dict (JStr ''id'' \<in> set xs) (JStr ''search_terms'' \<in> set xs))
      | _ \<Rightarrow> Inl (TypeError ''argument is not iterable''))"

text \<open>The loop over the items from index \<open>i\<close> on; the first exception ends it\<close>

fun enhance_all :: "nat \<Rightarrow> json list \<Rightarrow> error + json list" where
  "enhance_all i [] = Inr []"
| "enhance_all i (subgoal # rest) =
     (case enhance_subgoal i subgoal of
        Inl e \<Rightarrow> Inl e
      | Inr enhanced \<Rightarrow>
          (case enhance_all (Suc i) rest of
             Inl e \<Rightarrow> Inl e
           | Inr others \<Rightarrow> Inr (enhanced # others)))"

text \<open>
  \<open>for i, subgoal in enumerate(parsed_goal['subgoals'])\<close> on the value under
  \<open>subgoals\<close>, with the value afterwards. A list yields its items, and the dictionaries
  among them are updated in place. A \<open>str\<close> yields its characters and a dictionary its
  keys, which the body raises on, so that only an empty one passes, unchanged.
  \<open>None\<close>, a bool and a number are not iterable.
\<close>

definition enhance_subgoals :: "json \<Rightarrow> error + json" where
  "enhance_subgoals v =
     (case v of
        JArr xs \<Rightarrow> (case enhance_all 0 xs of Inl e \<Rightarrow> Inl e | Inr xs' \<Rightarrow> Inr (JArr xs'))
      | JStr s \<Rightarrow>
          (case enhance_all 0 (map (\<lambda>c. JStr [c]) s) of Inl e \<Rightarrow> Inl e | Inr _ \<Rightarrow> Inr (JStr s))
      | JObj kvs \<Rightarrow>
          (case enhance_all 0 (map (\<lambda>kv. JStr (fst kv)) kvs) of
             Inl e \<Rightarrow> Inl e
           | Inr _ \<Rightarrow> Inr (JObj kvs))
      | _ \<Rightarrow> Inl (TypeError ''object is not iterable''))"

text \<open>\<open>GoalParser._validate_and_enhance\<close>; \<open>now\<close> is the timestamp\<close>

definition validate_and_enhance :: "string \<Rightarrow> dict \<Rightarrow> string \<Rightarrow> error + dict" where
  "validate_and_enhance now parsed_goal original_goal =
     (let with_keys = set_default ''main_goal'' (JStr original_goal)
                        (set_default ''subgoals'' (JArr []) parsed_goal)
      in case enhance_subgoals (get_or (JArr []) (dict_get with_keys ''subgoals'')) of
           Inl e \<Rightarrow> Inl e
         | Inr enhanced \<Rightarrow>
             (case json_len enhanced of
                Inl e \<Rightarrow> Inl e
              | Inr n \<Rightarrow>
                  Inr (dict_set ''total_subgoals'' (JNum (real n))
                        (dict_set ''created_at'' (JStr now)
                          (dict_set ''subgoals'' enhanced with_keys)))))"

text \<open>\<open>GoalParser._create_fallback_structure\<close>\<close>

definition create_fallback_structure :: "string \<Rightarrow> string \<Rightarrow> goal" where
  "create_fallback_structure now g =
     \<lparr>main_goal = Some g,
      research_domain = Some ''General'',
      time_scope = Some ''recent'',
      subgoals = Some
        [\<lparr>sg_id = Some 1, sg_title = Some ''Primary Research'',
          sg_description = Some (''Conduct comprehensive research on: '' @ g),
          sg_search_terms = Some (generate_search_terms g),
          sg_priority = Some ''high'',
          sg_expected_sources = Some [''academic papers'', ''websites'', ''reports'']\<rparr>],
      success_criteria =
        Some [''Comprehensive coverage'', ''Accurate information'', ''Proper citations''],
      estimated_complexity = Some ''moderate'',
      created_at = Some now,
      total_subgoals = Some 1\<rparr>"

text \<open>
  \<open>GoalParser.parse_goal\<close>. \<open>response\<close> is what \<open>LLMTools.generate_text\<close> did on the
  parsing prompt: the value it returned or the exception it raised. The \<open>try\<close> block
  holds the generation, the extraction and the enhancement, and the \<open>except\<close> clause
  turns an exception of any of them into the fallback structure.
\<close>

definition parse_goal ::
  "(string \<Rightarrow> error + dict) \<Rightarrow> string \<Rightarrow> string \<Rightarrow> error + string option \<Rightarrow> dict" where
  "parse_goal loads now g response =
     (case response of
        Inl e \<Rightarrow> goal_dict (create_fallback_structure now g)
      | Inr answer \<Rightarrow>
          (case extract_structured_goal loads answer of
             Inl e \<Rightarrow> goal_dict (create_fallback_structure now g)
           | Inr parsed_goal \<Rightarrow>
               (case validate_and_enhance now parsed_goal g of
                  Inl e \<Rightarrow> goal_dict (create_fallback_structure now g)
                | Inr validated_goal \<Rightarrow> validated_goal)))"

section \<open>Planner: phases, plans and the selection step\<close>

text \<open>
  A phase and a plan are Python dictionaries, modelled as records of the keys the
  scheduler reads. A key that the code reads with different defaults in different places
  is optional; a key always read through \<open>get\<close> with one default is modelled by its
  value or that default. \<open>next_phase['id']\<close> raises \<open>KeyError\<close> when the key is absent.
  The plan comes from parsed JSON, where the value of \<open>search_terms\<close> may be \<open>null\<close>.
\<close>

record phase =
  ph_id :: "string option"
  ph_title :: "string option"
  ph_description :: string
  ph_search_terms :: "string list nullable"
  ph_expected_sources :: "string list option"
  ph_dependencies :: "string list"

record plan =
  phases :: "phase list"
  research_goal :: string

definition get_id :: "phase \<Rightarrow> string" where
  "get_id p = get_or [] (ph_id p)"

text \<open>
  The \<open>for phase in phases\<close> loop of \<open>Planner.get_next_phase\<close>: a phase whose id is in
  \<open>completed_phases\<close> is skipped (\<open>continue\<close>), the first one whose dependencies are
  all in \<open>completed_phases\<close> is returned, and \<open>None\<close> is returned when the loop runs out.
\<close>

fun next_in :: "phase list \<Rightarrow> string list \<Rightarrow> phase option" where
  "next_in [] completed = None"
| "next_in (p # ps) completed =
     (if get_id p \<in> set completed then next_in ps completed
      else if list_all (\<lambda>dep. dep \<in> set completed) (ph_dependencies p) then Some p
      else next_in ps completed)"

definition get_next_phase :: "plan \<Rightarrow> string list \<Rightarrow> phase option" where
  "get_next_phase pl completed_phases = next_in (phases pl) completed_phases"

section \<open>Self-critique: the final quality review\<close>

text \<open>
  What \<open>final_quality_review\<close> reads of the research content: the goal, of every
  finding its source title and relevance score, of every citation its title and url, and
  the number of completed phases.
\<close>

record reviewed_finding =
  rf_source_title :: string
  rf_relevance_score :: pyval

record reviewed_citation =
  rv_title :: string
  rv_url :: string

record research_content =
  rc_goal :: string
  rc_findings :: "reviewed_finding list"
  rc_citations :: "reviewed_citation list"
  rc_phases_completed :: nat

text \<open>
  The dictionary returned by \<open>final_quality_review\<close>. Of the four partial reviews only
  the key \<open>score\<close> is kept; they are absent from the dictionary of the \<open>except\<close> clause.
\<close>

record quality_review =
  overall_score :: real
  content_quality :: "real option"
  citation_quality :: "real option"
  coverage_assessment :: "real option"
  methodology_review :: "real option"
  final_recommendations :: "string list"
  quality_grade :: string
  approval_status :: string
  review_error :: "string option"

text \<open>\<open>sum(f.get('relevance_score', 0) for f in findings)\<close>\<close>

fun sum_scores :: "pyval list \<Rightarrow> error + real" where
  "sum_scores [] = Inr 0"
| "sum_scores (NotNum # vs) = Inl (TypeError ''unsupported operand type(s) for +'')"
| "sum_scores (Num x # vs) =
     (case sum_scores vs of Inl e \<Rightarrow> Inl e | Inr rest \<Rightarrow> Inr (x + rest))"

text \<open>\<open>sum(1 for f in findings if f.get('relevance_score', 0) > 0.7)\<close>\<close>

fun count_high :: "pyval list \<Rightarrow> error + nat" where
  "count_high [] = Inr 0"
| "count_high (NotNum # vs) = Inl (TypeError ''> not supported between instances'')"
| "count_high (Num x # vs) =
     (case count_high vs of Inl e \<Rightarrow> Inl e
      | Inr n \<Rightarrow> Inr (if x > 0.7 then n + 1 else n))"

definition review_content_quality :: "research_content \<Rightarrow> error + real" where
  "review_content_quality rc =
     (let findings = rc_findings rc in
      if findings = [] then Inr 0
      else
        let total_findings = length findings;
            unique_sources = card (set (map rf_source_title findings))
        in case sum_scores (map rf_relevance_score findings) of
             Inl e \<Rightarrow> Inl e
           | Inr score_sum \<Rightarrow>
               let avg_relevance = score_sum / real total_findings;
                   quantity_score = min 1 (real total_findings / 20);
                   diversity_score = min 1 (real unique_sources / 10);
                   relevance_score = avg_relevance
               in Inr (quantity_score * 0.3 + diversity_score * 0.3 + relevance_score * 0.4))"

definition review_citation_quality :: "reviewed_citation list \<Rightarrow> real" where
  "review_citation_quality citations =
     (if citations = [] then 0
      else real (length (filter (\<lambda>c. rv_title c \<noteq> [] \<and> rv_url c \<noteq> []) citations))
             / real (length citations))"

definition assess_research_coverage :: "research_content \<Rightarrow> error + real" where
  "assess_research_coverage rc =
     (if rc_goal rc = [] \<or> rc_findings rc = [] then Inr 0
      else case count_high (map rf_relevance_score (rc_findings rc)) of
             Inl e \<Rightarrow> Inl e
           | Inr high_relevance_count \<Rightarrow>
               Inr (min 1 (real high_relevance_count / real (max 1 (length (rc_findings rc))))))"

definition review_methodology :: "research_content \<Rightarrow> real" where
  "review_methodology rc = min 1 (real (rc_phases_completed rc) / 5)"

definition calculate_overall_quality_score :: "real \<Rightarrow> real \<Rightarrow> real \<Rightarrow> real \<Rightarrow> real" where
  "calculate_overall_quality_score content_score citation_score coverage_score methodology_score =
     content_score * 0.4 + citation_score * 0.2 + coverage_score * 0.3 + methodology_score * 0.1"

definition generate_final_recommendations :: "real \<Rightarrow> real \<Rightarrow> real \<Rightarrow> real \<Rightarrow> string list" where
  "generate_final_recommendations content_score citation_score coverage_score methodology_score =
     (if content_score < 0.7
      then [''Expand research scope to include more diverse and comprehensive sources'']
      else [])
     @ (if citation_score < 0.8 then [''Improve citation completeness and formatting''] else [])
     @ (if coverage_score < 0.6
        then [''Address research gaps to better cover the stated research goal''] else [])
     @ (if methodology_score < 0.7
        then [''Follow a more systematic research methodology with additional phases'']
        else [])"

text \<open>\<open>SelfCritique._assign_quality_grade\<close>\<close>

definition assign_quality_grade :: "real \<Rightarrow> string" where
  "assign_quality_grade score =
     (if score \<ge> 0.9 then ''A''
      else if score \<ge> 0.8 then ''B''
      else if score \<ge> 0.7 then ''C''
      else if score \<ge> 0.6 then ''D''
      else ''F'')"

text \<open>The body of the \<open>try\<close> block of \<open>final_quality_review\<close>\<close>

definition quality_review_body :: "research_content \<Rightarrow> error + quality_review" where
  "quality_review_body rc =
     (case review_content_quality rc of
        Inl e \<Rightarrow> Inl e
      | Inr content \<Rightarrow>
          let cit = review_citation_quality (rc_citations rc) in
          (case assess_research_coverage rc of
             Inl e \<Rightarrow> Inl e
           | Inr coverage \<Rightarrow>
               let methodology = review_methodology rc;
                   score = calculate_overall_quality_score content cit coverage methodology
               in Inr \<lparr>overall_score = score,
                        content_quality = Some content,
                        citation_quality = Some cit,
                        coverage_assessment = Some coverage,
                        methodology_review = Some methodology,
                        final_recommendations =
                          generate_final_recommendations content cit coverage methodology,
                        quality_grade = assign_quality_grade score,
                        approval_status =
                          (if score \<ge> 0.7 then ''approved'' else ''needs_revision''),
                        review_error = None\<rparr>))"

text \<open>\<open>SelfCritique.final_quality_review\<close>\<close>

definition final_quality_review :: "research_content \<Rightarrow> quality_review" where
  "final_quality_review rc =
     (case quality_review_body rc of
        Inr review \<Rightarrow> review
      | Inl e \<Rightarrow>
          \<lparr>overall_score = 0.5,
           content_quality = None,
           citation_quality = None,
           coverage_assessment = None,
           methodology_review = None,
           final_recommendations = [],
           quality_grade = ''C'',
           approval_status = ''needs_revision'',
           review_error = Some (str_error e)\<rparr>)"

section \<open>Execution agent\<close>

subsection \<open>Data\<close>

text \<open>
  A retrieved document, the dictionary returned by \<open>LLMTools.extract_key_information\<close>,
  a finding, a citation, an entry of the execution log and the result of a phase. A key
  read with \<open>get\<close> and a default is modelled by its value or that default.
\<close>

record doc =
  d_title :: string
  d_url :: string
  d_content :: string
  d_source_type :: string

record key_info =
  ki_key_findings :: "string list"
  ki_relevant_facts :: "string list"
  ki_statistics :: "string list"
  ki_conclusions :: "string list"
  ki_relevance_score :: pyval

record finding =
  f_source_title :: string
  f_source_url :: string
  f_key_findings :: "string list"
  f_relevant_facts :: "string list"
  f_statistics :: "string list"
  f_conclusions :: "string list"
  f_relevance_score :: real
  f_phase_id :: string

record citation =
  c_type :: string
  c_title :: string
  c_url :: string
  c_authors :: "string list"
  c_date :: string
  c_source_type :: string
  c_content :: string
  c_context :: string
  c_quote :: string
  c_page_section :: string

record log_entry =
  le_description :: string
  le_completed_phases :: nat

record critique =
  cq_overall_score :: real
  cq_quality_grade :: string
  cq_approval_status :: string

record phase_success =
  r_phase_id :: string
  r_phase_title :: string
  r_documents_retrieved :: nat
  r_documents_stored :: nat
  r_findings :: "finding list"
  r_citations :: "citation list"
  r_summary :: string
  r_critique :: critique
  r_new_insights :: "string list"

text \<open>
  A phase result is either the dictionary \<open>{'phase_id', 'success': False, 'error'}\<close> or
  the dictionary with \<open>'success': True\<close>.
\<close>

datatype phase_result = Failure string string | Success phase_success

text \<open>\<open>result.get('new_insights')\<close>, which is \<open>None\<close> on a failure dictionary\<close>

fun new_insights_of :: "phase_result \<Rightarrow> string list" where
  "new_insights_of (Failure i e) = []"
| "new_insights_of (Success r) = r_new_insights r"

subsection \<open>State and collaborators\<close>

text \<open>
  The attributes of \<open>ExecutionAgent\<close> that \<open>execute_research\<close> reads and writes.
  \<open>clock\<close> counts the calls made to collaborators so far; it is not an attribute of the
  class but the index at which the environment is asked for its next answer, so that a
  collaborator may answer the same call differently at different times.
\<close>

record agent =
  current_plan :: "plan option"
  completed_phases :: "string list"
  all_findings :: "finding list"
  all_citations :: "citation list"
  execution_log :: "log_entry list"
  current_session_id :: "string option"
  clock :: nat

text \<open>
  The configuration and the collaborators of the agent: the two search connectors, the
  vector store, the language model behind extraction, citation extraction, synthesis,
  critique and re-planning, and the database. Each answers a call made at a given time.
  The ones whose source lets an exception out return \<open>error + 'a\<close>. Those that catch what
  they meet return a value: \<open>search_web\<close>, \<open>search_arxiv\<close>, \<open>store_documents\<close>,
  \<open>extract_key_information\<close>, \<open>extract_citations_from_content\<close>,
  \<open>critique_phase_results\<close> and \<open>update_plan\<close> have an \<open>except Exception\<close> clause that
  returns a fallback, and the database operations other than \<open>create_research_session\<close>
  catch the database error and return a flag or a count.
  \<open>plan_after_update\<close> gives the plan the agent holds after \<open>_consider_plan_updates\<close>
  and whether the step "Plan updated" is logged.
\<close>

record env =
  max_sources :: nat
  create_research_session :: "nat \<Rightarrow> string \<Rightarrow> error + string"
  create_execution_plan :: "nat \<Rightarrow> goal \<Rightarrow> error + plan"
  search_web :: "nat \<Rightarrow> string \<Rightarrow> nat \<Rightarrow> doc list"
  search_arxiv :: "nat \<Rightarrow> string \<Rightarrow> nat \<Rightarrow> doc list"
  store_documents :: "nat \<Rightarrow> doc list \<Rightarrow> string list"
  extract_key_information :: "nat \<Rightarrow> string \<Rightarrow> string \<Rightarrow> key_info"
  extract_citations_from_content :: "nat \<Rightarrow> string \<Rightarrow> doc \<Rightarrow> citation list"
  synthesis_text :: "nat \<Rightarrow> finding list \<Rightarrow> phase \<Rightarrow> error + string"
  critique_phase_results :: "nat \<Rightarrow> phase \<Rightarrow> finding list \<Rightarrow> string \<Rightarrow> critique"
  plan_after_update :: "nat \<Rightarrow> plan \<Rightarrow> string list \<Rightarrow> string list \<Rightarrow> plan \<times> bool"
  save_research_phase :: "nat \<Rightarrow> string \<Rightarrow> phase_result \<Rightarrow> bool"
  overall_synthesis_text :: "nat \<Rightarrow> finding list \<Rightarrow> string \<Rightarrow> error + string"
  save_findings :: "nat \<Rightarrow> string \<Rightarrow> finding list \<Rightarrow> nat"
  save_citations :: "nat \<Rightarrow> string \<Rightarrow> citation list \<Rightarrow> nat"
  update_session_status :: "nat \<Rightarrow> string \<Rightarrow> string \<Rightarrow> bool"

definition tick :: "agent \<Rightarrow> agent" where
  "tick s = s\<lparr>clock := Suc (clock s)\<rparr>"

text \<open>\<open>_log_step\<close> (the timestamp of an entry is left out)\<close>

definition log_step :: "string \<Rightarrow> agent \<Rightarrow> agent" where
  "log_step description s =
     s\<lparr>execution_log := execution_log s @
        [\<lparr>le_description = description,
          le_completed_phases = length (completed_phases s)\<rparr>]\<rparr>"

subsection \<open>Retrieval\<close>

text \<open>
  \<open>Retriever.retrieve_from_sources\<close>. The loop \<open>for term in search_terms\<close> raises
  \<open>TypeError\<close> when \<open>search_terms\<close> is \<open>None\<close>; nothing in the method catches it. The
  accumulator of the loop is the time and the results so far.
\<close>

definition search_term ::
  "env \<Rightarrow> string list \<Rightarrow> nat \<Rightarrow> nat \<times> doc list \<Rightarrow> string \<Rightarrow> nat \<times> doc list" where
  "search_term e source_types n_terms acc term =
     (case acc of (t, all_results) \<Rightarrow>
        let (t1, r1) =
              (if ''web'' \<in> set source_types
               then (Suc t, all_results @ search_web e t term (max_sources e div n_terms))
               else (t, all_results))
        in if ''academic'' \<in> set source_types
           then (Suc t1, r1 @ search_arxiv e t1 term 3)
           else (t1, r1))"

fun unique_by_url :: "string list \<Rightarrow> doc list \<Rightarrow> doc list" where
  "unique_by_url seen_urls [] = []"
| "unique_by_url seen_urls (d # ds) =
     (if d_url d \<noteq> [] \<and> d_url d \<notin> set seen_urls
      then d # unique_by_url (d_url d # seen_urls) ds
      else unique_by_url seen_urls ds)"

definition retrieve_from_sources ::
  "env \<Rightarrow> string list nullable \<Rightarrow> string list \<Rightarrow> agent \<Rightarrow> (error + doc list) \<times> agent" where
  "retrieve_from_sources e search_terms source_types s =
     (case search_terms of
        Null \<Rightarrow> (Inl (TypeError ''NoneType object is not iterable''), s)
      | Val terms \<Rightarrow>
          (case foldl (search_term e source_types (length terms)) (clock s, []) terms of
             (t, all_results) \<Rightarrow> (Inr (unique_by_url [] all_results), s\<lparr>clock := t\<rparr>)))"

subsection \<open>One phase\<close>

text \<open>
  The body of \<open>for doc in retrieved_docs\<close> in \<open>_execute_single_phase\<close>, on the agent,
  \<open>phase_findings\<close> and \<open>phase_citations\<close>. Inside its \<open>try\<close> block two things raise:
  \<open>self.current_plan.get\<close> when there is no plan, and the comparison of a relevance
  score that is not a number with \<open>0.3\<close>. Either way the \<open>except\<close> clause goes on to the
  next document: nothing is appended for this one.
\<close>

definition process_doc ::
  "env \<Rightarrow> string \<Rightarrow> agent \<times> finding list \<times> citation list \<Rightarrow> doc
     \<Rightarrow> agent \<times> finding list \<times> citation list" where
  "process_doc e phase_id acc d =
     (case acc of (s, phase_findings, phase_citations) \<Rightarrow>
        (case current_plan s of
           None \<Rightarrow> acc
         | Some pl \<Rightarrow>
             let key_info = extract_key_information e (clock s) (d_content d) (research_goal pl);
                 s1 = tick s
             in (case ki_relevance_score key_info of
                   NotNum \<Rightarrow> (s1, phase_findings, phase_citations)
                 | Num score \<Rightarrow>
                     let f = \<lparr>f_source_title = d_title d,
                              f_source_url = d_url d,
                              f_key_findings = ki_key_findings key_info,
                              f_relevant_facts = ki_relevant_facts key_info,
                              f_statistics = ki_statistics key_info,
                              f_conclusions = ki_conclusions key_info,
                              f_relevance_score = score,
                              f_phase_id = phase_id\<rparr>;
                         (s2, pf) =
                           (if score > 0.3
                            then (s1\<lparr>all_findings := all_findings s1 @ [f]\<rparr>,
                                  phase_findings @ [f])
                            else (s1, phase_findings));
                         citations = extract_citations_from_content e (clock s2) (d_content d) d;
                         s3 = tick s2
                     in (s3\<lparr>all_citations := all_citations s3 @ citations\<rparr>,
                         pf, phase_citations @ citations))))"

text \<open>\<open>_synthesize_phase_findings\<close>; the model is given the first five findings\<close>

definition synthesize_phase_findings ::
  "env \<Rightarrow> finding list \<Rightarrow> phase \<Rightarrow> agent \<Rightarrow> string \<times> agent" where
  "synthesize_phase_findings e findings ph s =
     (if findings = [] then (''No significant findings in this phase.'', s)
      else (case synthesis_text e (clock s) (take 5 findings) ph of
              Inr synthesis \<Rightarrow> (synthesis, tick s)
            | Inl err \<Rightarrow>
                (''Phase completed with '' @ str_nat (length findings) @ '' findings from ''
                   @ str_nat (card (set (map f_source_title findings))) @ '' sources.'',
                 tick s)))"

text \<open>\<open>_extract_new_insights\<close>\<close>

definition extract_new_insights :: "finding list \<Rightarrow> string list" where
  "extract_new_insights findings =
     take 5 (concat (map (\<lambda>f. (if f_relevance_score f > 0.8 then f_key_findings f else [])
                               @ f_conclusions f) findings))"

text \<open>
  \<open>_execute_single_phase\<close>: the result it returns or the exception it lets out, and the
  agent after it.
\<close>

definition execute_single_phase ::
  "env \<Rightarrow> phase \<Rightarrow> agent \<Rightarrow> (error + phase_result) \<times> agent" where
  "execute_single_phase e ph s =
     (let phase_id = get_or ''unknown'' (ph_id ph);
          phase_title = get_or ''Unknown Phase'' (ph_title ph);
          s1 = log_step (''Executing phase: '' @ phase_title) s
      in case retrieve_from_sources e (ph_search_terms ph)
                (get_or [''web''] (ph_expected_sources ph)) s1 of
           (Inl err, s2) \<Rightarrow> (Inl err, s2)
         | (Inr retrieved_docs, s2) \<Rightarrow>
             if retrieved_docs = []
             then (Inr (Failure phase_id ''No documents retrieved''), s2)
             else
               let stored_ids = store_documents e (clock s2) retrieved_docs;
                   s3 = tick s2
               in (case foldl (process_doc e phase_id) (s3, [], []) retrieved_docs of
                     (s4, phase_findings, phase_citations) \<Rightarrow>
                       (case synthesize_phase_findings e phase_findings ph s4 of
                          (phase_summary, s5) \<Rightarrow>
                            let critique_result =
                                  critique_phase_results e (clock s5) ph phase_findings phase_summary;
                                s6 = tick s5
                            in (Inr (Success
                                  \<lparr>r_phase_id = phase_id,
                                   r_phase_title = phase_title,
                                   r_documents_retrieved = length retrieved_docs,
                                   r_documents_stored = length stored_ids,
                                   r_findings = phase_findings,
                                   r_citations = phase_citations,
                                   r_summary = phase_summary,
                                   r_critique = critique_result,
                                   r_new_insights = extract_new_insights phase_findings\<rparr>),
                                s6))))"

subsection \<open>The phase loop\<close>

text \<open>
  \<open>_consider_plan_updates\<close>: it returns at once for no insights, and its own \<open>try\<close>
  block keeps every exception in.
\<close>

definition consider_plan_updates :: "env \<Rightarrow> string list \<Rightarrow> agent \<Rightarrow> agent" where
  "consider_plan_updates e new_insights s =
     (if new_insights = [] then s
      else case current_plan s of
             None \<Rightarrow> s
           | Some pl \<Rightarrow>
               (case plan_after_update e (clock s) pl new_insights (completed_phases s) of
                  (updated_plan, changed) \<Rightarrow>
                    let s1 = (tick s)\<lparr>current_plan := Some updated_plan\<rparr>
                    in if changed then log_step ''Plan updated based on new discoveries'' s1
                       else s1))"

text \<open>
  One pass through the body of \<open>while True\<close> in \<open>_execute_phases\<close>, on the agent and
  the local list \<open>phase_results\<close>. The loop ends (\<open>break\<close>) when the selection step
  returns nothing. Inside the \<open>try\<close> block the exception of \<open>_execute_single_phase\<close> and
  the \<open>KeyError\<close> of \<open>next_phase['id']\<close> reach the \<open>except\<close> clause, which appends a
  failure dictionary and lets the loop go on; the clause reads \<open>next_phase['id']\<close>
  itself, so for a phase without the key the \<open>KeyError\<close> leaves the loop. The selection
  step is outside the \<open>try\<close> block: without a plan its \<open>plan.get\<close> raises. A phase
  is taken to be a dictionary with at least one key, which \<open>if not next_phase\<close> lets
  through.
\<close>

datatype iteration =
    Finished "phase_result list"
  | LoopRaised error
  | Continue "phase_result list"

definition phase_iteration ::
  "env \<Rightarrow> agent \<Rightarrow> phase_result list \<Rightarrow> iteration \<times> agent" where
  "phase_iteration e s phase_results =
     (case current_plan s of
        None \<Rightarrow> (LoopRaised (AttributeError ''NoneType object has no attribute get''), s)
      | Some pl \<Rightarrow>
          (case get_next_phase pl (completed_phases s) of
             None \<Rightarrow> (Finished phase_results, s)
           | Some next_phase \<Rightarrow>
               (case execute_single_phase e next_phase s of
                  (Inl err, s1) \<Rightarrow>
                    (case ph_id next_phase of
                       None \<Rightarrow> (LoopRaised (KeyError ''id''), s1)
                     | Some i \<Rightarrow> (Continue (phase_results @ [Failure i (str_error err)]), s1))
                | (Inr result, s1) \<Rightarrow>
                    (case ph_id next_phase of
                       None \<Rightarrow> (LoopRaised (KeyError ''id''), s1)
                     | Some i \<Rightarrow>
                         let s2 = s1\<lparr>completed_phases := completed_phases s1 @ [i]\<rparr>;
                             s3 = (case current_session_id s2 of
                                     None \<Rightarrow> s2
                                   | Some sid \<Rightarrow>
                                       if sid = [] then s2
                                       else (let saved = save_research_phase e (clock s2) sid result
                                             in tick s2));
                             s4 = (if new_insights_of result \<noteq> []
                                   then consider_plan_updates e (new_insights_of result) s3
                                   else s3)
                         in (Continue (phase_results @ [result]), s4)))))"

text \<open>
  \<open>_execute_phases\<close>. The loop has no bound of its own, so the model takes the number of
  passes it may make: \<open>None\<close> says that the loop is still running after that many passes.
  Otherwise the value is the list the method returns, or the exception that leaves it,
  with the agent at that point.
\<close>

fun execute_phases ::
  "nat \<Rightarrow> env \<Rightarrow> agent \<Rightarrow> phase_result list \<Rightarrow> ((error + phase_result list) \<times> agent) option" where
  "execute_phases 0 e s phase_results = None"
| "execute_phases (Suc n) e s phase_results =
     (case phase_iteration e s phase_results of
        (Finished prs, s') \<Rightarrow> Some (Inr prs, s')
      | (LoopRaised err, s') \<Rightarrow> Some (Inl err, s')
      | (Continue prs, s') \<Rightarrow> execute_phases n e s' prs)"

subsection \<open>The whole run\<close>

text \<open>
  \<open>_synthesize_findings\<close> (of its dictionary the summary and the two counts are kept) and
  \<open>_final_quality_check\<close>.
\<close>

record synthesis =
  sy_summary :: string
  sy_total_findings :: nat
  sy_unique_sources :: nat

definition synthesize_findings :: "env \<Rightarrow> agent \<Rightarrow> (error + synthesis) \<times> agent" where
  "synthesize_findings e s =
     (if all_findings s = []
      then (Inr \<lparr>sy_summary = ''No findings to synthesize'',
                sy_total_findings = 0, sy_unique_sources = 0\<rparr>, s)
      else case current_plan s of
             None \<Rightarrow> (Inl (AttributeError ''NoneType object has no attribute get''), s)
           | Some pl \<Rightarrow>
               let n_sources = card (set (map f_source_title (all_findings s)));
                   summary =
                     (case overall_synthesis_text e (clock s) (take 10 (all_findings s))
                             (research_goal pl) of
                        Inr text \<Rightarrow> text
                      | Inl err \<Rightarrow>
                          ''Research completed with '' @ str_nat (length (all_findings s))
                            @ '' findings from '' @ str_nat n_sources @ '' unique sources.'')
               in (Inr \<lparr>sy_summary = summary,
                        sy_total_findings = length (all_findings s),
                        sy_unique_sources = n_sources\<rparr>, tick s))"

definition final_quality_check :: "agent \<Rightarrow> error + quality_review" where
  "final_quality_check s =
     (case current_plan s of
        None \<Rightarrow> Inl (AttributeError ''NoneType object has no attribute get'')
      | Some pl \<Rightarrow>
          Inr (final_quality_review
                 \<lparr>rc_goal = research_goal pl,
                  rc_findings =
                    map (\<lambda>f. \<lparr>rf_source_title = f_source_title f,
                              rf_relevance_score = Num (f_relevance_score f)\<rparr>) (all_findings s),
                  rc_citations =
                    map (\<lambda>c. \<lparr>rv_title = c_title c, rv_url = c_url c\<rparr>) (all_citations s),
                  rc_phases_completed = length (completed_phases s)\<rparr>))"

text \<open>
  The two dictionaries \<open>execute_research\<close> returns: the one with \<open>'success': True\<close> and
  the one of its \<open>except\<close> clause, with \<open>'success': False\<close>.
\<close>

record completed_run =
  cr_research_goal :: string
  cr_execution_plan :: "plan option"
  cr_phase_results :: "phase_result list"
  cr_synthesis :: synthesis
  cr_quality_check :: quality_review
  cr_findings :: "finding list"
  cr_citations :: "citation list"
  cr_execution_log :: "log_entry list"
  cr_session_id :: "string option"

record failed_run =
  fr_error :: string
  fr_execution_log :: "log_entry list"
  fr_partial_findings :: "finding list"
  fr_partial_citations :: "citation list"
  fr_session_id :: "string option"

datatype research_result = RunCompleted completed_run | RunFailed failed_run

fun success :: "research_result \<Rightarrow> bool" where
  "success (RunCompleted r) = True"
| "success (RunFailed r) = False"

text \<open>
  The findings and citations a result carries: the keys \<open>findings\<close> and \<open>citations\<close>,
  or those of \<open>partial_results\<close>; and its execution log.
\<close>

fun result_findings :: "research_result \<Rightarrow> finding list" where
  "result_findings (RunCompleted r) = cr_findings r"
| "result_findings (RunFailed r) = fr_partial_findings r"

fun result_citations :: "research_result \<Rightarrow> citation list" where
  "result_citations (RunCompleted r) = cr_citations r"
| "result_citations (RunFailed r) = fr_partial_citations r"

fun result_log :: "research_result \<Rightarrow> log_entry list" where
  "result_log (RunCompleted r) = cr_execution_log r"
| "result_log (RunFailed r) = fr_execution_log r"

text \<open>The \<open>except\<close> clause of \<open>execute_research\<close>\<close>

definition research_failed :: "env \<Rightarrow> error \<Rightarrow> agent \<Rightarrow> research_result \<times> agent" where
  "research_failed e err s =
     (let s1 = (case current_session_id s of
                  None \<Rightarrow> s
                | Some sid \<Rightarrow>
                    if sid = [] then s
                    else (let updated = update_session_status e (clock s) sid ''failed''
                          in tick s))
      in (RunFailed \<lparr>fr_error = str_error err,
                     fr_execution_log = execution_log s1,
                     fr_partial_findings = all_findings s1,
                     fr_partial_citations = all_citations s1,
                     fr_session_id = current_session_id s1\<rparr>, s1))"

text \<open>The part of the \<open>try\<close> block of \<open>execute_research\<close> that follows the phase loop\<close>

definition finish_research ::
  "env \<Rightarrow> goal \<Rightarrow> phase_result list \<Rightarrow> agent \<Rightarrow> research_result \<times> agent" where
  "finish_research e parsed_goal phase_results s =
     (case synthesize_findings e (log_step ''Synthesizing research findings'' s) of
        (Inl err, s1) \<Rightarrow> research_failed e err s1
      | (Inr synthesis_results, s1) \<Rightarrow>
          let s2 = log_step ''Conducting final quality review'' s1 in
          (case final_quality_check s2 of
             Inl err \<Rightarrow> research_failed e err s2
           | Inr quality_results \<Rightarrow>
               let s3 = (case current_session_id s2 of
                           None \<Rightarrow> s2
                         | Some sid \<Rightarrow>
                             if sid = [] then s2
                             else (let n1 = save_findings e (clock s2) sid (all_findings s2);
                                       n2 = save_citations e (clock s2 + 1) sid (all_citations s2);
                                       updated = update_session_status e (clock s2 + 2) sid ''completed''
                                   in s2\<lparr>clock := clock s2 + 3\<rparr>))
               in (RunCompleted
                     \<lparr>cr_research_goal = get_or [] (main_goal parsed_goal),
                      cr_execution_plan = current_plan s3,
                      cr_phase_results = phase_results,
                      cr_synthesis = synthesis_results,
                      cr_quality_check = quality_results,
                      cr_findings = all_findings s3,
                      cr_citations = all_citations s3,
                      cr_execution_log = execution_log s3,
                      cr_session_id = current_session_id s3\<rparr>, s3)))"

text \<open>
  \<open>execute_research\<close>, given the number of passes the phase loop may make. \<open>None\<close> says
  that the phase loop is still running after that many passes, so that the method has not
  returned; otherwise the value is the dictionary it returns and the agent after it. The
  \<open>except Exception\<close> clause covers the whole body, and nothing in it raises, so there is
  no value for an exception that leaves the method.
\<close>

definition execute_research ::
  "nat \<Rightarrow> env \<Rightarrow> goal \<Rightarrow> agent \<Rightarrow> (research_result \<times> agent) option" where
  "execute_research n e parsed_goal s =
     (case create_research_session e (clock s) (get_or [] (main_goal parsed_goal)) of
        Inl err \<Rightarrow> Some (research_failed e err (tick s))
      | Inr sid \<Rightarrow>
          let s1 = log_step ''Creating execution plan''
                     ((tick s)\<lparr>current_session_id := Some sid\<rparr>)
          in (case create_execution_plan e (clock s1) parsed_goal of
                Inl err \<Rightarrow> Some (research_failed e err (tick s1))
              | Inr pl \<Rightarrow>
                  let s2 = log_step ''Beginning research phases''
                             ((tick s1)\<lparr>current_plan := Some pl\<rparr>)
                  in (case execute_phases n e s2 [] of
                        None \<Rightarrow> None
                      | Some (Inl err, s3) \<Rightarrow> Some (research_failed e err s3)
                      | Some (Inr phase_results, s3) \<Rightarrow>
                          Some (finish_research e parsed_goal phase_results s3))))"

text \<open>The agent as \<open>ExecutionAgent.__init__\<close> leaves it\<close>

definition new_agent :: agent where
  "new_agent =
     \<lparr>current_plan = None, completed_phases = [], all_findings = [], all_citations = [],
      execution_log = [], current_session_id = None, clock = 0\<rparr>"

section \<open>Rate limiter\<close>

text \<open>
  \<open>RateLimiter._extract_wait_time\<close> searches the error message for
  \<open>try again in (\d+\.?\d*)s\<close> and returns the number found plus \<open>0.5\<close>.
  \<open>match_wait\<close> matches \<open>(\d+\.?\d*)s\<close> at the start of a text and gives the digits
  before and after the point. Taking every digit is the only way to match: the character
  after a shorter run of digits is a digit, not a point or an \<open>s\<close>.
\<close>

definition match_wait :: "string \<Rightarrow> (string \<times> string) option" where
  "match_wait s =
     (let int_part = takeWhile is_digit s;
          after_int = dropWhile is_digit s
      in if int_part = [] then None
         else (case after_int of
                 [] \<Rightarrow> None
               | c # rest \<Rightarrow>
                   if c = CHR ''.''
                   then (if startswith (dropWhile is_digit rest) ''s''
                         then Some (int_part, takeWhile is_digit rest) else None)
                   else if c = CHR ''s'' then Some (int_part, []) else None))"

fun search_wait :: "string \<Rightarrow> (string \<times> string) option" where
  "search_wait [] = None"
| "search_wait (c # cs) =
     (if startswith (c # cs) ''try again in ''
      then (case match_wait (drop 13 (c # cs)) of
              Some g \<Rightarrow> Some g
            | None \<Rightarrow> search_wait cs)
      else search_wait cs)"

text \<open>\<open>float(match.group(1))\<close>, as the exact decimal value\<close>

definition digits_value :: "string \<Rightarrow> int" where
  "digits_value ds = foldl (\<lambda>a c. 10 * a + (int (code c) - 48)) 0 ds"

definition float_of :: "string \<times> string \<Rightarrow> real" where
  "float_of g =
     real_of_int (digits_value (fst g)) + real_of_int (digits_value (snd g)) / 10 ^ length (snd g)"

definition extract_wait_time :: "string \<Rightarrow> real option" where
  "extract_wait_time error_message =
     (case search_wait error_message of
        Some g \<Rightarrow> Some (float_of g + 0.5)
      | None \<Rightarrow> None)"

text \<open>The test \<open>"rate_limit_exceeded" in error_str or "429" in error_str\<close>\<close>

definition is_rate_limit :: "string \<Rightarrow> bool" where
  "is_rate_limit error_str = (contains error_str ''rate_limit_exceeded'' \<or> contains error_str ''429'')"

text \<open>
  What a call of \<open>call_with_backoff\<close> did: the value it returned (\<open>None\<close> when the loop
  ran out) or the exception it raised, how many times it called the wrapped function, and
  the delays it slept between the calls, in order.
\<close>

record 'a backoff_run =
  outcome :: "error + 'a option"
  attempts :: nat
  sleeps :: "real list"

text \<open>
  \<open>time.sleep(secs)\<close> raises \<open>ValueError\<close> on a negative delay and \<open>OverflowError\<close> on
  a delay whose count of nanoseconds does not fit a signed 64-bit integer, an infinite
  delay included.
\<close>

definition sleep_error :: "real \<Rightarrow> error option" where
  "sleep_error secs =
     (if secs < 0 then Some (ValueError ''sleep length must be non-negative'')
      else if 2 ^ 63 < secs * 10 ^ 9
      then Some (OverflowError ''timestamp too large to convert to C _PyTime_t'')
      else None)"

text \<open>
  \<open>self.base_delay * (2 ** attempt)\<close> for a float \<open>base_delay\<close>: the integer power is
  converted to a float first, which raises \<open>OverflowError\<close> from \<open>2 ** 1024\<close> on.
\<close>

definition backoff_delay :: "real \<Rightarrow> nat \<Rightarrow> error + real" where
  "backoff_delay base_delay attempt =
     (if 1024 \<le> int attempt then Inl (OverflowError ''int too large to convert to float'')
      else Inr (base_delay * 2 ^ attempt))"

text \<open>
  The retry branch of the \<open>except\<close> clause: the delay from the message or else from the
  attempt number, and the sleep. The result is the delay slept, or the exception that the
  computation of the delay or the sleep raised.
\<close>

definition wait_and_sleep :: "real \<Rightarrow> string \<Rightarrow> nat \<Rightarrow> error + real" where
  "wait_and_sleep base_delay error_str attempt =
     (case (case extract_wait_time error_str of
              Some w \<Rightarrow> Inr w
            | None \<Rightarrow> backoff_delay base_delay attempt) of
        Inl raised \<Rightarrow> Inl raised
      | Inr wait_time \<Rightarrow>
          (case sleep_error wait_time of
             Some raised \<Rightarrow> Inl raised
           | None \<Rightarrow> Inr wait_time))"

text \<open>
  The loop \<open>for attempt in range(self.max_retries + 1)\<close> of \<open>call_with_backoff\<close>, with
  the number of passes left, the value of \<open>attempt\<close> and the delays slept so far.
  \<open>func attempt\<close> is what the wrapped function does when it is called for the pass
  \<open>attempt\<close>: the value it returns or the exception it raises. An exception raised inside
  the \<open>except\<close> clause, by the computation of the delay or by the sleep, leaves the loop.
  The pacing of \<open>wait_if_needed\<close> before the loop reads the wall clock and is left out.
\<close>

fun attempt_loop ::
  "int \<Rightarrow> real \<Rightarrow> (nat \<Rightarrow> error + 'a) \<Rightarrow> nat \<Rightarrow> nat \<Rightarrow> real list \<Rightarrow> 'a backoff_run" where
  "attempt_loop max_retries base_delay func 0 attempt slept =
     \<lparr>outcome = Inr None, attempts = attempt, sleeps = slept\<rparr>"
| "attempt_loop max_retries base_delay func (Suc left) attempt slept =
     (case func attempt of
        Inr result \<Rightarrow> \<lparr>outcome = Inr (Some result), attempts = Suc attempt, sleeps = slept\<rparr>
      | Inl e \<Rightarrow>
          if is_rate_limit (str_error e) then
            (if int attempt < max_retries then
               (case wait_and_sleep base_delay (str_error e) attempt of
                  Inl raised \<Rightarrow> \<lparr>outcome = Inl raised, attempts = Suc attempt, sleeps = slept\<rparr>
                | Inr wait_time \<Rightarrow>
                    attempt_loop max_retries base_delay func left (Suc attempt)
                      (slept @ [wait_time]))
             else \<lparr>outcome = Inl e, attempts = Suc attempt, sleeps = slept\<rparr>)
          else \<lparr>outcome = Inl e, attempts = Suc attempt, sleeps = slept\<rparr>)"

definition call_with_backoff :: "int \<Rightarrow> real \<Rightarrow> (nat \<Rightarrow> error + 'a) \<Rightarrow> 'a backoff_run" where
  "call_with_backoff max_retries base_delay func =
     attempt_loop max_retries base_delay func (nat (max_retries + 1)) 0 []"

text \<open>
  The rule for the delay slept after the call \<open>k\<close>: the call raised a rate-limit error,
  and the delay is the number found in its message plus 0.5, or
  \<open>base_delay * 2 ** k\<close> when the message holds none.
\<close>

definition delay_after :: "real \<Rightarrow> (nat \<Rightarrow> error + 'a) \<Rightarrow> nat \<Rightarrow> real \<Rightarrow> bool" where
  "delay_after bd func k w \<longleftrightarrow>
     (\<exists>e. func k = Inl e \<and> is_rate_limit (str_error e)
        \<and> w = (case search_wait (str_error e) of
                 Some g \<Rightarrow> float_of g + 0.5
               | None \<Rightarrow> bd * 2 ^ k))"

section \<open>Emergency mode\<close>

text \<open>
  \<open>EmergencyMode._clean_text\<close>: \<open>re.sub(r'\s+', ' ', text)\<close> turns every run of
  white space into one space (\<open>collapse_ws\<close>, whose flag says that the previous
  character was white space), the second \<open>re.sub\<close> deletes every character that is not
  a word character, white space or one of \<open>. , ! ? ; : - ( )\<close>, and \<open>strip\<close> trims.
\<close>

fun collapse_ws :: "bool \<Rightarrow> string \<Rightarrow> string" where
  "collapse_ws in_run [] = []"
| "collapse_ws in_run (c # cs) =
     (if is_space c
      then (if in_run then collapse_ws True cs else CHR '' '' # collapse_ws True cs)
      else c # collapse_ws False cs)"

definition kept_char :: "char \<Rightarrow> bool" where
  "kept_char c = (is_word c \<or> is_space c \<or> c \<in> set ''.,!?;:-()'')"

definition clean_text :: "string \<Rightarrow> string" where
  "clean_text text = strip (filter kept_char (collapse_ws False text))"

text \<open>
  \<open>re.split(r'[.!?]+', text)\<close>: the pieces between the runs of \<open>.\<close>, \<open>!\<close> and \<open>?\<close>,
  the empty pieces at both ends included. The flag says that the previous character
  belonged to such a run.
\<close>

fun re_split :: "string \<Rightarrow> bool \<Rightarrow> string \<Rightarrow> string list" where
  "re_split cur in_run [] = [rev cur]"
| "re_split cur in_run (c # cs) =
     (if c \<in> set ''.!?''
      then (if in_run then re_split [] True cs else rev cur # re_split [] True cs)
      else re_split (c # cur) False cs)"

text \<open>\<open>EmergencyMode._split_into_sentences\<close>\<close>

definition split_into_sentences :: "string \<Rightarrow> string list" where
  "split_into_sentences text =
     map strip (filter (\<lambda>s. length (strip s) > 20) (re_split [] False text))"

text \<open>
  \<open>EmergencyMode._extract_key_findings\<close>: the loop appends the sentences that hold an
  indicator and breaks at five of them.
\<close>

definition key_indicators :: "string list" where
  "key_indicators =
     [''found that'', ''discovered'', ''revealed'', ''showed'', ''demonstrated'',
      ''indicates'', ''suggests'', ''evidence'', ''research shows'', ''study found'']"

definition extract_key_findings :: "string list \<Rightarrow> string list" where
  "extract_key_findings sentences =
     take 5 (filter (\<lambda>sentence. list_ex (\<lambda>indicator. contains (lower sentence) indicator)
                                   key_indicators) sentences)"

text \<open>
  The pattern of \<open>_extract_statistics\<close>,
  \<open>\d+\.?\d*\s*%|\d+\.?\d*\s*(percent|million|billion|thousand)\<close>, at the start of a
  text (\<open>stat_at\<close>) and anywhere in it (\<open>stat_search\<close>, which is \<open>re.search\<close>). After
  the digits, the point, the digits and the white space, each taken as far as it goes,
  comes the percent sign or one of the four words; taking less of a run leaves a
  character of the run, which starts none of them.
\<close>

definition stat_at :: "string \<Rightarrow> bool" where
  "stat_at s =
     (takeWhile is_digit s \<noteq> [] \<and>
      (let after_int = dropWhile is_digit s;
           after_num = (case after_int of
                          [] \<Rightarrow> []
                        | c # rest \<Rightarrow> if c = CHR ''.'' then dropWhile is_digit rest else c # rest);
           after_ws = dropWhile is_space after_num
       in startswith after_ws ''%'' \<or>
          list_ex (startswith after_ws) [''percent'', ''million'', ''billion'', ''thousand'']))"

fun stat_search :: "string \<Rightarrow> bool" where
  "stat_search [] = False"
| "stat_search (c # cs) = (stat_at (c # cs) \<or> stat_search cs)"

text \<open>\<open>EmergencyMode._extract_statistics\<close>\<close>

definition extract_statistics :: "string list \<Rightarrow> string list" where
  "extract_statistics sentences =
     take 3 (filter (\<lambda>sentence. stat_search (lower sentence)) sentences)"

text \<open>\<open>EmergencyMode._extract_conclusions\<close>\<close>

definition conclusion_indicators :: "string list" where
  "conclusion_indicators =
     [''conclude'', ''in conclusion'', ''therefore'', ''thus'', ''hence'',
      ''in summary'', ''overall'', ''finally'', ''results show'']"

definition extract_conclusions :: "string list \<Rightarrow> string list" where
  "extract_conclusions sentences =
     take 3 (filter (\<lambda>sentence. list_ex (\<lambda>indicator. contains (lower sentence) indicator)
                                   conclusion_indicators) sentences)"

text \<open>
  \<open>EmergencyMode.extract_key_information\<close> and the dictionary it returns. Of the source
  metadata it reads three optional keys.
\<close>

record source_metadata =
  sm_title :: "string option"
  sm_url :: "string option"
  sm_type :: "string option"

record emergency_info =
  em_source_title :: string
  em_source_url :: string
  em_source_type :: string
  em_key_findings :: "string list"
  em_relevant_facts :: "string list"
  em_statistics :: "string list"
  em_conclusions :: "string list"
  em_confidence_level :: string
  em_relevance_score :: real
  em_emergency_extraction :: bool

definition emergency_extract_key_information :: "string \<Rightarrow> source_metadata \<Rightarrow> emergency_info" where
  "emergency_extract_key_information content source_metadata =
     (let sentences = split_into_sentences (clean_text content);
          key_findings = extract_key_findings sentences;
          statistics = extract_statistics sentences;
          conclusions = extract_conclusions sentences
      in \<lparr>em_source_title = get_or ''Unknown Source'' (sm_title source_metadata),
          em_source_url = get_or [] (sm_url source_metadata),
          em_source_type = get_or ''web'' (sm_type source_metadata),
          em_key_findings = take 3 key_findings,
          em_relevant_facts = take 5 sentences,
          em_statistics = take 2 statistics,
          em_conclusions = take 2 conclusions,
          em_confidence_level = ''basic'',
          em_relevance_score = 0.6,
          em_emergency_extraction = True\<rparr>)"

section \<open>Citation engine: the bibliography\<close>

text \<open>
  \<open>CitationEngine._deduplicate_citations\<close>, with the two sets \<open>seen_urls\<close> and
  \<open>seen_titles\<close> as lists. A citation is dropped when its url is not empty and was seen,
  or when its lowercased title is not empty and was seen; the url and title of a citation
  that is kept are recorded when they are not empty.
\<close>

fun dedup_citations :: "string list \<Rightarrow> string list \<Rightarrow> citation list \<Rightarrow> citation list" where
  "dedup_citations seen_urls seen_titles [] = []"
| "dedup_citations seen_urls seen_titles (c # cs) =
     (let url = c_url c; title = lower (c_title c) in
      if url \<noteq> [] \<and> url \<in> set seen_urls then dedup_citations seen_urls seen_titles cs
      else if title \<noteq> [] \<and> title \<in> set seen_titles then dedup_citations seen_urls seen_titles cs
      else c # dedup_citations (if url \<noteq> [] then url # seen_urls else seen_urls)
                 (if title \<noteq> [] then title # seen_titles else seen_titles) cs)"

definition deduplicate_citations :: "citation list \<Rightarrow> citation list" where
  "deduplicate_citations citations = dedup_citations [] [] citations"

text \<open>\<open>sep.join(parts)\<close>\<close>

fun join :: "string \<Rightarrow> string list \<Rightarrow> string" where
  "join sep [] = []"
| "join sep [p] = p"
| "join sep (p # q # ps) = p @ sep @ join sep (q # ps)"

text \<open>
  The three styles. \<open>netloc\<close> stands for \<open>urlparse(url).netloc\<close>, which raises
  \<open>ValueError\<close> on some urls, and \<open>today\<close> for the formatted \<open>datetime.now()\<close>.
\<close>

definition format_apa_citation :: "citation \<Rightarrow> string" where
  "format_apa_citation c =
     join '' ''
       ((case c_authors c of
           [] \<Rightarrow> []
         | [a] \<Rightarrow> [a]
         | a # others \<Rightarrow>
             if length (c_authors c) \<le> 3
             then [join '', '' (butlast (c_authors c)) @ '', & '' @ last (c_authors c)]
             else [a @ '', et al.''])
        @ (if c_date c \<noteq> [] then [''('' @ c_date c @ '')''] else [])
        @ (if c_title c \<noteq> [] then [c_title c @ ''.''] else [])
        @ (if c_url c \<noteq> [] then [''Retrieved from '' @ c_url c] else []))"

definition format_mla_citation ::
  "(string \<Rightarrow> error + string) \<Rightarrow> string \<Rightarrow> citation \<Rightarrow> error + string" where
  "format_mla_citation netloc today c =
     (let head = (case c_authors c of [] \<Rightarrow> [] | a # others \<Rightarrow> [a @ ''.''])
                 @ (if c_title c \<noteq> [] then [[CHR 0x22] @ c_title c @ ''.'' @ [CHR 0x22]] else []);
          tail = (if c_date c \<noteq> [] then [c_date c @ ''.''] else [])
                 @ (if c_url c \<noteq> [] then [''Web. '' @ today @ ''.''] else [])
      in if c_url c \<noteq> []
         then (case netloc (c_url c) of
                 Inl e \<Rightarrow> Inl e
               | Inr domain \<Rightarrow> Inr (join '' '' (head @ [domain @ '',''] @ tail)))
         else Inr (join '' '' (head @ tail)))"

definition format_chicago_citation :: "string \<Rightarrow> citation \<Rightarrow> string" where
  "format_chicago_citation today c =
     join '' ''
       ((case c_authors c of [] \<Rightarrow> [] | a # others \<Rightarrow> [a @ ''.''])
        @ (if c_title c \<noteq> [] then [[CHR 0x22] @ c_title c @ ''.'' @ [CHR 0x22]] else [])
        @ (if c_url c \<noteq> [] then [''Accessed '' @ today @ ''. '' @ c_url c @ ''.''] else []))"

text \<open>
  \<open>CitationEngine.format_citation\<close>; \<open>style\<close> is \<open>self.citation_style\<close>, the lowercased
  style of the configuration. An exception of a style gives the line \<open>Source: ...\<close>
  with the title (\<open>Unknown source\<close> for a dictionary without the key, which the record
  does not tell from an empty title).
\<close>

definition format_citation ::
  "string \<Rightarrow> (string \<Rightarrow> error + string) \<Rightarrow> string \<Rightarrow> string \<Rightarrow> citation \<Rightarrow> string" where
  "format_citation style netloc today_mla today_chicago c =
     (if style = ''apa'' then format_apa_citation c
      else if style = ''mla''
      then (case format_mla_citation netloc today_mla c of
              Inr formatted \<Rightarrow> formatted
            | Inl e \<Rightarrow> ''Source: '' @ c_title c)
      else if style = ''chicago'' then format_chicago_citation today_chicago c
      else format_apa_citation c)"

text \<open>
  \<open>str.upper\<close> on the letters whose capital is one code point below 256, which covers the
  ASCII names of the styles.
\<close>

definition upper_char :: "char \<Rightarrow> char" where
  "upper_char c =
     (if (97 \<le> code c \<and> code c \<le> 122) \<or> (224 \<le> code c \<and> code c \<le> 254 \<and> code c \<noteq> 247)
      then char_of (code c - 32) else c)"

definition upper :: "string \<Rightarrow> string" where
  "upper s = map upper_char s"

text \<open>
  \<open>CitationEngine.create_bibliography\<close>. \<open>bibliography_entries\<close> is the list
  \<open>formatted_citations\<close>: the citations without duplicates, sorted by lowercased title
  (\<open>sorted\<close> is stable, as \<open>sort_key\<close> is), formatted, the empty strings left out. The
  bibliography is the heading followed by the numbered entries.
\<close>

definition bibliography_entries ::
  "string \<Rightarrow> (string \<Rightarrow> error + string) \<Rightarrow> string \<Rightarrow> string \<Rightarrow> citation list \<Rightarrow> string list" where
  "bibliography_entries style netloc today_mla today_chicago citations =
     (let unique_citations = deduplicate_citations citations;
          sorted_citations = sort_key (\<lambda>x. lower (c_title x)) unique_citations
      in filter (\<lambda>formatted. formatted \<noteq> [])
           (map (format_citation style netloc today_mla today_chicago) sorted_citations))"

definition create_bibliography ::
  "string \<Rightarrow> (string \<Rightarrow> error + string) \<Rightarrow> string \<Rightarrow> string \<Rightarrow> citation list \<Rightarrow> string" where
  "create_bibliography style netloc today_mla today_chicago citations =
     ''## References ('' @ upper style @ '' Style)'' @ [CHR 0x0A, CHR 0x0A]
     @ concat (map (\<lambda>(i, entry). str_nat i @ ''. '' @ entry @ [CHR 0x0A, CHR 0x0A])
                 (enumerate 1 (bibliography_entries style netloc today_mla today_chicago citations)))"

section \<open>Example inputs\<close>

text \<open>A plan of three phases in a chain, as the fallback plan of the planner builds it.\<close>

definition phase_1 :: phase where
  "phase_1 = \<lparr>ph_id = Some ''phase_1'', ph_title = Some ''Background'',
               ph_description = ''Survey the field'', ph_search_terms = Val [''diagnostics''],
               ph_expected_sources = Some [''web''], ph_dependencies = []\<rparr>"

definition phase_2 :: phase where
  "phase_2 = \<lparr>ph_id = Some ''phase_2'', ph_title = Some ''Evidence'',
               ph_description = ''Collect studies'', ph_search_terms = Val [''healthcare''],
               ph_expected_sources = Some [''web'', ''academic''],
               ph_dependencies = [''phase_1'']\<rparr>"

definition phase_3 :: phase where
  "phase_3 = \<lparr>ph_id = Some ''phase_3'', ph_title = Some ''Synthesis'',
               ph_description = ''Bring the results together'', ph_search_terms = Val [''impact''],
               ph_expected_sources = None, ph_dependencies = [''phase_2'']\<rparr>"

definition chain_plan :: plan where
  "chain_plan = \<lparr>phases = [phase_1, phase_2, phase_3],
                  research_goal = ''Impact of AI on healthcare diagnostics''\<rparr>"

text \<open>Two research contents for the final review; the second holds a relevance score that is not a number.\<close>

definition sample_content :: research_content where
  "sample_content =
     \<lparr>rc_goal = ''Impact of AI on healthcare diagnostics'',
      rc_findings = [\<lparr>rf_source_title = ''Survey'', rf_relevance_score = Num 0.9\<rparr>,
                     \<lparr>rf_source_title = ''Trial'', rf_relevance_score = Num 0.5\<rparr>],
      rc_citations = [\<lparr>rv_title = ''Survey'', rv_url = ''http://a''\<rparr>],
      rc_phases_completed = 3\<rparr>"

definition broken_content :: research_content where
  "broken_content =
     \<lparr>rc_goal = ''Impact of AI on healthcare diagnostics'',
      rc_findings = [\<lparr>rf_source_title = ''Survey'', rf_relevance_score = NotNum\<rparr>],
      rc_citations = [],
      rc_phases_completed = 1\<rparr>"


text \<open>
  An environment for the chain plan. The web search finds two documents for the term
  \<open>healthcare\<close> and nothing else, extraction rates the first document 0.9 and any other
  0.2, citation extraction gives the basic citation of the document, the language model
  behind synthesis is over its quota, and re-planning leaves the plan as it is.
\<close>

definition doc_a :: doc where
  "doc_a = \<lparr>d_title = ''Deep learning in radiology'', d_url = ''http://a.example/radiology'',
             d_content = ''The study found that accuracy increased by 20%.'',
             d_source_type = ''web''\<rparr>"

definition doc_b :: doc where
  "doc_b = \<lparr>d_title = ''Hospital cafeteria menus'', d_url = ''http://b.example/menus'',
             d_content = ''Soup is served on Mondays.'', d_source_type = ''web''\<rparr>"

definition basic_citation :: "doc \<Rightarrow> citation" where
  "basic_citation d =
     \<lparr>c_type = ''source'', c_title = d_title d, c_url = d_url d, c_authors = [],
      c_date = ''2024-01-01'', c_source_type = d_source_type d, c_content = d_title d,
      c_context = [], c_quote = [], c_page_section = []\<rparr>"

definition sample_env :: env where
  "sample_env =
     \<lparr>max_sources = 10,
      create_research_session = (\<lambda>t g. Inr ''session-1''),
      create_execution_plan = (\<lambda>t g. Inr chain_plan),
      search_web = (\<lambda>t term n. if term = ''healthcare'' then [doc_a, doc_b] else []),
      search_arxiv = (\<lambda>t term n. []),
      store_documents = (\<lambda>t docs. map d_url docs),
      extract_key_information =
        (\<lambda>t content g.
           \<lparr>ki_key_findings = [content], ki_relevant_facts = [], ki_statistics = [],
            ki_conclusions = [],
            ki_relevance_score = (if content = d_content doc_a then Num 0.9 else Num 0.2)\<rparr>),
      extract_citations_from_content = (\<lambda>t content d. [basic_citation d]),
      synthesis_text = (\<lambda>t fs ph. Inl (Exception ''API request failed: 429'')),
      critique_phase_results =
        (\<lambda>t ph fs summary.
           \<lparr>cq_overall_score = 0.5, cq_quality_grade = ''C'',
            cq_approval_status = ''needs_review''\<rparr>),
      plan_after_update = (\<lambda>t pl insights completed. (pl, False)),
      save_research_phase = (\<lambda>t sid r. True),
      overall_synthesis_text = (\<lambda>t fs g. Inl (Exception ''API request failed: 429'')),
      save_findings = (\<lambda>t sid fs. length fs),
      save_citations = (\<lambda>t sid cs. length cs),
      update_session_status = (\<lambda>t sid status. True)\<rparr>"

definition sample_goal :: goal where
  "sample_goal =
     create_fallback_structure ''2024-01-01T00:00:00'' ''Impact of AI on healthcare diagnostics''"

text \<open>
  A plan as the planner accepts it from the model's JSON: the first phase has
  \<open>"search_terms": null\<close>. The environment differs from the one above in the plan that
  plan creation returns.
\<close>

definition null_terms_phase :: phase where
  "null_terms_phase = phase_1\<lparr>ph_search_terms := Null\<rparr>"

definition stuck_plan :: plan where
  "stuck_plan = \<lparr>phases = [null_terms_phase, phase_2, phase_3],
                  research_goal = ''Impact of AI on healthcare diagnostics''\<rparr>"

definition stuck_env :: env where
  "stuck_env = sample_env\<lparr>create_execution_plan := (\<lambda>t g. Inr stuck_plan)\<rparr>"

text \<open>
  A plan of the same kind in which the phase with \<open>"search_terms": null\<close> comes second
  and depends on no phase, and the third phase depends on the first.
\<close>

definition unsearchable_phase :: phase where
  "unsearchable_phase = phase_2\<lparr>ph_search_terms := Null, ph_dependencies := []\<rparr>"

definition dependant_phase :: phase where
  "dependant_phase = phase_3\<lparr>ph_dependencies := [''phase_1'']\<rparr>"

definition blocked_plan :: plan where
  "blocked_plan = \<lparr>phases = [phase_1, unsearchable_phase, dependant_phase],
                    research_goal = ''Impact of AI on healthcare diagnostics''\<rparr>"

text \<open>The agent once plan creation has stored the plan, for each of the plans\<close>

definition ready_agent :: agent where
  "ready_agent = new_agent\<lparr>current_plan := Some chain_plan\<rparr>"

definition stuck_agent :: agent where
  "stuck_agent = new_agent\<lparr>current_plan := Some stuck_plan\<rparr>"

definition blocked_agent :: agent where
  "blocked_agent = new_agent\<lparr>current_plan := Some blocked_plan\<rparr>"

text \<open>
  The agent with the blocked plan after the first pass of the phase loop, in which the
  one web search for the first phase found no document.
\<close>

definition after_first_pass :: agent where
  "after_first_pass =
     (log_step ''Executing phase: Background'' blocked_agent)
       \<lparr>clock := 1, completed_phases := [''phase_1'']\<rparr>"

text \<open>
  Wrapped functions for the rate limiter: one that is always rate limited and told to try
  again in 2 seconds, one that is rate limited three times (the second time with a delay
  from the provider) and then answers, and one that fails with another error.
\<close>

definition always_limited :: "nat \<Rightarrow> error + string" where
  "always_limited attempt = Inl (Exception ''rate_limit_exceeded: Please try again in 2s'')"

definition flaky_call :: "nat \<Rightarrow> error + string" where
  "flaky_call attempt =
     (if attempt = 1 then Inl (Exception ''rate_limit_exceeded: Please try again in 1.5s'')
      else if attempt < 3 then Inl (Exception ''API request failed: 429'')
      else Inr ''answer'')"

definition bad_request :: "nat \<Rightarrow> error + string" where
  "bad_request attempt = Inl (Exception ''API request failed: 400'')"

text \<open>A wrapped function that is rate limited and told to try again after some 3000 years\<close>

definition long_wait :: "nat \<Rightarrow> error + string" where
  "long_wait attempt = Inl (Exception ''rate_limit_exceeded: Please try again in 99999999999s'')"

text \<open>
  The goal text of the fallback scenario, a timestamp, an answer of the model whose JSON
  object holds \<open>"subgoals": null\<close>, an answer whose one subgoal holds a text under
  \<open>search_terms\<close>, and a stand-in for the JSON parser that reads these two answers and
  the empty object and rejects every other text.
\<close>

definition goal_text :: string where
  "goal_text = ''Impact of AI on healthcare diagnostics in 2023-2024''"

definition timestamp :: string where
  "timestamp = ''2024-01-01T00:00:00''"

definition quoted :: "string \<Rightarrow> string" where
  "quoted s = CHR 0x22 # s @ [CHR 0x22]"

definition null_subgoals_answer :: string where
  "null_subgoals_answer =
     ''{'' @ quoted ''main_goal'' @ '': '' @ quoted ''Study AI'' @ '', ''
       @ quoted ''subgoals'' @ '': null}''"

definition text_terms_answer :: string where
  "text_terms_answer =
     ''{'' @ quoted ''subgoals'' @ '': [{'' @ quoted ''title'' @ '': '' @ quoted ''Imaging''
       @ '', '' @ quoted ''search_terms'' @ '': '' @ quoted ''radiology ai'' @ ''}]}''"

definition sample_loads :: "string \<Rightarrow> error + dict" where
  "sample_loads s =
     (if s = ''{}'' then Inr []
      else if s = null_subgoals_answer
      then Inr [(''main_goal'', JStr ''Study AI''), (''subgoals'', JNull)]
      else if s = text_terms_answer
      then Inr [(''subgoals'',
                 JArr [JObj [(''title'', JStr ''Imaging''),
                             (''search_terms'', JStr ''radiology ai'')]])]
      else Inl (ValueError ''Expecting value''))"

text \<open>The document content of the emergency-mode scenario, and source metadata for it\<close>

definition study_phrase :: string where
  "study_phrase = ''the study found that X increased by 20%''"

definition study_source :: source_metadata where
  "study_source = \<lparr>sm_title = Some ''A study'', sm_url = Some ''http://a.example/study'',
                    sm_type = None\<rparr>"

text \<open>
  Citations for the bibliography: two without a url and with different titles and
  contents, and two with different urls whose titles differ in case only; and two that
  share a url.
\<close>

definition citation_of :: "string \<Rightarrow> string \<Rightarrow> string \<Rightarrow> citation" where
  "citation_of url title content =
     \<lparr>c_type = ''claim'', c_title = title, c_url = url, c_authors = [],
      c_date = ''2024-01-01'', c_source_type = ''web'', c_content = content,
      c_context = [], c_quote = [], c_page_section = []\<rparr>"

definition no_url_citations :: "citation list" where
  "no_url_citations =
     [citation_of [] ''Alpha report'' ''first claim'',
      citation_of [] ''Beta report'' ''second claim'',
      citation_of ''http://c.example/gamma'' ''Gamma survey'' ''third claim'',
      citation_of ''http://d.example/gamma'' ''GAMMA SURVEY'' ''fourth claim'']"

definition shared_url_citations :: "citation list" where
  "shared_url_citations =
     [citation_of ''http://c.example/gamma'' ''Gamma survey'' ''third claim'',
      citation_of ''http://a.example/alpha'' ''Alpha report'' ''first claim'',
      citation_of ''http://d.example/gamma'' ''GAMMA SURVEY'' ''fourth claim'',
      citation_of ''http://a.example/alpha'' ''Beta report'' ''second claim'']"

text \<open>A stand-in for \<open>urlparse(url).netloc\<close> that gives the url back\<close>

definition whole_url :: "string \<Rightarrow> error + string" where
  "whole_url url = Inr url"

section \<open>Properties of the selection step\<close>

lemma next_in_None:
  "next_in ps c = None \<longleftrightarrow>
     (\<forall>p \<in> set ps. get_id p \<in> set c \<or> \<not> set (ph_dependencies p) \<subseteq> set c)"
  by (induction ps) (auto simp: list_all_iff)

lemma next_in_Some:
  "next_in ps c = Some p \<Longrightarrow>
     \<exists>i < length ps. ps ! i = p \<and> get_id p \<notin> set c \<and> set (ph_dependencies p) \<subseteq> set c
       \<and> (\<forall>j < i. get_id (ps ! j) \<in> set c \<or> \<not> set (ph_dependencies (ps ! j)) \<subseteq> set c)"
proof (induction ps)
  case Nil
  then show ?case by simp
next
  case (Cons q qs)
  show ?case
  proof (cases "get_id q \<notin> set c \<and> set (ph_dependencies q) \<subseteq> set c")
    case True
    with Cons.prems have "p = q" by (auto simp: list_all_iff subset_iff)
    with True show ?thesis by (intro exI[of _ 0]) simp
  next
    case False
    with Cons.prems have "next_in qs c = Some p"
      by (auto simp: list_all_iff subset_iff split: if_splits)
    from Cons.IH[OF this] obtain i where i: "i < length qs" "qs ! i = p"
      "get_id p \<notin> set c" "set (ph_dependencies p) \<subseteq> set c"
      "\<forall>j < i. get_id (qs ! j) \<in> set c \<or> \<not> set (ph_dependencies (qs ! j)) \<subseteq> set c"
      by blast
    have "\<forall>j < Suc i. get_id ((q # qs) ! j) \<in> set c
            \<or> \<not> set (ph_dependencies ((q # qs) ! j)) \<subseteq> set c"
    proof (intro allI impI)
      fix j assume "j < Suc i"
      then show "get_id ((q # qs) ! j) \<in> set c
            \<or> \<not> set (ph_dependencies ((q # qs) ! j)) \<subseteq> set c"
        using False i(5) by (cases j) auto
    qed
    with i show ?thesis by (intro exI[of _ "Suc i"]) simp
  qed
qed

text \<open>
  C1. The selection step returns the first phase, in the order of the plan's phase list,
  whose id is not in the completed set and whose dependency ids are all in the completed
  set, and returns nothing exactly when no phase of the plan is such a phase. Being a
  function of the plan and the completed set, it gives the same phase for the same inputs;
  a phase it returns never has a dependency id outside the completed set.
\<close>

theorem get_next_phase_first_eligible:
  "(get_next_phase pl completed = None \<longleftrightarrow>
      (\<forall>p \<in> set (phases pl).
          get_id p \<in> set completed \<or> \<not> set (ph_dependencies p) \<subseteq> set completed))
   \<and> (\<forall>p. get_next_phase pl completed = Some p \<longrightarrow>
        (\<exists>i < length (phases pl). phases pl ! i = p
           \<and> get_id p \<notin> set completed
           \<and> (\<forall>dep \<in> set (ph_dependencies p). dep \<in> set completed)
           \<and> (\<forall>j < i. get_id (phases pl ! j) \<in> set completed
                 \<or> \<not> set (ph_dependencies (phases pl ! j)) \<subseteq> set completed)))"
proof (intro conjI allI impI)
  show "get_next_phase pl completed = None \<longleftrightarrow>
      (\<forall>p \<in> set (phases pl).
          get_id p \<in> set completed \<or> \<not> set (ph_dependencies p) \<subseteq> set completed)"
    unfolding get_next_phase_def by (rule next_in_None)
next
  fix p assume "get_next_phase pl completed = Some p"
  then have "next_in (phases pl) completed = Some p" by (simp add: get_next_phase_def)
  from next_in_Some[OF this]
  show "\<exists>i < length (phases pl). phases pl ! i = p
           \<and> get_id p \<notin> set completed
           \<and> (\<forall>dep \<in> set (ph_dependencies p). dep \<in> set completed)
           \<and> (\<forall>j < i. get_id (phases pl ! j) \<in> set completed
                 \<or> \<not> set (ph_dependencies (phases pl ! j)) \<subseteq> set completed)"
    by (auto simp: subset_iff)
qed

theorem get_next_phase_first_eligible_witness:
  "get_next_phase chain_plan [''phase_1''] = Some phase_2
   \<and> (\<exists>i < length (phases chain_plan). phases chain_plan ! i = phase_2
         \<and> get_id phase_2 \<notin> set [''phase_1'']
         \<and> (\<forall>dep \<in> set (ph_dependencies phase_2). dep \<in> set [''phase_1''])
         \<and> (\<forall>j < i. get_id (phases chain_plan ! j) \<in> set [''phase_1'']
               \<or> \<not> set (ph_dependencies (phases chain_plan ! j)) \<subseteq> set [''phase_1'']))
   \<and> get_next_phase chain_plan [''phase_2''] = Some phase_1
   \<and> get_next_phase chain_plan [''phase_1'', ''phase_2'', ''phase_3''] = None"
proof -
  have sel: "get_next_phase chain_plan [''phase_1''] = Some phase_2"
    by (simp add: get_next_phase_def chain_plan_def phase_1_def phase_2_def get_id_def get_or_def)
  have sel2: "get_next_phase chain_plan [''phase_2''] = Some phase_1"
    by (simp add: get_next_phase_def chain_plan_def phase_1_def phase_2_def get_id_def get_or_def)
  have all_done: "\<forall>p \<in> set (phases chain_plan).
      get_id p \<in> set [''phase_1'', ''phase_2'', ''phase_3'']
      \<or> \<not> set (ph_dependencies p) \<subseteq> set [''phase_1'', ''phase_2'', ''phase_3'']"
    by (simp add: chain_plan_def phase_1_def phase_2_def phase_3_def get_id_def get_or_def)
  from get_next_phase_first_eligible[of chain_plan "[''phase_1'']"] sel
  have "\<exists>i < length (phases chain_plan). phases chain_plan ! i = phase_2
         \<and> get_id phase_2 \<notin> set [''phase_1'']
         \<and> (\<forall>dep \<in> set (ph_dependencies phase_2). dep \<in> set [''phase_1''])
         \<and> (\<forall>j < i. get_id (phases chain_plan ! j) \<in> set [''phase_1'']
               \<or> \<not> set (ph_dependencies (phases chain_plan ! j)) \<subseteq> set [''phase_1''])"
    by blast
  moreover from get_next_phase_first_eligible[of chain_plan "[''phase_1'', ''phase_2'', ''phase_3'']"] all_done
  have "get_next_phase chain_plan [''phase_1'', ''phase_2'', ''phase_3''] = None"
    by blast
  ultimately show ?thesis using sel sel2 by blast
qed

section \<open>Grades and approval\<close>

lemma grade_cases:
  "(assign_quality_grade score = ''A'' \<longleftrightarrow> 0.9 \<le> score)
   \<and> (assign_quality_grade score = ''B'' \<longleftrightarrow> 0.8 \<le> score \<and> score < 0.9)
   \<and> (assign_quality_grade score = ''C'' \<longleftrightarrow> 0.7 \<le> score \<and> score < 0.8)
   \<and> (assign_quality_grade score = ''D'' \<longleftrightarrow> 0.6 \<le> score \<and> score < 0.7)
   \<and> (assign_quality_grade score = ''F'' \<longleftrightarrow> score < 0.6)"
  by (simp add: assign_quality_grade_def)

lemma review_body_status:
  "quality_review_body rc = Inr r \<Longrightarrow>
     approval_status r = (if overall_score r \<ge> 0.7 then ''approved'' else ''needs_revision'')
     \<and> quality_grade r = assign_quality_grade (overall_score r)"
  by (auto simp: quality_review_body_def Let_def split: sum.splits)

lemma approval_iff:
  "approval_status (final_quality_review rc) =
     (if overall_score (final_quality_review rc) \<ge> 0.7 then ''approved'' else ''needs_revision'')"
proof (cases "quality_review_body rc")
  case (Inl e)
  then show ?thesis by (simp add: final_quality_review_def)
next
  case (Inr r)
  with review_body_status[OF Inr] show ?thesis by (simp add: final_quality_review_def)
qed

text \<open>
  C4. The grade is a function of the overall score alone, defined for every score: A from
  0.9, B from 0.8, C from 0.7, D from 0.6 and F below 0.6, a boundary value taking the
  higher grade (0.7 gives C, not D). The final review is approved exactly when its
  overall score is at least 0.7 and needs revision otherwise; this holds for the
  dictionary of the \<open>except\<close> clause as well, whose score is 0.5.
\<close>

theorem grade_mapping_and_approval:
  "(assign_quality_grade score = ''A'' \<longleftrightarrow> 0.9 \<le> score)
   \<and> (assign_quality_grade score = ''B'' \<longleftrightarrow> 0.8 \<le> score \<and> score < 0.9)
   \<and> (assign_quality_grade score = ''C'' \<longleftrightarrow> 0.7 \<le> score \<and> score < 0.8)
   \<and> (assign_quality_grade score = ''D'' \<longleftrightarrow> 0.6 \<le> score \<and> score < 0.7)
   \<and> (assign_quality_grade score = ''F'' \<longleftrightarrow> score < 0.6)
   \<and> assign_quality_grade 0.9 = ''A'' \<and> assign_quality_grade 0.8 = ''B''
   \<and> assign_quality_grade 0.7 = ''C'' \<and> assign_quality_grade 0.6 = ''D''
   \<and> (approval_status (final_quality_review rc) = ''approved''
        \<longleftrightarrow> overall_score (final_quality_review rc) \<ge> 0.7)
   \<and> (approval_status (final_quality_review rc) = ''needs_revision''
        \<longleftrightarrow> overall_score (final_quality_review rc) < 0.7)"
proof -
  have "approval_status (final_quality_review rc) = ''approved''
        \<longleftrightarrow> overall_score (final_quality_review rc) \<ge> 0.7"
    by (simp add: approval_iff)
  moreover have "approval_status (final_quality_review rc) = ''needs_revision''
        \<longleftrightarrow> overall_score (final_quality_review rc) < 0.7"
    by (simp add: approval_iff)
  moreover have "assign_quality_grade 0.9 = ''A'' \<and> assign_quality_grade 0.8 = ''B''
   \<and> assign_quality_grade 0.7 = ''C'' \<and> assign_quality_grade 0.6 = ''D''"
    by (simp add: assign_quality_grade_def)
  ultimately show ?thesis using grade_cases[of score] by blast
qed

lemma sample_review:
  "overall_score (final_quality_review sample_content) = 0.558
   \<and> approval_status (final_quality_review sample_content) = ''needs_revision''
   \<and> quality_grade (final_quality_review sample_content) = ''F''"
  by code_simp

theorem grade_mapping_and_approval_witness:
  "assign_quality_grade 0.7 = ''C'' \<and> assign_quality_grade 0.69 = ''D''
   \<and> assign_quality_grade 0.95 = ''A'' \<and> assign_quality_grade 0.2 = ''F''
   \<and> overall_score (final_quality_review sample_content) < 0.7
   \<and> approval_status (final_quality_review sample_content) = ''needs_revision''
   \<and> overall_score (final_quality_review broken_content) = 0.5
   \<and> approval_status (final_quality_review broken_content) = ''needs_revision''"
proof -
  have s: "overall_score (final_quality_review sample_content) < 0.7" by code_simp
  have b: "overall_score (final_quality_review broken_content) = 0.5" by code_simp
  from grade_mapping_and_approval[of "0.7" sample_content] s
  have 1: "assign_quality_grade 0.7 = ''C''
     \<and> approval_status (final_quality_review sample_content) = ''needs_revision''" by simp
  from grade_mapping_and_approval[of "0.69" broken_content] b
  have 2: "assign_quality_grade 0.69 = ''D''
     \<and> approval_status (final_quality_review broken_content) = ''needs_revision''" by simp
  from grade_mapping_and_approval[of "0.95" rc] have 3: "assign_quality_grade 0.95 = ''A''" by simp
  from grade_mapping_and_approval[of "0.2" rc] have 4: "assign_quality_grade 0.2 = ''F''" by simp
  from 1 2 3 4 s b show ?thesis by blast
qed

section \<open>What each step of the agent leaves unchanged\<close>

lemma tick_simps [simp]:
  "current_plan (tick s) = current_plan s"
  "completed_phases (tick s) = completed_phases s"
  "all_findings (tick s) = all_findings s"
  "all_citations (tick s) = all_citations s"
  "execution_log (tick s) = execution_log s"
  "current_session_id (tick s) = current_session_id s"
  "clock (tick s) = Suc (clock s)"
  by (simp_all add: tick_def)

lemma log_step_simps [simp]:
  "current_plan (log_step d s) = current_plan s"
  "completed_phases (log_step d s) = completed_phases s"
  "all_findings (log_step d s) = all_findings s"
  "all_citations (log_step d s) = all_citations s"
  "current_session_id (log_step d s) = current_session_id s"
  "clock (log_step d s) = clock s"
  by (simp_all add: log_step_def)

lemma retrieve_frame:
  assumes "retrieve_from_sources e ts st s = (r, s')"
  shows "current_plan s' = current_plan s" "completed_phases s' = completed_phases s"
    "all_findings s' = all_findings s" "all_citations s' = all_citations s"
    "execution_log s' = execution_log s" "current_session_id s' = current_session_id s"
  using assms
  by (auto simp: retrieve_from_sources_def split: nullable.splits prod.splits)

lemma process_doc_frame:
  assumes "process_doc e pid (s, pf, pc) d = (s', pf', pc')"
  shows "current_plan s' = current_plan s" "completed_phases s' = completed_phases s"
    "execution_log s' = execution_log s" "current_session_id s' = current_session_id s"
  using assms
  by (auto simp: process_doc_def Let_def split: option.splits pyval.splits if_splits)

lemma process_doc_gate:
  assumes "process_doc e pid (s, pf, pc) d = (s', pf', pc')"
    and "\<forall>f \<in> set (all_findings s). 0.3 < f_relevance_score f"
  shows "\<forall>f \<in> set (all_findings s'). 0.3 < f_relevance_score f"
  using assms
  by (auto simp: process_doc_def Let_def split: option.splits pyval.splits if_splits)

lemma foldl_process_doc:
  assumes "foldl (process_doc e pid) (s, pf, pc) docs = (s', pf', pc')"
  shows "current_plan s' = current_plan s \<and> completed_phases s' = completed_phases s
    \<and> execution_log s' = execution_log s \<and> current_session_id s' = current_session_id s
    \<and> ((\<forall>f \<in> set (all_findings s). 0.3 < f_relevance_score f)
         \<longrightarrow> (\<forall>f \<in> set (all_findings s'). 0.3 < f_relevance_score f))"
  using assms
proof (induction docs arbitrary: s pf pc)
  case Nil
  then show ?case by simp
next
  case (Cons d ds)
  obtain s1 pf1 pc1 where step: "process_doc e pid (s, pf, pc) d = (s1, pf1, pc1)"
    by (cases "process_doc e pid (s, pf, pc) d") auto
  with Cons.prems have rest: "foldl (process_doc e pid) (s1, pf1, pc1) ds = (s', pf', pc')"
    by simp
  from Cons.IH[OF rest] process_doc_frame[OF step] process_doc_gate[OF step]
  show ?case by metis
qed

lemma synthesize_frame:
  assumes "synthesize_phase_findings e fs ph s = (summary, s')"
  shows "current_plan s' = current_plan s" "completed_phases s' = completed_phases s"
    "all_findings s' = all_findings s" "all_citations s' = all_citations s"
    "execution_log s' = execution_log s" "current_session_id s' = current_session_id s"
  using assms
  by (auto simp: synthesize_phase_findings_def split: if_splits sum.splits)

lemma execute_single_phase_frame:
  assumes "execute_single_phase e ph s = (r, s')"
  shows "current_plan s' = current_plan s \<and> completed_phases s' = completed_phases s
    \<and> current_session_id s' = current_session_id s
    \<and> ((\<forall>f \<in> set (all_findings s). 0.3 < f_relevance_score f)
         \<longrightarrow> (\<forall>f \<in> set (all_findings s'). 0.3 < f_relevance_score f))"
proof -
  let ?s1 = "log_step (''Executing phase: '' @ get_or ''Unknown Phase'' (ph_title ph)) s"
  obtain rr s2 where ret: "retrieve_from_sources e (ph_search_terms ph)
      (get_or [''web''] (ph_expected_sources ph)) ?s1 = (rr, s2)"
    by (cases "retrieve_from_sources e (ph_search_terms ph)
      (get_or [''web''] (ph_expected_sources ph)) ?s1") auto
  note f2 = retrieve_frame[OF ret]
  show ?thesis
  proof (cases rr)
    case (Inl err)
    with assms ret have "s' = s2" by (simp add: execute_single_phase_def Let_def)
    with f2 show ?thesis by simp
  next
    case (Inr docs)
    show ?thesis
    proof (cases "docs = []")
      case True
      with assms ret Inr have "s' = s2" by (simp add: execute_single_phase_def Let_def)
      with f2 show ?thesis by simp
    next
      case False
      obtain s4 pf pc where fold:
        "foldl (process_doc e (get_or ''unknown'' (ph_id ph))) (tick s2, [], []) docs = (s4, pf, pc)"
        by (cases "foldl (process_doc e (get_or ''unknown'' (ph_id ph))) (tick s2, [], []) docs") auto
      obtain summary s5 where syn: "synthesize_phase_findings e pf ph s4 = (summary, s5)"
        by (cases "synthesize_phase_findings e pf ph s4") auto
      from assms ret Inr False fold syn have "s' = tick s5"
        by (simp add: execute_single_phase_def Let_def)
      with foldl_process_doc[OF fold] synthesize_frame[OF syn] f2 show ?thesis by simp
    qed
  qed
qed


lemma consider_plan_updates_frame:
  "completed_phases (consider_plan_updates e ins s) = completed_phases s"
  "all_findings (consider_plan_updates e ins s) = all_findings s"
  "all_citations (consider_plan_updates e ins s) = all_citations s"
  "current_session_id (consider_plan_updates e ins s) = current_session_id s"
  by (auto simp: consider_plan_updates_def Let_def split: option.splits prod.splits)

lemma save_phase_frame:
  "completed_phases (case sid_opt of None \<Rightarrow> s
      | Some sid \<Rightarrow> if sid = [] then s
                    else (let saved = save_research_phase e (clock s) sid result in tick s))
     = completed_phases s"
  "all_findings (case sid_opt of None \<Rightarrow> s
      | Some sid \<Rightarrow> if sid = [] then s
                    else (let saved = save_research_phase e (clock s) sid result in tick s))
     = all_findings s"
  "current_plan (case sid_opt of None \<Rightarrow> s
      | Some sid \<Rightarrow> if sid = [] then s
                    else (let saved = save_research_phase e (clock s) sid result in tick s))
     = current_plan s"
  by (auto split: option.splits)

lemma phase_iteration_returned:
  assumes "current_plan s = Some pl" and "get_next_phase pl (completed_phases s) = Some ph"
    and "ph_id ph = Some i" and "execute_single_phase e ph s = (Inr result, s1)"
  shows "\<exists>s'. phase_iteration e s prs = (Continue (prs @ [result]), s')
     \<and> completed_phases s' = completed_phases s @ [i]
     \<and> (new_insights_of result = [] \<longrightarrow> current_plan s' = Some pl)"
proof -
  from execute_single_phase_frame[OF assms(4)]
  have f: "completed_phases s1 = completed_phases s" "current_plan s1 = current_plan s" by auto
  let ?s2 = "s1\<lparr>completed_phases := completed_phases s1 @ [i]\<rparr>"
  let ?s3 = "case current_session_id ?s2 of None \<Rightarrow> ?s2
      | Some sid \<Rightarrow> if sid = [] then ?s2
                    else (let saved = save_research_phase e (clock ?s2) sid result in tick ?s2)"
  let ?s4 = "if new_insights_of result \<noteq> []
             then consider_plan_updates e (new_insights_of result) ?s3 else ?s3"
  have it: "phase_iteration e s prs = (Continue (prs @ [result]), ?s4)"
    using assms by (simp add: phase_iteration_def Let_def)
  have c3: "completed_phases ?s3 = completed_phases s @ [i]"
    using f(1) by (simp add: save_phase_frame)
  have p3: "current_plan ?s3 = Some pl"
    using f(2) assms(1) by (simp add: save_phase_frame)
  have "completed_phases ?s4 = completed_phases s @ [i]"
    using c3 by (simp add: consider_plan_updates_frame)
  moreover have "new_insights_of result = [] \<longrightarrow> current_plan ?s4 = Some pl"
    using p3 by simp
  ultimately show ?thesis using it by blast
qed

lemma no_documents_result:
  assumes "retrieve_from_sources e (ph_search_terms ph) (get_or [''web''] (ph_expected_sources ph))
             (log_step (''Executing phase: '' @ get_or ''Unknown Phase'' (ph_title ph)) s)
           = (Inr [], s2)"
  shows "execute_single_phase e ph s
           = (Inr (Failure (get_or ''unknown'' (ph_id ph)) ''No documents retrieved''), s2)"
  using assms by (simp add: execute_single_phase_def Let_def)

lemma phase_iteration_gate:
  assumes "phase_iteration e s prs = (it, s')"
    and "\<forall>f \<in> set (all_findings s). 0.3 < f_relevance_score f"
  shows "\<forall>f \<in> set (all_findings s'). 0.3 < f_relevance_score f"
proof (cases "current_plan s")
  case None
  with assms show ?thesis by (simp add: phase_iteration_def)
next
  case (Some pl)
  show ?thesis
  proof (cases "get_next_phase pl (completed_phases s)")
    case None
    with Some assms show ?thesis by (simp add: phase_iteration_def)
  next
    case (Some ph)
    obtain r s1 where ex: "execute_single_phase e ph s = (r, s1)"
      by (cases "execute_single_phase e ph s") auto
    from execute_single_phase_frame[OF ex] assms(2)
    have g1: "\<forall>f \<in> set (all_findings s1). 0.3 < f_relevance_score f" by blast
    have "all_findings s' = all_findings s1"
      using assms(1) \<open>current_plan s = Some pl\<close> Some ex
      by (auto simp: phase_iteration_def Let_def consider_plan_updates_frame
               split: sum.splits option.splits if_splits)
    with g1 show ?thesis by simp
  qed
qed

lemma execute_phases_gate:
  assumes "execute_phases n e s prs = Some (r, s')"
    and "\<forall>f \<in> set (all_findings s). 0.3 < f_relevance_score f"
  shows "\<forall>f \<in> set (all_findings s'). 0.3 < f_relevance_score f"
  using assms
proof (induction n arbitrary: s prs)
  case 0
  then show ?case by simp
next
  case (Suc n)
  obtain it s1 where it: "phase_iteration e s prs = (it, s1)"
    by (cases "phase_iteration e s prs") auto
  note g1 = phase_iteration_gate[OF it Suc.prems(2)]
  show ?case
  proof (cases it)
    case (Finished x)
    with Suc.prems(1) it have "s' = s1" by simp
    with g1 show ?thesis by simp
  next
    case (LoopRaised x)
    with Suc.prems(1) it have "s' = s1" by simp
    with g1 show ?thesis by simp
  next
    case (Continue prs')
    with Suc.prems(1) it have "execute_phases n e s1 prs' = Some (r, s')" by simp
    from Suc.IH[OF this g1] show ?thesis .
  qed
qed

lemma research_failed_result:
  "research_failed e err s = (r, s') \<Longrightarrow>
     \<not> success r \<and> result_findings r = all_findings s' \<and> result_citations r = all_citations s'
     \<and> result_log r = execution_log s' \<and> all_findings s' = all_findings s
     \<and> all_citations s' = all_citations s \<and> execution_log s' = execution_log s
     \<and> (\<exists>fr. r = RunFailed fr \<and> fr_error fr = str_error err)"
  by (auto simp: research_failed_def Let_def split: option.splits if_splits)

lemma synthesize_findings_frame:
  "synthesize_findings e s = (r, s') \<Longrightarrow>
     all_findings s' = all_findings s \<and> all_citations s' = all_citations s
     \<and> execution_log s' = execution_log s"
  by (auto simp: synthesize_findings_def Let_def split: if_splits option.splits)

lemma finish_research_result:
  assumes "finish_research e g prs s = (r, s')"
  shows "result_findings r = all_findings s' \<and> result_citations r = all_citations s'
     \<and> result_log r = execution_log s' \<and> all_findings s' = all_findings s
     \<and> all_citations s' = all_citations s"
proof -
  let ?s0 = "log_step ''Synthesizing research findings'' s"
  obtain sr s1 where syn: "synthesize_findings e ?s0 = (sr, s1)"
    by (cases "synthesize_findings e ?s0") auto
  from synthesize_findings_frame[OF syn]
  have f1: "all_findings s1 = all_findings s" "all_citations s1 = all_citations s" by simp_all
  show ?thesis
  proof (cases sr)
    case (Inl err)
    with assms syn have "research_failed e err s1 = (r, s')" by (simp add: finish_research_def)
    from research_failed_result[OF this] f1 show ?thesis by simp
  next
    case (Inr synth)
    let ?s2 = "log_step ''Conducting final quality review'' s1"
    show ?thesis
    proof (cases "final_quality_check ?s2")
      case (Inl err)
      with assms syn Inr have "research_failed e err ?s2 = (r, s')"
        by (simp add: finish_research_def Let_def)
      from research_failed_result[OF this] f1 show ?thesis by simp
    next
      case (Inr q)
      with assms syn \<open>sr = Inr synth\<close> f1 show ?thesis
        by (auto simp: finish_research_def Let_def split: option.splits if_splits)
    qed
  qed
qed

lemma execute_research_gate:
  assumes "execute_research n e g new_agent = Some (r, s')"
  shows "\<forall>f \<in> set (result_findings r). 0.3 < f_relevance_score f"
proof (cases "create_research_session e (clock new_agent) (get_or [] (main_goal g))")
  case (Inl err)
  with assms have "research_failed e err (tick new_agent) = (r, s')"
    by (simp add: execute_research_def)
  from research_failed_result[OF this] show ?thesis by (simp add: new_agent_def)
next
  case (Inr sid)
  let ?s1 = "log_step ''Creating execution plan'' ((tick new_agent)\<lparr>current_session_id := Some sid\<rparr>)"
  show ?thesis
  proof (cases "create_execution_plan e (clock ?s1) g")
    case (Inl err)
    with assms Inr have "research_failed e err (tick ?s1) = (r, s')"
      by (simp add: execute_research_def Let_def)
    from research_failed_result[OF this] show ?thesis by (simp add: new_agent_def)
  next
    case (Inr pl)
    let ?s2 = "log_step ''Beginning research phases'' ((tick ?s1)\<lparr>current_plan := Some pl\<rparr>)"
    have g2: "\<forall>f \<in> set (all_findings ?s2). 0.3 < f_relevance_score f"
      by (simp add: new_agent_def)
    show ?thesis
    proof (cases "execute_phases n e ?s2 []")
      case None
      with assms Inr \<open>create_research_session e (clock new_agent) (get_or [] (main_goal g)) = Inr sid\<close>
      show ?thesis by (simp add: execute_research_def Let_def)
    next
      case (Some out)
      obtain pr s3 where out: "out = (pr, s3)" by (cases out) auto
      note g3 = execute_phases_gate[OF Some[unfolded out] g2]
      show ?thesis
      proof (cases pr)
        case (Inl err)
        with assms Some out Inr \<open>create_research_session e (clock new_agent) (get_or [] (main_goal g)) = Inr sid\<close>
        have "research_failed e err s3 = (r, s')"
          by (simp add: execute_research_def Let_def)
        from research_failed_result[OF this] g3 show ?thesis by simp
      next
        case (Inr prs)
        with assms Some out \<open>create_execution_plan e (clock ?s1) g = Inr pl\<close>
          \<open>create_research_session e (clock new_agent) (get_or [] (main_goal g)) = Inr sid\<close>
        have "finish_research e g prs s3 = (r, s')"
          by (simp add: execute_research_def Let_def)
        from finish_research_result[OF this] g3 show ?thesis by simp
      qed
    qed
  qed
qed

section \<open>The relevance gate and the completion of phases\<close>

text \<open>
  C6. Every finding on the global list has a relevance score above 0.3: a phase keeps
  this true of the list, and so does a whole run that starts from the new agent, whether
  it ends with the findings of a completed run or with the partial findings of a failed
  one. A document whose extraction gives a score of at most 0.3 adds no finding, to the
  global list or to the phase, while the citations extracted from it are appended to the
  global citation list and to the citations of the phase.
\<close>

theorem relevance_gate:
  "((\<forall>f \<in> set (all_findings s). 0.3 < f_relevance_score f) \<longrightarrow>
      (\<forall>f \<in> set (all_findings (snd (execute_single_phase e ph s))). 0.3 < f_relevance_score f))
   \<and> (execute_research n e g new_agent = Some (r, s') \<longrightarrow>
        (\<forall>f \<in> set (result_findings r). 0.3 < f_relevance_score f))
   \<and> (current_plan s = Some pl
        \<and> ki_relevance_score (extract_key_information e (clock s) (d_content d) (research_goal pl))
            = Num x
        \<and> x \<le> 0.3 \<longrightarrow>
        process_doc e pid (s, pf, pc) d =
          (s\<lparr>clock := clock s + 2,
             all_citations := all_citations s
                @ extract_citations_from_content e (Suc (clock s)) (d_content d) d\<rparr>,
           pf,
           pc @ extract_citations_from_content e (Suc (clock s)) (d_content d) d))"
proof (intro conjI impI)
  assume g: "\<forall>f \<in> set (all_findings s). 0.3 < f_relevance_score f"
  obtain rr s1 where ex: "execute_single_phase e ph s = (rr, s1)"
    by (cases "execute_single_phase e ph s") auto
  from execute_single_phase_frame[OF ex] g
  show "\<forall>f \<in> set (all_findings (snd (execute_single_phase e ph s))). 0.3 < f_relevance_score f"
    by (simp add: ex)
next
  assume "execute_research n e g new_agent = Some (r, s')"
  then show "\<forall>f \<in> set (result_findings r). 0.3 < f_relevance_score f"
    by (rule execute_research_gate)
next
  assume a: "current_plan s = Some pl
        \<and> ki_relevance_score (extract_key_information e (clock s) (d_content d) (research_goal pl))
            = Num x
        \<and> x \<le> 0.3"
  then show "process_doc e pid (s, pf, pc) d =
          (s\<lparr>clock := clock s + 2,
             all_citations := all_citations s
                @ extract_citations_from_content e (Suc (clock s)) (d_content d) d\<rparr>,
           pf,
           pc @ extract_citations_from_content e (Suc (clock s)) (d_content d) d)"
    by (simp add: process_doc_def Let_def tick_def)
qed

lemma sample_run_findings:
  "map_option (\<lambda>(r, s). (success r, map f_relevance_score (result_findings r),
                          map c_url (result_citations r)))
     (execute_research 4 sample_env sample_goal new_agent)
   = Some (True, [0.9], [''http://a.example/radiology'', ''http://b.example/menus''])"
  by code_simp


theorem relevance_gate_witness:
  "(\<exists>r s'. execute_research 4 sample_env sample_goal new_agent = Some (r, s')
      \<and> success r
      \<and> map f_relevance_score (result_findings r) = [0.9]
      \<and> map c_url (result_citations r) = [''http://a.example/radiology'', ''http://b.example/menus'']
      \<and> (\<forall>f \<in> set (result_findings r). 0.3 < f_relevance_score f))
   \<and> ki_relevance_score (extract_key_information sample_env (clock ready_agent)
         (d_content doc_b) (research_goal chain_plan)) = Num 0.2
   \<and> process_doc sample_env ''phase_2'' (ready_agent, [], []) doc_b =
        (ready_agent\<lparr>clock := clock ready_agent + 2,
           all_citations := all_citations ready_agent
              @ extract_citations_from_content sample_env (Suc (clock ready_agent))
                  (d_content doc_b) doc_b\<rparr>,
         [],
         [] @ extract_citations_from_content sample_env (Suc (clock ready_agent))
                (d_content doc_b) doc_b)"
proof -
  from sample_run_findings obtain r s' where
    run: "execute_research 4 sample_env sample_goal new_agent = Some (r, s')"
    and ok: "success r" "map f_relevance_score (result_findings r) = [0.9]"
      "map c_url (result_citations r) = [''http://a.example/radiology'', ''http://b.example/menus'']"
    by (auto simp: map_option_case split: option.splits)
  from relevance_gate[of ready_agent sample_env phase_1 4 sample_goal r s' chain_plan doc_b "0.2"] run
  have gate: "\<forall>f \<in> set (result_findings r). 0.3 < f_relevance_score f" by blast
  have plan: "current_plan ready_agent = Some chain_plan" by (simp add: ready_agent_def new_agent_def)
  have score: "ki_relevance_score (extract_key_information sample_env (clock ready_agent)
         (d_content doc_b) (research_goal chain_plan)) = Num 0.2"
    by (simp add: sample_env_def doc_a_def doc_b_def)
  have low: "(0.2::real) \<le> 0.3" by simp
  from relevance_gate[of ready_agent sample_env phase_1 4 sample_goal r s' chain_plan doc_b "0.2"
      "''phase_2''" "[]" "[]"] plan score low
  have doc: "process_doc sample_env ''phase_2'' (ready_agent, [], []) doc_b =
        (ready_agent\<lparr>clock := clock ready_agent + 2,
           all_citations := all_citations ready_agent
              @ extract_citations_from_content sample_env (Suc (clock ready_agent))
                  (d_content doc_b) doc_b\<rparr>,
         [],
         [] @ extract_citations_from_content sample_env (Suc (clock ready_agent))
                (d_content doc_b) doc_b)"
    by blast
  have "\<exists>r s'. execute_research 4 sample_env sample_goal new_agent = Some (r, s')
      \<and> success r
      \<and> map f_relevance_score (result_findings r) = [0.9]
      \<and> map c_url (result_citations r) = [''http://a.example/radiology'', ''http://b.example/menus'']
      \<and> (\<forall>f \<in> set (result_findings r). 0.3 < f_relevance_score f)"
    by (intro exI[of _ r] exI[of _ s'] conjI run ok gate)
  then show ?thesis by (intro conjI score doc)
qed

text \<open>
  The pass of the loop on a result. Whenever \<open>_execute_single_phase\<close> returns a result
  for the selected phase, the pass appends the result to the phase results and the id of
  the phase to the completed phases. When no document is retrieved the result is the
  failure dictionary with the error "No documents retrieved", the plan stays as it is, and
  for every phase of the plan that depends on the failed phase and has all its
  dependencies completed by then, the next selection step returns a phase to execute.
\<close>

lemma returned_result_completes_phase:
  assumes "current_plan s = Some pl" and "get_next_phase pl (completed_phases s) = Some ph"
    and "ph_id ph = Some i"
  shows "(\<forall>result s1. execute_single_phase e ph s = (Inr result, s1) \<longrightarrow>
           (\<exists>s'. phase_iteration e s prs = (Continue (prs @ [result]), s')
                 \<and> completed_phases s' = completed_phases s @ [i]))
     \<and> (\<forall>s2. retrieve_from_sources e (ph_search_terms ph) (get_or [''web''] (ph_expected_sources ph))
                 (log_step (''Executing phase: '' @ get_or ''Unknown Phase'' (ph_title ph)) s)
               = (Inr [], s2) \<longrightarrow>
           (\<exists>s'. phase_iteration e s prs
                   = (Continue (prs @ [Failure i ''No documents retrieved'']), s')
                 \<and> completed_phases s' = completed_phases s @ [i]
                 \<and> current_plan s' = Some pl
                 \<and> (\<forall>q \<in> set (phases pl).
                       i \<in> set (ph_dependencies q)
                       \<and> set (ph_dependencies q) \<subseteq> set (completed_phases s')
                       \<and> get_id q \<notin> set (completed_phases s')
                       \<longrightarrow> (\<exists>q'. get_next_phase pl (completed_phases s') = Some q'))))"
proof (intro conjI allI impI)
  fix result s1 assume "execute_single_phase e ph s = (Inr result, s1)"
  from phase_iteration_returned[OF assms this, of prs]
  show "\<exists>s'. phase_iteration e s prs = (Continue (prs @ [result]), s')
                 \<and> completed_phases s' = completed_phases s @ [i]"
    by blast
next
  fix s2
  assume "retrieve_from_sources e (ph_search_terms ph) (get_or [''web''] (ph_expected_sources ph))
                 (log_step (''Executing phase: '' @ get_or ''Unknown Phase'' (ph_title ph)) s)
               = (Inr [], s2)"
  from no_documents_result[OF this] assms(3)
  have ex: "execute_single_phase e ph s = (Inr (Failure i ''No documents retrieved''), s2)"
    by (simp add: get_or_def)
  from phase_iteration_returned[OF assms ex, of prs] obtain s' where
    it: "phase_iteration e s prs = (Continue (prs @ [Failure i ''No documents retrieved'']), s')"
    and c: "completed_phases s' = completed_phases s @ [i]"
    and p: "current_plan s' = Some pl"
    by auto
  have "\<forall>q \<in> set (phases pl).
          i \<in> set (ph_dependencies q)
          \<and> set (ph_dependencies q) \<subseteq> set (completed_phases s')
          \<and> get_id q \<notin> set (completed_phases s')
          \<longrightarrow> (\<exists>q'. get_next_phase pl (completed_phases s') = Some q')"
  proof (intro ballI impI)
    fix q assume q: "q \<in> set (phases pl)"
      and e: "i \<in> set (ph_dependencies q)
          \<and> set (ph_dependencies q) \<subseteq> set (completed_phases s')
          \<and> get_id q \<notin> set (completed_phases s')"
    have "get_next_phase pl (completed_phases s') \<noteq> None"
    proof
      assume "get_next_phase pl (completed_phases s') = None"
      then have "\<forall>p \<in> set (phases pl). get_id p \<in> set (completed_phases s')
          \<or> \<not> set (ph_dependencies p) \<subseteq> set (completed_phases s')"
        by (simp add: get_next_phase_def next_in_None)
      with q e show False by blast
    qed
    then show "\<exists>q'. get_next_phase pl (completed_phases s') = Some q'" by auto
  qed
  with it c p
  show "\<exists>s'. phase_iteration e s prs
                   = (Continue (prs @ [Failure i ''No documents retrieved'']), s')
                 \<and> completed_phases s' = completed_phases s @ [i]
                 \<and> current_plan s' = Some pl
                 \<and> (\<forall>q \<in> set (phases pl).
                       i \<in> set (ph_dependencies q)
                       \<and> set (ph_dependencies q) \<subseteq> set (completed_phases s')
                       \<and> get_id q \<notin> set (completed_phases s')
                       \<longrightarrow> (\<exists>q'. get_next_phase pl (completed_phases s') = Some q'))"
    by blast
qed

lemma sample_loop:
  "map_option (\<lambda>(r, s). completed_phases s) (execute_phases 4 sample_env ready_agent [])
   = Some [''phase_1'', ''phase_2'', ''phase_3'']"
  by code_simp

lemma sample_first_pass:
  "get_next_phase chain_plan (completed_phases ready_agent) = Some phase_1
   \<and> retrieve_from_sources sample_env (ph_search_terms phase_1)
        (get_or [''web''] (ph_expected_sources phase_1))
        (log_step (''Executing phase: '' @ get_or ''Unknown Phase'' (ph_title phase_1)) ready_agent)
      = (Inr [], (log_step ''Executing phase: Background'' ready_agent)\<lparr>clock := 1\<rparr>)"
  by code_simp

lemma chain_plan_first_pass:
  "(\<exists>s'. phase_iteration sample_env ready_agent []
            = (Continue [Failure ''phase_1'' ''No documents retrieved''], s')
         \<and> completed_phases s' = [''phase_1'']
         \<and> current_plan s' = Some chain_plan
         \<and> get_next_phase chain_plan (completed_phases s') = Some phase_2)
   \<and> map_option (\<lambda>(r, s). completed_phases s) (execute_phases 4 sample_env ready_agent [])
       = Some [''phase_1'', ''phase_2'', ''phase_3'']"
proof -
  have plan: "current_plan ready_agent = Some chain_plan"
    by (simp add: ready_agent_def new_agent_def)
  have done0: "completed_phases ready_agent = []" by (simp add: ready_agent_def new_agent_def)
  have idp: "ph_id phase_1 = Some ''phase_1''" by (simp add: phase_1_def)
  from sample_first_pass have sel: "get_next_phase chain_plan (completed_phases ready_agent) = Some phase_1"
    and ret: "retrieve_from_sources sample_env (ph_search_terms phase_1)
        (get_or [''web''] (ph_expected_sources phase_1))
        (log_step (''Executing phase: '' @ get_or ''Unknown Phase'' (ph_title phase_1)) ready_agent)
      = (Inr [], (log_step ''Executing phase: Background'' ready_agent)\<lparr>clock := 1\<rparr>)"
    by simp_all
  from returned_result_completes_phase[OF plan sel idp, of sample_env "[]"] ret
  obtain s' where it: "phase_iteration sample_env ready_agent []
            = (Continue ([] @ [Failure ''phase_1'' ''No documents retrieved'']), s')"
    and c: "completed_phases s' = completed_phases ready_agent @ [''phase_1'']"
    and p: "current_plan s' = Some chain_plan"
    by blast
  from c done0 have c': "completed_phases s' = [''phase_1'']" by simp
  have "get_next_phase chain_plan [''phase_1''] = Some phase_2"
    by (simp add: get_next_phase_def chain_plan_def phase_1_def phase_2_def get_id_def get_or_def)
  with it c' p have first: "\<exists>s'. phase_iteration sample_env ready_agent []
            = (Continue [Failure ''phase_1'' ''No documents retrieved''], s')
         \<and> completed_phases s' = [''phase_1'']
         \<and> current_plan s' = Some chain_plan
         \<and> get_next_phase chain_plan (completed_phases s') = Some phase_2"
    by auto
  from first sample_loop show ?thesis by (intro conjI)
qed

section \<open>A phase whose execution raises\<close>

lemma stuck_selection:
  "completed_phases s = [] \<Longrightarrow> get_next_phase stuck_plan (completed_phases s) = Some null_terms_phase"
  by (simp add: get_next_phase_def stuck_plan_def null_terms_phase_def phase_1_def get_id_def get_or_def)

lemma stuck_single_phase:
  "execute_single_phase e null_terms_phase s
     = (Inl (TypeError ''NoneType object is not iterable''),
        log_step ''Executing phase: Background'' s)"
  by (simp add: execute_single_phase_def retrieve_from_sources_def null_terms_phase_def
        phase_1_def get_or_def Let_def)

lemma stuck_iteration:
  assumes "current_plan s = Some stuck_plan" and "completed_phases s = []"
  shows "phase_iteration e s prs
     = (Continue (prs @ [Failure ''phase_1'' ''NoneType object is not iterable'']),
        log_step ''Executing phase: Background'' s)"
proof -
  have i: "ph_id null_terms_phase = Some ''phase_1''"
    by (simp add: null_terms_phase_def phase_1_def)
  from stuck_selection[OF assms(2)] assms(1) show ?thesis
    by (simp add: phase_iteration_def stuck_single_phase i)
qed

lemma stuck_loop:
  "current_plan s = Some stuck_plan \<Longrightarrow> completed_phases s = [] \<Longrightarrow>
     execute_phases n e s prs = None"
proof (induction n arbitrary: s prs)
  case 0
  then show ?case by simp
next
  case (Suc n)
  let ?s1 = "log_step ''Executing phase: Background'' s"
  have "current_plan ?s1 = Some stuck_plan" "completed_phases ?s1 = []"
    using Suc.prems by simp_all
  from Suc.IH[OF this] stuck_iteration[OF Suc.prems] show ?case by simp
qed

text \<open>
  C2. The claim is that a phase whose execution fails is recorded as failed, is not
  selected again, and that the loop goes on to the next phase and ends. On the plan whose
  first phase has no search terms (\<open>null\<close>), retrieval raises at every execution of the
  phase, whatever the collaborators answer: a pass of the loop appends the failure
  dictionary and leaves the completed phases as they were, the selection step returns
  the same phase again, and the loop is still running after any number of passes.
\<close>

theorem raised_phase_is_selected_again:
  "phase_iteration e stuck_agent []
     = (Continue [Failure ''phase_1'' ''NoneType object is not iterable''],
        log_step ''Executing phase: Background'' stuck_agent)
   \<and> completed_phases (log_step ''Executing phase: Background'' stuck_agent) = []
   \<and> get_next_phase stuck_plan
        (completed_phases (log_step ''Executing phase: Background'' stuck_agent))
      = Some null_terms_phase
   \<and> get_next_phase stuck_plan (completed_phases stuck_agent) = Some null_terms_phase
   \<and> (\<forall>n. execute_phases n e stuck_agent [] = None)"
proof -
  have p: "current_plan stuck_agent = Some stuck_plan" and c: "completed_phases stuck_agent = []"
    by (simp_all add: stuck_agent_def new_agent_def)
  have c1: "completed_phases (log_step ''Executing phase: Background'' stuck_agent) = []"
    using c by simp
  from stuck_iteration[OF p c, of e "[]"] c1 stuck_selection[OF c1] stuck_selection[OF c]
    stuck_loop[OF p c, of _ e "[]"]
  show ?thesis by simp
qed

text \<open>
  C8. The claim is that \<open>execute_research\<close> returns a structured result for every input.
  Where plan creation returns the plan whose first phase has no search terms, the phase
  loop never ends, so for any goal \<open>execute_research\<close> has not returned after any number
  of passes of the loop: it returns neither the result of a completed run nor that of a
  failed one.
\<close>

theorem execute_research_does_not_return:
  "\<forall>n. execute_research n stuck_env g new_agent = None"
proof
  fix n
  let ?s1 = "log_step ''Creating execution plan''
               ((tick new_agent)\<lparr>current_session_id := Some ''session-1''\<rparr>)"
  let ?s2 = "log_step ''Beginning research phases'' ((tick ?s1)\<lparr>current_plan := Some stuck_plan\<rparr>)"
  have "current_plan ?s2 = Some stuck_plan" by simp
  moreover have "completed_phases ?s2 = []" by (simp add: new_agent_def)
  ultimately have "execute_phases n stuck_env ?s2 [] = None" by (rule stuck_loop)
  then show "execute_research n stuck_env g new_agent = None"
    by (simp add: execute_research_def stuck_env_def sample_env_def Let_def)
qed

text \<open>
  What does hold of \<open>execute_research\<close>: whenever the phase loop ends, by returning or by
  raising, the method returns a result, and a failed result carries the error string, the
  execution log and all findings and citations gathered by then.
\<close>

lemma execute_research_returns_when_loop_ends:
  assumes "\<And>s. execute_phases n e s [] \<noteq> None"
  shows "\<exists>r s'. execute_research n e g s0 = Some (r, s')"
proof (cases "create_research_session e (clock s0) (get_or [] (main_goal g))")
  case (Inl err)
  then show ?thesis by (simp add: execute_research_def prod_eq_iff)
next
  case (Inr sid)
  let ?s1 = "log_step ''Creating execution plan'' ((tick s0)\<lparr>current_session_id := Some sid\<rparr>)"
  show ?thesis
  proof (cases "create_execution_plan e (clock ?s1) g")
    case (Inl err)
    with Inr show ?thesis by (simp add: execute_research_def Let_def prod_eq_iff)
  next
    case pl: (Inr pl)
    let ?s2 = "log_step ''Beginning research phases'' ((tick ?s1)\<lparr>current_plan := Some pl\<rparr>)"
    from assms[of ?s2] obtain out s3 where "execute_phases n e ?s2 [] = Some (out, s3)"
      by (cases "execute_phases n e ?s2 []") auto
    with Inr pl show ?thesis
      by (cases out) (simp_all add: execute_research_def Let_def prod_eq_iff)
  qed
qed

lemma execute_research_result:
  assumes "execute_research n e g s0 = Some (r, s')"
  shows "result_findings r = all_findings s' \<and> result_citations r = all_citations s'
     \<and> result_log r = execution_log s'
     \<and> (\<not> success r \<longrightarrow> (\<exists>fr. r = RunFailed fr))"
proof -
  have shape: "\<not> success r \<longrightarrow> (\<exists>fr. r = RunFailed fr)" by (cases r) simp_all
  have fail: "?thesis" if "research_failed e err s = (r, s')" for err s
    using research_failed_result[OF that] shape by simp
  have fin: "?thesis" if "finish_research e g prs s = (r, s')" for prs s
    using finish_research_result[OF that] shape by simp
  show ?thesis
  proof (cases "create_research_session e (clock s0) (get_or [] (main_goal g))")
    case (Inl err)
    with assms have "research_failed e err (tick s0) = (r, s')"
      by (simp add: execute_research_def)
    then show ?thesis by (rule fail)
  next
    case (Inr sid)
    let ?s1 = "log_step ''Creating execution plan'' ((tick s0)\<lparr>current_session_id := Some sid\<rparr>)"
    show ?thesis
    proof (cases "create_execution_plan e (clock ?s1) g")
      case (Inl err)
      with assms Inr have "research_failed e err (tick ?s1) = (r, s')"
        by (simp add: execute_research_def Let_def)
      then show ?thesis by (rule fail)
    next
      case pl: (Inr pl)
      let ?s2 = "log_step ''Beginning research phases'' ((tick ?s1)\<lparr>current_plan := Some pl\<rparr>)"
      show ?thesis
      proof (cases "execute_phases n e ?s2 []")
        case None
        with assms Inr pl show ?thesis by (simp add: execute_research_def Let_def)
      next
        case (Some out)
        obtain pr s3 where out: "out = (pr, s3)" by (cases out) auto
        show ?thesis
        proof (cases pr)
          case (Inl err)
          with assms Some out Inr pl have "research_failed e err s3 = (r, s')"
            by (simp add: execute_research_def Let_def)
          then show ?thesis by (rule fail)
        next
          case prs: (Inr prs)
          with assms Some out Inr pl have "finish_research e g prs s3 = (r, s')"
            by (simp add: execute_research_def Let_def)
          then show ?thesis by (rule fin)
        qed
      qed
    qed
  qed
qed

section \<open>An eligible phase behind a phase whose execution raises\<close>

lemma blocked_selection:
  "completed_phases s = [''phase_1'']
     \<Longrightarrow> get_next_phase blocked_plan (completed_phases s) = Some unsearchable_phase"
  by (simp add: get_next_phase_def blocked_plan_def unsearchable_phase_def phase_1_def
        phase_2_def get_id_def get_or_def)

lemma blocked_single_phase:
  "execute_single_phase e unsearchable_phase s
     = (Inl (TypeError ''NoneType object is not iterable''),
        log_step ''Executing phase: Evidence'' s)"
  by (simp add: execute_single_phase_def retrieve_from_sources_def unsearchable_phase_def
        phase_2_def get_or_def Let_def)

lemma blocked_iteration:
  assumes "current_plan s = Some blocked_plan" and "completed_phases s = [''phase_1'']"
  shows "phase_iteration e s prs
     = (Continue (prs @ [Failure ''phase_2'' ''NoneType object is not iterable'']),
        log_step ''Executing phase: Evidence'' s)"
proof -
  have i: "ph_id unsearchable_phase = Some ''phase_2''"
    by (simp add: unsearchable_phase_def phase_2_def)
  from blocked_selection[OF assms(2)] assms(1) show ?thesis
    by (simp add: phase_iteration_def blocked_single_phase i)
qed

lemma blocked_loop:
  "current_plan s = Some blocked_plan \<Longrightarrow> completed_phases s = [''phase_1''] \<Longrightarrow>
     execute_phases n e s prs = None"
proof (induction n arbitrary: s prs)
  case 0
  then show ?case by simp
next
  case (Suc n)
  let ?s1 = "log_step ''Executing phase: Evidence'' s"
  have "current_plan ?s1 = Some blocked_plan" "completed_phases ?s1 = [''phase_1'']"
    using Suc.prems by simp_all
  from Suc.IH[OF this] blocked_iteration[OF Suc.prems] show ?case by simp
qed

lemma blocked_first_pass:
  "phase_iteration sample_env blocked_agent []
     = (Continue [Failure ''phase_1'' ''No documents retrieved''], after_first_pass)"
  by code_simp

text \<open>
  C3. The claim is that a phase that returned a result, the failure result of an empty
  retrieval included, is completed, so that every phase that depends on it becomes
  eligible and is executed. The first half holds. The second fails on the plan whose
  second phase has no search terms (\<open>null\<close>) and no dependency and whose third phase
  depends on the first: the first pass finds no document, returns the failure result and
  completes the first phase, which makes the third phase eligible; but the selection step
  returns the second phase, whose execution raises and leaves the completed phases as
  they were, in this pass and in every later one, whatever the log holds by then. The
  third phase is never selected, and the loop is still running after any number of
  passes.
\<close>

theorem eligible_dependant_is_never_executed:
  "phase_iteration sample_env blocked_agent []
     = (Continue [Failure ''phase_1'' ''No documents retrieved''], after_first_pass)
   \<and> current_plan after_first_pass = Some blocked_plan
   \<and> completed_phases after_first_pass = [''phase_1'']
   \<and> dependant_phase \<in> set (phases blocked_plan)
   \<and> ph_dependencies dependant_phase = [''phase_1'']
   \<and> set (ph_dependencies dependant_phase) \<subseteq> set (completed_phases after_first_pass)
   \<and> get_id dependant_phase \<notin> set (completed_phases after_first_pass)
   \<and> get_next_phase blocked_plan (completed_phases after_first_pass) = Some unsearchable_phase
   \<and> unsearchable_phase \<noteq> dependant_phase
   \<and> (\<forall>lg prs. phase_iteration sample_env (after_first_pass\<lparr>execution_log := lg\<rparr>) prs
          = (Continue (prs @ [Failure ''phase_2'' ''NoneType object is not iterable'']),
             after_first_pass\<lparr>execution_log := lg @
                [\<lparr>le_description = ''Executing phase: Evidence'', le_completed_phases = 1\<rparr>]\<rparr>))
   \<and> (\<forall>n. execute_phases n sample_env blocked_agent [] = None)"
proof -
  have p: "current_plan after_first_pass = Some blocked_plan"
    and c: "completed_phases after_first_pass = [''phase_1'']"
    by (simp_all add: after_first_pass_def blocked_agent_def new_agent_def)
  have m: "dependant_phase \<in> set (phases blocked_plan)" by (simp add: blocked_plan_def)
  have d: "ph_dependencies dependant_phase = [''phase_1'']" by (simp add: dependant_phase_def)
  from c d have sub: "set (ph_dependencies dependant_phase) \<subseteq> set (completed_phases after_first_pass)"
    by simp
  from c have fresh: "get_id dependant_phase \<notin> set (completed_phases after_first_pass)"
    by (simp add: dependant_phase_def phase_3_def get_id_def get_or_def)
  have ne: "unsearchable_phase \<noteq> dependant_phase"
    by (simp add: unsearchable_phase_def dependant_phase_def phase_2_def phase_3_def)
  have later: "\<forall>lg prs. phase_iteration sample_env (after_first_pass\<lparr>execution_log := lg\<rparr>) prs
          = (Continue (prs @ [Failure ''phase_2'' ''NoneType object is not iterable'']),
             after_first_pass\<lparr>execution_log := lg @
                [\<lparr>le_description = ''Executing phase: Evidence'', le_completed_phases = 1\<rparr>]\<rparr>)"
  proof (intro allI)
    fix lg prs
    let ?s = "after_first_pass\<lparr>execution_log := lg\<rparr>"
    have "current_plan ?s = Some blocked_plan" "completed_phases ?s = [''phase_1'']"
      using p c by simp_all
    from blocked_iteration[OF this, of sample_env prs] c
    show "phase_iteration sample_env ?s prs
          = (Continue (prs @ [Failure ''phase_2'' ''NoneType object is not iterable'']),
             after_first_pass\<lparr>execution_log := lg @
                [\<lparr>le_description = ''Executing phase: Evidence'', le_completed_phases = 1\<rparr>]\<rparr>)"
      by (simp add: log_step_def)
  qed
  have loop: "\<forall>n. execute_phases n sample_env blocked_agent [] = None"
  proof
    fix n
    show "execute_phases n sample_env blocked_agent [] = None"
    proof (cases n)
      case 0
      then show ?thesis by simp
    next
      case (Suc k)
      from blocked_loop[OF p c, of k sample_env] blocked_first_pass Suc
      show ?thesis by simp
    qed
  qed
  from blocked_first_pass p c m d sub fresh blocked_selection[OF c] ne later loop
  show ?thesis by (intro conjI)
qed
section \<open>The backoff loop\<close>

lemma wait_and_sleep_slept:
  "wait_and_sleep bd msg k = Inr w
     \<Longrightarrow> 0 \<le> w \<and> w = (case search_wait msg of
                          Some g \<Rightarrow> float_of g + 0.5
                        | None \<Rightarrow> bd * 2 ^ k)"
  by (auto simp: wait_and_sleep_def extract_wait_time_def backoff_delay_def sleep_error_def
           split: option.splits sum.splits if_splits)

lemma attempt_loop_attempts:
  "attempts (attempt_loop mr bd func left a sl) \<le> a + left"
proof (induction left arbitrary: a sl)
  case 0
  then show ?case by simp
next
  case (Suc left)
  have "attempts (attempt_loop mr bd func left (Suc a) sl') \<le> Suc a + left" for sl'
    by (rule Suc.IH)
  then show ?case
    by (auto split: sum.splits)
qed

lemma attempt_loop_sleeps:
  "\<exists>new. sleeps (attempt_loop mr bd func left a sl) = sl @ new
      \<and> (\<forall>k < length new. delay_after bd func (a + k) (new ! k) \<and> 0 \<le> new ! k)"
proof (induction left arbitrary: a sl)
  case 0
  then show ?case by simp
next
  case (Suc left)
  show ?case
  proof (cases "func a")
    case (Inr result)
    then show ?thesis by simp
  next
    case (Inl e)
    show ?thesis
    proof (cases "is_rate_limit (str_error e) \<and> int a < mr")
      case False
      with Inl show ?thesis by auto
    next
      case True
      show ?thesis
      proof (cases "wait_and_sleep bd (str_error e) a")
        case (Inl raised)
        with \<open>func a = Inl e\<close> True show ?thesis by simp
      next
        case (Inr w)
        with \<open>func a = Inl e\<close> True have eq: "attempt_loop mr bd func (Suc left) a sl
            = attempt_loop mr bd func left (Suc a) (sl @ [w])"
          by simp
        from Suc.IH[of "Suc a" "sl @ [w]"] obtain new where
          new: "sleeps (attempt_loop mr bd func left (Suc a) (sl @ [w])) = (sl @ [w]) @ new"
            "\<forall>k < length new. delay_after bd func (Suc a + k) (new ! k) \<and> 0 \<le> new ! k"
          by blast
        from wait_and_sleep_slept[OF Inr]
        have first: "delay_after bd func a w \<and> 0 \<le> w"
          unfolding delay_after_def using \<open>func a = Inl e\<close> True by simp
        have "\<forall>k < length (w # new).
                delay_after bd func (a + k) ((w # new) ! k) \<and> 0 \<le> (w # new) ! k"
        proof (intro allI impI)
          fix k assume "k < length (w # new)"
          then show "delay_after bd func (a + k) ((w # new) ! k) \<and> 0 \<le> (w # new) ! k"
            using first new(2) by (cases k) auto
        qed
        with new(1) eq show ?thesis by (intro exI[of _ "w # new"]) simp
      qed
    qed
  qed
qed

lemma attempt_loop_reraise:
  "a \<le> k \<Longrightarrow> k < attempts (attempt_loop mr bd func left a sl) \<Longrightarrow> func k = Inl e
     \<Longrightarrow> \<not> is_rate_limit (str_error e)
     \<Longrightarrow> attempts (attempt_loop mr bd func left a sl) = Suc k
         \<and> outcome (attempt_loop mr bd func left a sl) = Inl e
         \<and> length (sleeps (attempt_loop mr bd func left a sl)) = length sl + (k - a)"
proof (induction left arbitrary: a sl)
  case 0
  then show ?case by simp
next
  case (Suc left)
  show ?case
  proof (cases "k = a")
    case True
    with Suc.prems show ?thesis by simp
  next
    case False
    with Suc.prems have k: "Suc a \<le> k" by simp
    show ?thesis
    proof (cases "func a")
      case (Inr result)
      with Suc.prems k show ?thesis by simp
    next
      case (Inl e')
      show ?thesis
      proof (cases "is_rate_limit (str_error e') \<and> int a < mr")
        case False
        with Inl Suc.prems k show ?thesis by (auto split: if_splits)
      next
        case True
        show ?thesis
        proof (cases "wait_and_sleep bd (str_error e') a")
          case (Inl raised)
          with \<open>func a = Inl e'\<close> True Suc.prems k show ?thesis by simp
        next
          case (Inr w)
          with \<open>func a = Inl e'\<close> True have eq: "attempt_loop mr bd func (Suc left) a sl
              = attempt_loop mr bd func left (Suc a) (sl @ [w])"
            by simp
          from Suc.IH[OF k _ Suc.prems(3,4), of "sl @ [w]"] Suc.prems(2) eq k
          show ?thesis by auto
        qed
      qed
    qed
  qed
qed

lemma attempt_loop_sleeps_count:
  "length (sleeps (attempt_loop mr bd func left a sl)) + a \<le> length sl + max a (nat mr)"
proof (induction left arbitrary: a sl)
  case 0
  then show ?case by simp
next
  case (Suc left)
  show ?case
  proof (cases "func a")
    case (Inr result)
    then show ?thesis by simp
  next
    case (Inl e)
    show ?thesis
    proof (cases "is_rate_limit (str_error e) \<and> int a < mr")
      case False
      with Inl show ?thesis by auto
    next
      case True
      show ?thesis
      proof (cases "wait_and_sleep bd (str_error e) a")
        case (Inl raised)
        with \<open>func a = Inl e\<close> True show ?thesis by simp
      next
        case (Inr w)
        with \<open>func a = Inl e\<close> True have eq: "attempt_loop mr bd func (Suc left) a sl
            = attempt_loop mr bd func left (Suc a) (sl @ [w])"
          by simp
        from True have "Suc a \<le> nat mr" by linarith
        with Suc.IH[of "Suc a" "sl @ [w]"] eq show ?thesis by simp
      qed
    qed
  qed
qed

lemma sleep_raises:
  "call_with_backoff 3 2 long_wait
     = \<lparr>outcome = Inl (OverflowError ''timestamp too large to convert to C _PyTime_t''),
        attempts = 1, sleeps = []\<rparr>
   \<and> call_with_backoff 3 (- 1) flaky_call
     = \<lparr>outcome = Inl (ValueError ''sleep length must be non-negative''),
        attempts = 1, sleeps = []\<rparr>"
proof -
  have a: "call_with_backoff 3 2 long_wait
     = \<lparr>outcome = Inl (OverflowError ''timestamp too large to convert to C _PyTime_t''),
        attempts = 1, sleeps = []\<rparr>"
    by code_simp
  have b: "call_with_backoff 3 (- 1) flaky_call
     = \<lparr>outcome = Inl (ValueError ''sleep length must be non-negative''),
        attempts = 1, sleeps = []\<rparr>"
    by code_simp
  from a b show ?thesis by (intro conjI)
qed

lemma pow2_mono: "0 \<le> bd \<Longrightarrow> j \<le> k \<Longrightarrow> bd * 2 ^ j \<le> bd * (2::real) ^ k"
  by (simp add: mult_left_mono power_increasing)

lemma pow2_nonneg: "0 \<le> bd * (2::real) ^ j \<Longrightarrow> 0 \<le> bd"
proof -
  assume a: "0 \<le> bd * (2::real) ^ j"
  have "(0::real) < 2 ^ j" by simp
  with a show "0 \<le> bd" by (simp add: zero_le_mult_iff)
qed


section \<open>The search for the provider's delay\<close>

lemma startswith_iff: "startswith s p \<longleftrightarrow> (\<exists>r. s = p @ r)"
  by (induction s p rule: startswith.induct) auto

lemma not_digit_s: "\<not> is_digit CHR ''s''" "\<not> is_digit CHR ''.''"
  by (simp_all add: is_digit_def code_def)

lemma takeWhile_digits:
  "list_all is_digit ds \<Longrightarrow> \<not> is_digit c \<Longrightarrow> takeWhile is_digit (ds @ c # r) = ds"
  "list_all is_digit ds \<Longrightarrow> \<not> is_digit c \<Longrightarrow> dropWhile is_digit (ds @ c # r) = c # r"
  by (induction ds) auto

lemma match_wait_plain:
  assumes "ip \<noteq> []" "list_all is_digit ip"
  shows "match_wait (ip @ ''s'' @ rest) = Some (ip, [])"
  using assms takeWhile_digits[OF assms(2) not_digit_s(1), of rest]
  by (simp add: match_wait_def Let_def)

lemma match_wait_point:
  assumes "ip \<noteq> []" "list_all is_digit ip" "list_all is_digit fp"
  shows "match_wait (ip @ ''.'' @ fp @ ''s'' @ rest) = Some (ip, fp)"
  using assms takeWhile_digits[OF assms(2) not_digit_s(2), of "fp @ ''s'' @ rest"]
    takeWhile_digits[OF assms(3) not_digit_s(1), of rest]
  by (simp add: match_wait_def Let_def)

lemma match_wait_sound:
  assumes "match_wait s = Some (ip, fp)"
  shows "ip \<noteq> [] \<and> list_all is_digit ip \<and> list_all is_digit fp
     \<and> (\<exists>rest. (fp = [] \<and> s = ip @ ''s'' @ rest) \<or> s = ip @ ''.'' @ fp @ ''s'' @ rest)"
proof -
  let ?a = "dropWhile is_digit s"
  have s: "s = takeWhile is_digit s @ ?a" by simp
  have d: "list_all is_digit (takeWhile is_digit xs)" for xs
    by (induction xs) auto
  from assms have ip: "ip = takeWhile is_digit s" "ip \<noteq> []"
    by (auto simp: match_wait_def Let_def split: if_splits list.splits)
  have ipd: "list_all is_digit ip" unfolding ip(1) by (rule d)
  from assms obtain c rest where a: "?a = c # rest"
    by (cases ?a) (auto simp: match_wait_def Let_def split: if_splits)
  show ?thesis
  proof (cases "c = CHR ''.''")
    case True
    with assms a have fp: "fp = takeWhile is_digit rest"
      and sw: "startswith (dropWhile is_digit rest) ''s''"
      by (auto simp: match_wait_def Let_def split: if_splits)
    from sw obtain r where "dropWhile is_digit rest = ''s'' @ r"
      by (auto simp: startswith_iff)
    then have "rest = fp @ ''s'' @ r"
      using fp takeWhile_dropWhile_id[of is_digit rest] by simp
    with s a True ip have "s = ip @ ''.'' @ fp @ ''s'' @ r" by simp
    moreover have "list_all is_digit fp" unfolding fp by (rule d)
    ultimately show ?thesis using ip(2) ipd by blast
  next
    case False
    with assms a have "c = CHR ''s''" "fp = []"
      by (auto simp: match_wait_def Let_def split: if_splits)
    with s a ip have "s = ip @ ''s'' @ rest" by simp
    with ip(2) ipd \<open>fp = []\<close> show ?thesis by auto
  qed
qed

lemma search_wait_sound:
  "search_wait m = Some (ip, fp) \<Longrightarrow>
     ip \<noteq> [] \<and> list_all is_digit ip \<and> list_all is_digit fp
     \<and> (\<exists>pre rest. (fp = [] \<and> m = pre @ ''try again in '' @ ip @ ''s'' @ rest)
            \<or> m = pre @ ''try again in '' @ ip @ ''.'' @ fp @ ''s'' @ rest)"
proof (induction m)
  case Nil
  then show ?case by simp
next
  case (Cons c cs)
  show ?case
  proof (cases "startswith (c # cs) ''try again in '' \<and> match_wait (drop 13 (c # cs)) = Some (ip, fp)")
    case True
    then obtain r where r: "c # cs = ''try again in '' @ r" by (auto simp: startswith_iff)
    then have "drop 13 (c # cs) = r" by simp
    with True have "match_wait r = Some (ip, fp)" by simp
    from match_wait_sound[OF this] r show ?thesis
      by (metis append_Nil)
  next
    case False
    with Cons.prems have "search_wait cs = Some (ip, fp)"
      by (auto split: if_splits option.splits)
    from Cons.IH[OF this] show ?thesis
      by (metis append_Cons)
  qed
qed

lemma search_wait_complete:
  assumes "ip \<noteq> []" "list_all is_digit ip" "list_all is_digit fp"
  shows "search_wait (pre @ ''try again in '' @ ip @ ''s'' @ rest) \<noteq> None"
    and "search_wait (pre @ ''try again in '' @ ip @ ''.'' @ fp @ ''s'' @ rest) \<noteq> None"
proof -
  have base1: "search_wait (''try again in '' @ ip @ ''s'' @ rest) \<noteq> None"
    using match_wait_plain[OF assms(1,2), of rest] by simp
  have base2: "search_wait (''try again in '' @ ip @ ''.'' @ fp @ ''s'' @ rest) \<noteq> None"
    using match_wait_point[OF assms, of rest] by simp
  show "search_wait (pre @ ''try again in '' @ ip @ ''s'' @ rest) \<noteq> None"
  proof (induction pre)
    case Nil
    then show ?case using base1 by simp
  next
    case (Cons c pre)
    then show ?case by (auto split: option.splits)
  qed
  show "search_wait (pre @ ''try again in '' @ ip @ ''.'' @ fp @ ''s'' @ rest) \<noteq> None"
  proof (induction pre)
    case Nil
    then show ?case using base2 by simp
  next
    case (Cons c pre)
    then show ?case by (auto split: option.splits)
  qed
qed


section \<open>Attempts and delays of the rate limiter\<close>

text \<open>
  C5 as stated says that a retry delay equals the delay the provider supplied. For a
  message that says to try again in 2 seconds, the delay slept is 2.5 seconds.
\<close>

theorem provider_delay_is_not_the_delay_slept:
  "search_wait ''rate_limit_exceeded: Please try again in 2s'' = Some (''2'', [])
   \<and> float_of (''2'', []) = 2
   \<and> always_limited 0 = Inl (Exception ''rate_limit_exceeded: Please try again in 2s'')
   \<and> sleeps (call_with_backoff 1 1 always_limited) = [2.5]
   \<and> sleeps (call_with_backoff 1 1 always_limited) \<noteq> [2]"
proof -
  have found: "search_wait ''rate_limit_exceeded: Please try again in 2s'' = Some (''2'', [])"
    by code_simp
  have number: "float_of (''2'', []) = 2"
    by code_simp
  have raised: "always_limited 0 = Inl (Exception ''rate_limit_exceeded: Please try again in 2s'')"
    by (simp add: always_limited_def)
  have slept: "sleeps (call_with_backoff 1 1 always_limited) = [2.5]"
    by code_simp
  then have other: "sleeps (call_with_backoff 1 1 always_limited) \<noteq> [2]"
    by simp
  from found number raised slept other show ?thesis by (intro conjI)
qed

text \<open>
  C5, amended. A call through the rate limiter calls the wrapped function at most
  \<open>max_retries + 1\<close> times (no time when that number is negative) and sleeps at most
  \<open>max_retries\<close> times. Every delay it sleeps follows a call that raised a rate-limit
  error, and equals the number of seconds found in the error message by
  \<open>try again in <number>s\<close> plus 0.5 second, or \<open>base_delay * 2 ** attempt\<close> when the
  message holds no such number; the delays of the second kind do not decrease from one
  attempt to a later one. An error that is not a rate-limit error is raised again at
  once: the call on which it occurred is the last, and no delay follows it.
\<close>

theorem backoff_attempts_and_delays:
  "attempts (call_with_backoff mr bd func) \<le> nat (mr + 1)
   \<and> length (sleeps (call_with_backoff mr bd func)) \<le> nat mr
   \<and> (\<forall>k < length (sleeps (call_with_backoff mr bd func)).
         \<exists>e. func k = Inl e \<and> is_rate_limit (str_error e)
           \<and> sleeps (call_with_backoff mr bd func) ! k
               = (case search_wait (str_error e) of
                    Some g \<Rightarrow> float_of g + 0.5
                  | None \<Rightarrow> bd * 2 ^ k))
   \<and> (\<forall>j k. j \<le> k \<and> k < length (sleeps (call_with_backoff mr bd func))
           \<and> (\<forall>e. func j = Inl e \<longrightarrow> search_wait (str_error e) = None)
           \<and> (\<forall>e. func k = Inl e \<longrightarrow> search_wait (str_error e) = None)
           \<longrightarrow> sleeps (call_with_backoff mr bd func) ! j
                 \<le> sleeps (call_with_backoff mr bd func) ! k)
   \<and> (\<forall>k e. k < attempts (call_with_backoff mr bd func) \<and> func k = Inl e
           \<and> \<not> is_rate_limit (str_error e)
           \<longrightarrow> attempts (call_with_backoff mr bd func) = Suc k
               \<and> outcome (call_with_backoff mr bd func) = Inl e
               \<and> length (sleeps (call_with_backoff mr bd func)) = k)"
proof -
  let ?r = "call_with_backoff mr bd func"
  have att: "attempts ?r \<le> nat (mr + 1)"
    using attempt_loop_attempts[of mr bd func "nat (mr + 1)" 0 "[]"]
    by (simp add: call_with_backoff_def)
  from attempt_loop_sleeps[of mr bd func "nat (mr + 1)" 0 "[]"]
  have del: "\<forall>k < length (sleeps ?r). delay_after bd func k (sleeps ?r ! k) \<and> 0 \<le> sleeps ?r ! k"
    by (auto simp: call_with_backoff_def)
  have rule: "\<forall>k < length (sleeps ?r).
         \<exists>e. func k = Inl e \<and> is_rate_limit (str_error e)
           \<and> sleeps ?r ! k = (case search_wait (str_error e) of
                    Some g \<Rightarrow> float_of g + 0.5
                  | None \<Rightarrow> bd * 2 ^ k)"
    using del by (simp add: delay_after_def)
  have len: "length (sleeps ?r) \<le> nat mr"
    using attempt_loop_sleeps_count[of mr bd func "nat (mr + 1)" 0 "[]"]
    by (simp add: call_with_backoff_def)
  have mono: "\<forall>j k. j \<le> k \<and> k < length (sleeps ?r)
           \<and> (\<forall>e. func j = Inl e \<longrightarrow> search_wait (str_error e) = None)
           \<and> (\<forall>e. func k = Inl e \<longrightarrow> search_wait (str_error e) = None)
           \<longrightarrow> sleeps ?r ! j \<le> sleeps ?r ! k"
  proof (intro impI allI)
    fix j k
    assume h: "j \<le> k \<and> k < length (sleeps ?r)
           \<and> (\<forall>e. func j = Inl e \<longrightarrow> search_wait (str_error e) = None)
           \<and> (\<forall>e. func k = Inl e \<longrightarrow> search_wait (str_error e) = None)"
    from h have lt: "j < length (sleeps ?r)" "k < length (sleeps ?r)" by simp_all
    from rule lt(1) obtain ej where ej: "func j = Inl ej"
      "sleeps ?r ! j = (case search_wait (str_error ej) of
                    Some g \<Rightarrow> float_of g + 0.5
                  | None \<Rightarrow> bd * 2 ^ j)"
      by blast
    from rule lt(2) obtain ek where ek: "func k = Inl ek"
      "sleeps ?r ! k = (case search_wait (str_error ek) of
                    Some g \<Rightarrow> float_of g + 0.5
                  | None \<Rightarrow> bd * 2 ^ k)"
      by blast
    from h ej(1) have nj: "search_wait (str_error ej) = None" by blast
    from h ek(1) have nk: "search_wait (str_error ek) = None" by blast
    from ej(2) nj have dj: "sleeps ?r ! j = bd * 2 ^ j" by simp
    from ek(2) nk have dk: "sleeps ?r ! k = bd * 2 ^ k" by simp
    from del lt(1) have "0 \<le> sleeps ?r ! j" by blast
    with dj have "0 \<le> bd * 2 ^ j" by simp
    then have bd: "0 \<le> bd" by (rule pow2_nonneg)
    from h have "j \<le> k" by simp
    from pow2_mono[OF bd this] dj dk show "sleeps ?r ! j \<le> sleeps ?r ! k" by simp
  qed
  have re: "\<forall>k e. k < attempts ?r \<and> func k = Inl e \<and> \<not> is_rate_limit (str_error e)
           \<longrightarrow> attempts ?r = Suc k \<and> outcome ?r = Inl e \<and> length (sleeps ?r) = k"
  proof (intro allI impI)
    fix k e
    assume h: "k < attempts ?r \<and> func k = Inl e \<and> \<not> is_rate_limit (str_error e)"
    then have "k < attempts (attempt_loop mr bd func (nat (mr + 1)) 0 [])"
      by (simp add: call_with_backoff_def)
    from attempt_loop_reraise[of 0 k mr bd func "nat (mr + 1)" "[]" e] this h
    show "attempts ?r = Suc k \<and> outcome ?r = Inl e \<and> length (sleeps ?r) = k"
      by (simp add: call_with_backoff_def)
  qed
  from att len rule mono re show ?thesis by (intro conjI)
qed


theorem backoff_attempts_and_delays_witness:
  "attempts (call_with_backoff 3 2 flaky_call) \<le> nat (3 + 1)
   \<and> length (sleeps (call_with_backoff 3 2 flaky_call)) = 3
   \<and> sleeps (call_with_backoff 3 2 flaky_call) ! 1 = 1.5 + 0.5
   \<and> sleeps (call_with_backoff 3 2 flaky_call) ! 0 \<le> sleeps (call_with_backoff 3 2 flaky_call) ! 2
   \<and> attempts (call_with_backoff 3 2 bad_request) = Suc 0
   \<and> outcome (call_with_backoff 3 2 bad_request) = Inl (Exception ''API request failed: 400'')
   \<and> length (sleeps (call_with_backoff 3 2 bad_request)) = 0"
proof -
  let ?r = "call_with_backoff 3 2 flaky_call"
  let ?b = "call_with_backoff 3 2 bad_request"
  have len: "length (sleeps ?r) = 3" by code_simp
  have second: "sleeps ?r ! 1 = 1.5 + 0.5" by code_simp
  have f0: "flaky_call 0 = Inl (Exception ''API request failed: 429'')"
    and f2: "flaky_call 2 = Inl (Exception ''API request failed: 429'')"
    by (simp_all add: flaky_call_def)
  have none: "search_wait (str_error (Exception ''API request failed: 429'')) = None"
    by code_simp
  have n0: "\<forall>e. flaky_call 0 = Inl e \<longrightarrow> search_wait (str_error e) = None"
    using f0 none by simp
  have n2: "\<forall>e. flaky_call 2 = Inl e \<longrightarrow> search_wait (str_error e) = None"
    using f2 none by simp
  note t = backoff_attempts_and_delays[of 3 2 flaky_call]
  from t have att: "attempts ?r \<le> nat (3 + 1)" by (rule conjunct1)
  from t have "\<forall>j k. j \<le> k \<and> k < length (sleeps ?r)
           \<and> (\<forall>e. flaky_call j = Inl e \<longrightarrow> search_wait (str_error e) = None)
           \<and> (\<forall>e. flaky_call k = Inl e \<longrightarrow> search_wait (str_error e) = None)
           \<longrightarrow> sleeps ?r ! j \<le> sleeps ?r ! k"
    by blast
  then have "(0::nat) \<le> 2 \<and> 2 < length (sleeps ?r)
           \<and> (\<forall>e. flaky_call 0 = Inl e \<longrightarrow> search_wait (str_error e) = None)
           \<and> (\<forall>e. flaky_call 2 = Inl e \<longrightarrow> search_wait (str_error e) = None)
           \<longrightarrow> sleeps ?r ! 0 \<le> sleeps ?r ! 2"
    by blast
  with len n0 n2 have mono: "sleeps ?r ! 0 \<le> sleeps ?r ! 2" by simp
  have b0: "bad_request 0 = Inl (Exception ''API request failed: 400'')"
    by (simp add: bad_request_def)
  have nr: "\<not> is_rate_limit (str_error (Exception ''API request failed: 400''))"
    by code_simp
  have one: "0 < attempts ?b" by code_simp
  from backoff_attempts_and_delays[of 3 2 bad_request]
  have "\<forall>k e. k < attempts ?b \<and> bad_request k = Inl e \<and> \<not> is_rate_limit (str_error e)
           \<longrightarrow> attempts ?b = Suc k \<and> outcome ?b = Inl e \<and> length (sleeps ?b) = k"
    by blast
  then have "0 < attempts ?b \<and> bad_request 0 = Inl (Exception ''API request failed: 400'')
           \<and> \<not> is_rate_limit (str_error (Exception ''API request failed: 400''))
           \<longrightarrow> attempts ?b = Suc 0 \<and> outcome ?b = Inl (Exception ''API request failed: 400'')
               \<and> length (sleeps ?b) = 0"
    by blast
  with one b0 nr have re: "attempts ?b = Suc 0"
    "outcome ?b = Inl (Exception ''API request failed: 400'')" "length (sleeps ?b) = 0"
    by simp_all
  from att len second mono re show ?thesis by (intro conjI)
qed

section \<open>Subgoals and search terms of a parsed goal\<close>

lemma generate_search_terms_nonempty: "generate_search_terms d \<noteq> []"
  by (auto simp: generate_search_terms_def Let_def)

lemma set_fromkeys: "set (fromkeys xs) = set xs"
  by (induction xs) auto

lemma generate_search_terms_from_text:
  "set (generate_search_terms d)
     \<subseteq> set (findall_words (lower d))
       \<union> set [''research'', ''information'', ''morocco'', ''location'', ''geography'',
               ''africa'', ''country'', ''place'', ''facts'']"
proof -
  have "set (take 5 (fromkeys (filter P (findall_words (lower d))))) \<subseteq> set (findall_words (lower d))" for P
    using set_take_subset[of 5 "fromkeys (filter P (findall_words (lower d)))"]
    by (auto simp: set_fromkeys)
  moreover have "set (take 3 (filter Q (findall_words (lower d)))) \<subseteq> set (findall_words (lower d))" for Q
    using set_take_subset[of 3 "filter Q (findall_words (lower d))"] by auto
  ultimately show ?thesis
    by (auto simp: generate_search_terms_def Let_def)
qed

lemma dict_get_set: "dict_get (dict_set k v d) k' = (if k' = k then Some v else dict_get d k')"
  by (induction d) (auto simp: dict_get_def)

lemma dict_get_default:
  "dict_get (set_default k v d) k' = (if k' = k \<and> dict_get d k = None then Some v else dict_get d k')"
  by (simp add: set_default_def dict_get_set)

lemma truthy_str_list: "truthy (str_list ts) \<longleftrightarrow> ts \<noteq> []"
  by (simp add: str_list_def)

lemma search_terms_for_nonempty: "search_terms_for d = Inr ts \<Longrightarrow> ts \<noteq> []"
  by (auto simp: search_terms_for_def generate_search_terms_nonempty split: if_splits json.splits)

lemma enhance_subgoal_terms:
  assumes "enhance_subgoal i x = Inr y"
  shows "\<exists>v. search_terms_of y = Some v \<and> truthy v
           \<and> (case search_terms_of x of
                 Some given \<Rightarrow> if truthy given then v = given
                                else (\<exists>ts. ts \<noteq> [] \<and> v = str_list ts)
               | None \<Rightarrow> (\<exists>ts. ts \<noteq> [] \<and> v = str_list ts))"
proof (cases x)
  case (JObj d)
  let ?d1 = "set_default ''id'' (JNum (real (i + 1))) d"
  have g1: "dict_get ?d1 ''search_terms'' = dict_get d ''search_terms''"
    by (simp add: dict_get_default)
  show ?thesis
  proof (cases "dict_get d ''search_terms''")
    case None
    with assms JObj g1 obtain ts where
      ts: "search_terms_for (get_or (JStr []) (dict_get ?d1 ''description'')) = Inr ts"
      and y: "y = JObj (set_default ''expected_sources''
                            (str_list [''academic papers'', ''websites'', ''reports''])
                            (set_default ''priority'' (JStr ''medium'')
                               (dict_set ''search_terms'' (str_list ts) ?d1)))"
      by (auto simp: enhance_subgoal_def Let_def split: sum.splits)
    from search_terms_for_nonempty[OF ts] have "ts \<noteq> []" .
    with y None JObj show ?thesis
      by (auto simp: search_terms_of_def dict_get_default dict_get_set truthy_str_list)
  next
    case (Some given)
    show ?thesis
    proof (cases "truthy given")
      case True
      with assms JObj g1 Some have
        y: "y = JObj (set_default ''expected_sources''
                            (str_list [''academic papers'', ''websites'', ''reports''])
                            (set_default ''priority'' (JStr ''medium'') ?d1))"
        by (auto simp: enhance_subgoal_def Let_def split: sum.splits)
      with Some JObj True show ?thesis
        by (simp add: search_terms_of_def dict_get_default)
    next
      case False
      with assms JObj g1 Some obtain ts where
        ts: "search_terms_for (get_or (JStr []) (dict_get ?d1 ''description'')) = Inr ts"
        and y: "y = JObj (set_default ''expected_sources''
                            (str_list [''academic papers'', ''websites'', ''reports''])
                            (set_default ''priority'' (JStr ''medium'')
                               (dict_set ''search_terms'' (str_list ts) ?d1)))"
        by (auto simp: enhance_subgoal_def Let_def split: sum.splits)
      from search_terms_for_nonempty[OF ts] have "ts \<noteq> []" .
      with y Some False JObj show ?thesis
        by (auto simp: search_terms_of_def dict_get_default dict_get_set truthy_str_list)
    qed
  qed
qed (use assms in \<open>simp_all add: enhance_subgoal_def\<close>)

lemma enhance_all_items:
  "enhance_all i xs = Inr ys
     \<Longrightarrow> length ys = length xs \<and> (\<forall>k < length xs. enhance_subgoal (i + k) (xs ! k) = Inr (ys ! k))"
proof (induction xs arbitrary: i ys)
  case Nil
  then show ?case by simp
next
  case (Cons x xs)
  from Cons.prems obtain y ys' where y: "enhance_subgoal i x = Inr y"
    and r: "enhance_all (Suc i) xs = Inr ys'" and e: "ys = y # ys'"
    by (auto split: sum.splits)
  from Cons.IH[OF r] have l: "length ys' = length xs"
    and a: "\<forall>k < length xs. enhance_subgoal (Suc i + k) (xs ! k) = Inr (ys' ! k)"
    by simp_all
  have "\<forall>k < length (x # xs). enhance_subgoal (i + k) ((x # xs) ! k) = Inr (ys ! k)"
  proof (intro allI impI)
    fix k assume "k < length (x # xs)"
    then show "enhance_subgoal (i + k) ((x # xs) ! k) = Inr (ys ! k)"
      using y a e by (cases k) auto
  qed
  with l e show ?case by simp
qed

lemma enhance_subgoal_text:
  "enhance_subgoal i (JStr s) = Inl (not_a_dict (contains s ''id'') (contains s ''search_terms''))"
  by (simp add: enhance_subgoal_def)

lemma enhance_subgoals_cases:
  assumes "enhance_subgoals v = Inr v'"
  shows "(\<exists>xs ys. v = JArr xs \<and> v' = JArr ys \<and> enhance_all 0 xs = Inr ys)
       \<or> (v' = v \<and> (v = JStr [] \<or> v = JObj []))"
proof (cases v)
  case (JArr xs)
  with assms show ?thesis by (auto simp: enhance_subgoals_def split: sum.splits)
next
  case (JStr s)
  with assms show ?thesis
    by (cases s) (auto simp: enhance_subgoals_def enhance_subgoal_text split: sum.splits)
next
  case (JObj kvs)
  with assms show ?thesis
    by (cases kvs) (auto simp: enhance_subgoals_def enhance_subgoal_text split: sum.splits)
qed (use assms in \<open>simp_all add: enhance_subgoals_def\<close>)


lemma with_keys_subgoals:
  "get_or (JArr []) (dict_get (set_default ''main_goal'' m (set_default ''subgoals'' (JArr []) parsed))
      ''subgoals'')
   = get_or (JArr []) (dict_get parsed ''subgoals'')"
  by (cases "dict_get parsed ''subgoals''") (simp_all add: dict_get_default get_or_def)

lemma validate_and_enhance_result:
  assumes "validate_and_enhance now parsed g = Inr out"
  shows "dict_get out ''total_subgoals'' = Some (JNum (real (length (subgoals_of out))))
       \<and> length (subgoals_of out) = length (subgoals_of parsed)
       \<and> (\<forall>k < length (subgoals_of parsed).
             enhance_subgoal k (subgoals_of parsed ! k) = Inr (subgoals_of out ! k))"
proof -
  let ?wk = "set_default ''main_goal'' (JStr g) (set_default ''subgoals'' (JArr []) parsed)"
  let ?v = "get_or (JArr []) (dict_get parsed ''subgoals'')"
  from assms obtain v' n where en: "enhance_subgoals ?v = Inr v'"
    and n: "json_len v' = Inr n"
    and out: "out = dict_set ''total_subgoals'' (JNum (real n))
                     (dict_set ''created_at'' (JStr now) (dict_set ''subgoals'' v' ?wk))"
    by (auto simp: validate_and_enhance_def Let_def with_keys_subgoals split: sum.splits)
  from out have sub: "dict_get out ''subgoals'' = Some v'"
    and tot: "dict_get out ''total_subgoals'' = Some (JNum (real n))"
    by (simp_all add: dict_get_set)
  from enhance_subgoals_cases[OF en]
  show ?thesis
  proof
    assume "\<exists>xs ys. ?v = JArr xs \<and> v' = JArr ys \<and> enhance_all 0 xs = Inr ys"
    then obtain xs ys where v: "?v = JArr xs" and v': "v' = JArr ys"
      and al: "enhance_all 0 xs = Inr ys"
      by blast
    from v have p: "subgoals_of parsed = xs"
      by (auto simp: subgoals_of_def get_or_def split: option.splits)
    from sub v' have o: "subgoals_of out = ys" by (simp add: subgoals_of_def)
    from n v' have "n = length ys" by (simp add: json_len_def)
    with tot o p enhance_all_items[OF al] show ?thesis by simp
  next
    assume "v' = ?v \<and> (?v = JStr [] \<or> ?v = JObj [])"
    then have v': "v' = JStr [] \<or> v' = JObj []" and v: "?v = JStr [] \<or> ?v = JObj []"
      by auto
    from v have p: "subgoals_of parsed = []"
      by (auto simp: subgoals_of_def get_or_def split: option.splits)
    from sub v' have o: "subgoals_of out = []" by (auto simp: subgoals_of_def)
    from n v' have "n = 0" by (auto simp: json_len_def)
    with tot o p show ?thesis by simp
  qed
qed

lemma fallback_subgoals:
  "\<exists>sg. subgoals_of (goal_dict (create_fallback_structure now g)) = [sg]
     \<and> search_terms_of sg = Some (str_list (generate_search_terms g))
     \<and> dict_get (goal_dict (create_fallback_structure now g)) ''total_subgoals'' = Some (JNum 1)"
  by (simp add: create_fallback_structure_def goal_dict_def subgoal_dict_def dict_item_def
        subgoals_of_def search_terms_of_def dict_get_def)

lemma extract_structured_goal_returns:
  "\<exists>parsed. extract_structured_goal loads (Some answer) = Inr parsed"
proof (cases "json_block answer")
  case None
  then show ?thesis by (simp add: extract_structured_goal_def)
next
  case (Some json_str)
  then show ?thesis
    by (cases "loads json_str") (simp_all add: extract_structured_goal_def)
qed

lemma null_subgoals_raise:
  "validate_and_enhance now [(''main_goal'', JStr ''Study AI''), (''subgoals'', JNull)] g
     = Inl (TypeError ''object is not iterable'')"
  by (simp add: validate_and_enhance_def set_default_def dict_get_def get_or_def
        enhance_subgoals_def)


text \<open>
  C7 as stated says that the output always has a subgoal, exactly one for a response that
  does not parse, and that every subgoal has a list of search terms. A response without
  braces and without the words that mark a subtask goes through the manual parse, which
  finds no subgoal: the output has none. A response holding the empty JSON object gives
  none either. And a subgoal for which the response gave a text under \<open>search_terms\<close>
  keeps the text, which is not a list.
\<close>

theorem unparseable_response_gives_no_subgoal:
  "json_block ''I cannot help with that.'' = None
   \<and> dict_get (parse_goal sample_loads timestamp goal_text (Inr (Some ''I cannot help with that.'')))
         ''subgoals'' = Some (JArr [])
   \<and> subgoals_of (parse_goal sample_loads timestamp goal_text
                     (Inr (Some ''I cannot help with that.''))) = []
   \<and> dict_get (parse_goal sample_loads timestamp goal_text (Inr (Some ''I cannot help with that.'')))
         ''total_subgoals'' = Some (JNum 0)
   \<and> subgoals_of (parse_goal sample_loads timestamp goal_text (Inr (Some ''{}''))) = []
   \<and> map search_terms_of
         (subgoals_of (parse_goal sample_loads timestamp goal_text (Inr (Some text_terms_answer))))
       = [Some (JStr ''radiology ai'')]"
proof -
  have a: "json_block ''I cannot help with that.'' = None" by code_simp
  have b: "dict_get (parse_goal sample_loads timestamp goal_text (Inr (Some ''I cannot help with that.'')))
         ''subgoals'' = Some (JArr [])" by code_simp
  have c: "subgoals_of (parse_goal sample_loads timestamp goal_text
                     (Inr (Some ''I cannot help with that.''))) = []" by code_simp
  have d: "dict_get (parse_goal sample_loads timestamp goal_text (Inr (Some ''I cannot help with that.'')))
         ''total_subgoals'' = Some (JNum 0)" by code_simp
  have e: "subgoals_of (parse_goal sample_loads timestamp goal_text (Inr (Some ''{}''))) = []"
    by code_simp
  have f: "map search_terms_of
         (subgoals_of (parse_goal sample_loads timestamp goal_text (Inr (Some text_terms_answer))))
       = [Some (JStr ''radiology ai'')]"
    by code_simp
  from a b c d e f show ?thesis by (intro conjI)
qed

text \<open>
  C7, amended. For every goal text and every response of the model, every subgoal of the
  output has a value under \<open>search_terms\<close> that is not empty (in Python's sense: it is
  not falsy), and \<open>total_subgoals\<close> is the number of subgoals. When text generation raises or returns \<open>None\<close>, or when the
  enhancement of the structure extracted from the answer raises, as it does on
  \<open>"subgoals": null\<close>, the output is the fallback structure: exactly one subgoal, whose
  search terms are the ones generated from the goal text, a list that is not empty, each
  term a word of the lowercased goal text or one of the fixed generic terms. Otherwise the
  output is the enhanced structure: it has as many subgoals as the structure extracted
  from the answer, which may be none, and each subgoal keeps the search terms the answer
  gave for it when they are not empty, and else holds a generated list of terms that is
  not empty.
\<close>

theorem parse_goal_subgoals:
  "(\<forall>sg \<in> set (subgoals_of (parse_goal loads now g response)).
       \<exists>v. search_terms_of sg = Some v \<and> truthy v)
   \<and> dict_get (parse_goal loads now g response) ''total_subgoals''
       = Some (JNum (real (length (subgoals_of (parse_goal loads now g response)))))
   \<and> ((\<exists>e. response = Inl e) \<or> response = Inr None
        \<or> (\<exists>answer parsed e. response = Inr (Some answer)
              \<and> extract_structured_goal loads (Some answer) = Inr parsed
              \<and> validate_and_enhance now parsed g = Inl e)
       \<longrightarrow> parse_goal loads now g response = goal_dict (create_fallback_structure now g)
           \<and> (\<exists>sg. subgoals_of (parse_goal loads now g response) = [sg]
                  \<and> search_terms_of sg = Some (str_list (generate_search_terms g)))
           \<and> generate_search_terms g \<noteq> []
           \<and> set (generate_search_terms g)
                \<subseteq> set (findall_words (lower g))
                  \<union> set [''research'', ''information'', ''morocco'', ''location'',
                          ''geography'', ''africa'', ''country'', ''place'', ''facts''])
   \<and> (\<forall>answer parsed validated.
         response = Inr (Some answer)
         \<and> extract_structured_goal loads (Some answer) = Inr parsed
         \<and> validate_and_enhance now parsed g = Inr validated
         \<longrightarrow> parse_goal loads now g response = validated
             \<and> length (subgoals_of (parse_goal loads now g response))
                 = length (subgoals_of parsed)
             \<and> (\<forall>k < length (subgoals_of parsed).
                   \<exists>v. search_terms_of (subgoals_of (parse_goal loads now g response) ! k) = Some v
                     \<and> (case search_terms_of (subgoals_of parsed ! k) of
                           Some given \<Rightarrow> if truthy given then v = given
                                          else (\<exists>ts. ts \<noteq> [] \<and> v = str_list ts)
                         | None \<Rightarrow> (\<exists>ts. ts \<noteq> [] \<and> v = str_list ts))))"
proof -
  let ?out = "parse_goal loads now g response"
  let ?fb = "goal_dict (create_fallback_structure now g)"
  from fallback_subgoals[of now g] obtain fsg where
    f1: "subgoals_of ?fb = [fsg]"
    and f2: "search_terms_of fsg = Some (str_list (generate_search_terms g))"
    and f3: "dict_get ?fb ''total_subgoals'' = Some (JNum 1)"
    by blast
  have fb_terms: "\<forall>sg \<in> set (subgoals_of ?fb). \<exists>v. search_terms_of sg = Some v \<and> truthy v"
    using f1 f2 generate_search_terms_nonempty[of g] by (simp add: truthy_str_list)
  have fb_total: "dict_get ?fb ''total_subgoals'' = Some (JNum (real (length (subgoals_of ?fb))))"
    using f1 f3 by simp
  have val: "(\<forall>sg \<in> set (subgoals_of validated). \<exists>v. search_terms_of sg = Some v \<and> truthy v)
      \<and> dict_get validated ''total_subgoals'' = Some (JNum (real (length (subgoals_of validated))))
      \<and> length (subgoals_of validated) = length (subgoals_of parsed)
      \<and> (\<forall>k < length (subgoals_of parsed).
            \<exists>v. search_terms_of (subgoals_of validated ! k) = Some v
              \<and> (case search_terms_of (subgoals_of parsed ! k) of
                    Some given \<Rightarrow> if truthy given then v = given
                                   else (\<exists>ts. ts \<noteq> [] \<and> v = str_list ts)
                  | None \<Rightarrow> (\<exists>ts. ts \<noteq> [] \<and> v = str_list ts)))"
    if v: "validate_and_enhance now parsed g = Inr validated" for parsed validated
  proof -
    from validate_and_enhance_result[OF v] have
      t: "dict_get validated ''total_subgoals'' = Some (JNum (real (length (subgoals_of validated))))"
      and l: "length (subgoals_of validated) = length (subgoals_of parsed)"
      and en: "\<forall>k < length (subgoals_of parsed).
             enhance_subgoal k (subgoals_of parsed ! k) = Inr (subgoals_of validated ! k)"
      by simp_all
    have each: "\<exists>v. search_terms_of (subgoals_of validated ! k) = Some v \<and> truthy v
              \<and> (case search_terms_of (subgoals_of parsed ! k) of
                    Some given \<Rightarrow> if truthy given then v = given
                                   else (\<exists>ts. ts \<noteq> [] \<and> v = str_list ts)
                  | None \<Rightarrow> (\<exists>ts. ts \<noteq> [] \<and> v = str_list ts))"
      if k: "k < length (subgoals_of parsed)" for k
      using en k enhance_subgoal_terms[of k "subgoals_of parsed ! k" "subgoals_of validated ! k"]
      by blast
    have all: "\<forall>sg \<in> set (subgoals_of validated). \<exists>v. search_terms_of sg = Some v \<and> truthy v"
    proof
      fix sg assume "sg \<in> set (subgoals_of validated)"
      then obtain k where "k < length (subgoals_of validated)" "sg = subgoals_of validated ! k"
        by (auto simp: in_set_conv_nth)
      with l each[of k] show "\<exists>v. search_terms_of sg = Some v \<and> truthy v" by auto
    qed
    have kept: "\<forall>k < length (subgoals_of parsed).
            \<exists>v. search_terms_of (subgoals_of validated ! k) = Some v
              \<and> (case search_terms_of (subgoals_of parsed ! k) of
                    Some given \<Rightarrow> if truthy given then v = given
                                   else (\<exists>ts. ts \<noteq> [] \<and> v = str_list ts)
                  | None \<Rightarrow> (\<exists>ts. ts \<noteq> [] \<and> v = str_list ts))"
      using each by blast
    from all t l kept show ?thesis by (intro conjI)
  qed
  have shape: "?out = ?fb \<or> (\<exists>answer parsed validated. response = Inr (Some answer)
         \<and> extract_structured_goal loads (Some answer) = Inr parsed
         \<and> validate_and_enhance now parsed g = Inr validated \<and> ?out = validated)"
  proof (cases response)
    case (Inl e)
    then show ?thesis by (simp add: parse_goal_def)
  next
    case (Inr r)
    show ?thesis
    proof (cases r)
      case None
      with Inr show ?thesis by (simp add: parse_goal_def extract_structured_goal_def)
    next
      case (Some answer)
      from extract_structured_goal_returns[of loads answer]
      obtain parsed where p: "extract_structured_goal loads (Some answer) = Inr parsed"
        by blast
      show ?thesis
      proof (cases "validate_and_enhance now parsed g")
        case (Inl e)
        with Inr Some p show ?thesis by (simp add: parse_goal_def)
      next
        case v: (Inr validated)
        with Inr Some p show ?thesis by (simp add: parse_goal_def)
      qed
    qed
  qed
  from shape
  have c1: "\<forall>sg \<in> set (subgoals_of ?out). \<exists>v. search_terms_of sg = Some v \<and> truthy v"
  proof (elim disjE exE conjE)
    assume "?out = ?fb"
    with fb_terms show ?thesis by simp
  next
    fix answer parsed validated
    assume "validate_and_enhance now parsed g = Inr validated" and o: "?out = validated"
    from val[OF this(1)] o show ?thesis by simp
  qed
  from shape
  have c2: "dict_get ?out ''total_subgoals'' = Some (JNum (real (length (subgoals_of ?out))))"
  proof (elim disjE exE conjE)
    assume "?out = ?fb"
    with fb_total show ?thesis by simp
  next
    fix answer parsed validated
    assume "validate_and_enhance now parsed g = Inr validated" and o: "?out = validated"
    from val[OF this(1)] o show ?thesis by simp
  qed
  have c3: "(\<exists>e. response = Inl e) \<or> response = Inr None
        \<or> (\<exists>answer parsed e. response = Inr (Some answer)
              \<and> extract_structured_goal loads (Some answer) = Inr parsed
              \<and> validate_and_enhance now parsed g = Inl e)
       \<longrightarrow> ?out = ?fb
           \<and> (\<exists>sg. subgoals_of ?out = [sg]
                  \<and> search_terms_of sg = Some (str_list (generate_search_terms g)))
           \<and> generate_search_terms g \<noteq> []
           \<and> set (generate_search_terms g)
                \<subseteq> set (findall_words (lower g))
                  \<union> set [''research'', ''information'', ''morocco'', ''location'',
                          ''geography'', ''africa'', ''country'', ''place'', ''facts'']"
  proof
    assume h: "(\<exists>e. response = Inl e) \<or> response = Inr None
        \<or> (\<exists>answer parsed e. response = Inr (Some answer)
              \<and> extract_structured_goal loads (Some answer) = Inr parsed
              \<and> validate_and_enhance now parsed g = Inl e)"
    then have o: "?out = ?fb"
    proof (elim disjE exE conjE)
      fix e assume "response = Inl e"
      then show ?thesis by (simp add: parse_goal_def)
    next
      assume "response = Inr None"
      then show ?thesis by (simp add: parse_goal_def extract_structured_goal_def)
    next
      fix answer parsed e
      assume "response = Inr (Some answer)"
        "extract_structured_goal loads (Some answer) = Inr parsed"
        "validate_and_enhance now parsed g = Inl e"
      then show ?thesis by (simp add: parse_goal_def)
    qed
    with f1 f2 have "\<exists>sg. subgoals_of ?out = [sg]
                  \<and> search_terms_of sg = Some (str_list (generate_search_terms g))"
      by simp
    with o generate_search_terms_nonempty[of g] generate_search_terms_from_text[of g]
    show "?out = ?fb
           \<and> (\<exists>sg. subgoals_of ?out = [sg]
                  \<and> search_terms_of sg = Some (str_list (generate_search_terms g)))
           \<and> generate_search_terms g \<noteq> []
           \<and> set (generate_search_terms g)
                \<subseteq> set (findall_words (lower g))
                  \<union> set [''research'', ''information'', ''morocco'', ''location'',
                          ''geography'', ''africa'', ''country'', ''place'', ''facts'']"
      by (intro conjI)
  qed
  have c4: "\<forall>answer parsed validated.
         response = Inr (Some answer)
         \<and> extract_structured_goal loads (Some answer) = Inr parsed
         \<and> validate_and_enhance now parsed g = Inr validated
         \<longrightarrow> ?out = validated
             \<and> length (subgoals_of ?out) = length (subgoals_of parsed)
             \<and> (\<forall>k < length (subgoals_of parsed).
                   \<exists>v. search_terms_of (subgoals_of ?out ! k) = Some v
                     \<and> (case search_terms_of (subgoals_of parsed ! k) of
                           Some given \<Rightarrow> if truthy given then v = given
                                          else (\<exists>ts. ts \<noteq> [] \<and> v = str_list ts)
                         | None \<Rightarrow> (\<exists>ts. ts \<noteq> [] \<and> v = str_list ts)))"
  proof (intro allI impI)
    fix answer parsed validated
    assume h: "response = Inr (Some answer)
         \<and> extract_structured_goal loads (Some answer) = Inr parsed
         \<and> validate_and_enhance now parsed g = Inr validated"
    then have o: "?out = validated" by (simp add: parse_goal_def)
    from h have "validate_and_enhance now parsed g = Inr validated" by simp
    from val[OF this] o
    show "?out = validated
             \<and> length (subgoals_of ?out) = length (subgoals_of parsed)
             \<and> (\<forall>k < length (subgoals_of parsed).
                   \<exists>v. search_terms_of (subgoals_of ?out ! k) = Some v
                     \<and> (case search_terms_of (subgoals_of parsed ! k) of
                           Some given \<Rightarrow> if truthy given then v = given
                                          else (\<exists>ts. ts \<noteq> [] \<and> v = str_list ts)
                         | None \<Rightarrow> (\<exists>ts. ts \<noteq> [] \<and> v = str_list ts)))"
      by simp
  qed
  from c1 c2 c3 c4 show ?thesis by (intro conjI)
qed

theorem parse_goal_subgoals_witness:
  "(\<exists>sg. subgoals_of (parse_goal sample_loads timestamp goal_text
                          (Inl (Exception ''API request failed: 429''))) = [sg]
       \<and> search_terms_of sg = Some (str_list [''impact'', ''healthcare'', ''diagnostics'']))
   \<and> extract_structured_goal sample_loads (Some null_subgoals_answer)
       = Inr [(''main_goal'', JStr ''Study AI''), (''subgoals'', JNull)]
   \<and> validate_and_enhance timestamp [(''main_goal'', JStr ''Study AI''), (''subgoals'', JNull)]
         goal_text = Inl (TypeError ''object is not iterable'')
   \<and> parse_goal sample_loads timestamp goal_text (Inr (Some null_subgoals_answer))
       = goal_dict (create_fallback_structure timestamp goal_text)
   \<and> length (subgoals_of (parse_goal sample_loads timestamp goal_text
                             (Inr (Some ''Subtask 1: survey the imaging studies'')))) = 1
   \<and> (\<exists>v. search_terms_of (subgoals_of (parse_goal sample_loads timestamp goal_text
                                (Inr (Some ''Subtask 1: survey the imaging studies''))) ! 0) = Some v
          \<and> truthy v)"
proof -
  let ?raised = "Inl (Exception ''API request failed: 429'') :: error + string option"
  let ?null = "Inr (Some null_subgoals_answer) :: error + string option"
  let ?answered = "Inr (Some ''Subtask 1: survey the imaging studies'') :: error + string option"
  let ?parsed = "[(''main_goal'', JStr ''Study AI''), (''subgoals'', JNull)]"
  have terms: "generate_search_terms goal_text = [''impact'', ''healthcare'', ''diagnostics'']"
    by code_simp
  note t1 = parse_goal_subgoals[of sample_loads timestamp goal_text ?raised]
  have r: "\<exists>e. ?raised = Inl e" by simp
  from t1 r have "\<exists>sg. subgoals_of (parse_goal sample_loads timestamp goal_text ?raised) = [sg]
       \<and> search_terms_of sg = Some (str_list (generate_search_terms goal_text))"
    by blast
  with terms have first: "\<exists>sg. subgoals_of (parse_goal sample_loads timestamp goal_text ?raised) = [sg]
       \<and> search_terms_of sg = Some (str_list [''impact'', ''healthcare'', ''diagnostics''])"
    by simp
  have ex: "extract_structured_goal sample_loads (Some null_subgoals_answer) = Inr ?parsed"
    by code_simp
  have va: "validate_and_enhance timestamp ?parsed goal_text = Inl (TypeError ''object is not iterable'')"
    by (rule null_subgoals_raise)
  note t2 = parse_goal_subgoals[of sample_loads timestamp goal_text ?null]
  from ex va have "\<exists>answer parsed e. ?null = Inr (Some answer)
              \<and> extract_structured_goal sample_loads (Some answer) = Inr parsed
              \<and> validate_and_enhance timestamp parsed goal_text = Inl e"
    by blast
  with t2 have second: "parse_goal sample_loads timestamp goal_text ?null
       = goal_dict (create_fallback_structure timestamp goal_text)"
    by blast
  have n: "length (subgoals_of (parse_goal sample_loads timestamp goal_text ?answered)) = 1"
    by code_simp
  note t3 = parse_goal_subgoals[of sample_loads timestamp goal_text ?answered]
  from t3 have all: "\<forall>sg \<in> set (subgoals_of (parse_goal sample_loads timestamp goal_text ?answered)).
       \<exists>v. search_terms_of sg = Some v \<and> truthy v"
    by (rule conjunct1)
  from n have "subgoals_of (parse_goal sample_loads timestamp goal_text ?answered) ! 0
      \<in> set (subgoals_of (parse_goal sample_loads timestamp goal_text ?answered))"
    by simp
  with all have third: "\<exists>v. search_terms_of
        (subgoals_of (parse_goal sample_loads timestamp goal_text ?answered) ! 0) = Some v
          \<and> truthy v"
    by blast
  from first ex va second n third show ?thesis by (intro conjI)
qed
section \<open>Statistics in emergency mode\<close>

lemma percent_not_kept: "\<not> kept_char CHR ''%''"
  by code_simp

lemma set_strip: "set (strip s) \<subseteq> set s"
proof -
  have "set (rev (dropWhile is_space (rev (dropWhile is_space s))))
          \<subseteq> set (dropWhile is_space s)"
    using set_dropWhileD[of _ is_space "rev (dropWhile is_space s)"] by auto
  also have "\<dots> \<subseteq> set s" using set_dropWhileD[of _ is_space s] by auto
  finally show ?thesis by (simp add: strip_def)
qed

lemma percent_never_survives: "CHR ''%'' \<notin> set (clean_text content)"
proof
  assume "CHR ''%'' \<in> set (clean_text content)"
  with set_strip[of "filter kept_char (collapse_ws False content)"]
  have "CHR ''%'' \<in> set (filter kept_char (collapse_ws False content))"
    by (auto simp: clean_text_def)
  with percent_not_kept show False by simp
qed

text \<open>
  C9. The claim is that for a content holding the phrase "the study found that X
  increased by 20%" the emergency extractor fills both \<open>statistics\<close> and
  \<open>key_findings\<close>. On the phrase itself \<open>_clean_text\<close> deletes the percent sign, which
  is not among the characters it keeps, before \<open>_extract_statistics\<close> looks for a number
  followed by a percent sign: the one sentence is a key finding, and \<open>statistics\<close> is
  empty.
\<close>

theorem percent_sign_is_cleaned_away:
  "clean_text study_phrase = ''the study found that X increased by 20''
   \<and> split_into_sentences (clean_text study_phrase) = [''the study found that X increased by 20'']
   \<and> em_key_findings (emergency_extract_key_information study_phrase study_source)
       = [''the study found that X increased by 20'']
   \<and> em_statistics (emergency_extract_key_information study_phrase study_source) = []
   \<and> stat_search (lower study_phrase)"
proof -
  have a: "clean_text study_phrase = ''the study found that X increased by 20''" by code_simp
  have b: "split_into_sentences (clean_text study_phrase)
      = [''the study found that X increased by 20'']" by code_simp
  have c: "em_key_findings (emergency_extract_key_information study_phrase study_source)
       = [''the study found that X increased by 20'']" by code_simp
  have d: "em_statistics (emergency_extract_key_information study_phrase study_source) = []"
    by code_simp
  have e: "stat_search (lower study_phrase)" by code_simp
  from a b c d e show ?thesis by (intro conjI)
qed

section \<open>Duplicates in the bibliography\<close>

lemma set_dedup_citations: "set (dedup_citations su st xs) \<subseteq> set xs"
  by (induction xs arbitrary: su st) (auto simp: Let_def)

text \<open>
  Citations of two kinds: those with the url \<open>u\<close>, whose title is not \<open>t\<close>, and those
  with the lowercased title \<open>t\<close>, whose url is not \<open>u\<close>. Of each kind the first one is
  kept and every later one is dropped.
\<close>

lemma dedup_two_kinds:
  assumes "u \<noteq> []" and "t \<noteq> []"
    and "\<forall>c \<in> set xs. (c_url c = u \<and> lower (c_title c) \<noteq> t)
                        \<or> (lower (c_title c) = t \<and> c_url c \<noteq> u)"
    and "u \<notin> set su \<longrightarrow> set st \<subseteq> {t}"
    and "t \<notin> set st \<longrightarrow> set su \<subseteq> {u}"
  shows "length (dedup_citations su st xs)
     = (if u \<notin> set su \<and> (\<exists>c \<in> set xs. c_url c = u) then 1 else 0)
       + (if t \<notin> set st \<and> (\<exists>c \<in> set xs. lower (c_title c) = t) then 1 else 0)"
  using assms(3,4,5)
proof (induction xs arbitrary: su st)
  case Nil
  then show ?case by simp
next
  case (Cons c cs)
  have rest: "\<forall>c \<in> set cs. (c_url c = u \<and> lower (c_title c) \<noteq> t)
                        \<or> (lower (c_title c) = t \<and> c_url c \<noteq> u)"
    using Cons.prems(1) by simp
  from Cons.prems(1) consider
    (a) "c_url c = u" "lower (c_title c) \<noteq> t" | (b) "lower (c_title c) = t" "c_url c \<noteq> u"
    by auto
  then show ?case
  proof cases
    case a
    show ?thesis
    proof (cases "u \<in> set su")
      case True
      with a assms(1) Cons.IH[OF rest Cons.prems(2,3)] show ?thesis by (simp add: Let_def)
    next
      case False
      with Cons.prems(2) a have nt: "lower (c_title c) \<notin> set st" by auto
      let ?st = "if lower (c_title c) \<noteq> [] then lower (c_title c) # st else st"
      have i1: "u \<notin> set (u # su) \<longrightarrow> set ?st \<subseteq> {t}" by simp
      have i2: "t \<notin> set ?st \<longrightarrow> set (u # su) \<subseteq> {u}"
        using Cons.prems(3) by auto
      have tin: "t \<in> set ?st \<longleftrightarrow> t \<in> set st" using a by auto
      from Cons.IH[OF rest i1 i2] False nt a assms(1) tin show ?thesis
        by (simp add: Let_def)
    qed
  next
    case b
    show ?thesis
    proof (cases "t \<in> set st")
      case True
      with b assms(2) Cons.IH[OF rest Cons.prems(2,3)] show ?thesis by (auto simp: Let_def)
    next
      case False
      with Cons.prems(3) b have nu: "c_url c \<notin> set su" by auto
      let ?su = "if c_url c \<noteq> [] then c_url c # su else su"
      have i1: "u \<notin> set ?su \<longrightarrow> set (t # st) \<subseteq> {t}"
        using Cons.prems(2) b by auto
      have i2: "t \<notin> set (t # st) \<longrightarrow> set ?su \<subseteq> {u}" by simp
      have uin: "u \<in> set ?su \<longleftrightarrow> u \<in> set su" using b by auto
      from Cons.IH[OF rest i1 i2] False nu b assms(2) uin show ?thesis
        by (simp add: Let_def)
    qed
  qed
qed

lemma join_nonempty: "p \<in> set ps \<Longrightarrow> p \<noteq> [] \<Longrightarrow> join sep ps \<noteq> []"
  by (induction sep ps rule: join.induct) auto

lemma format_citation_nonempty:
  assumes "c_url c \<noteq> [] \<or> c_title c \<noteq> []"
  shows "format_citation style netloc tm tc c \<noteq> []"
proof -
  have apa: "format_apa_citation c \<noteq> []"
  proof (cases "c_url c \<noteq> []")
    case True
    show ?thesis unfolding format_apa_citation_def
      by (rule join_nonempty[of "''Retrieved from '' @ c_url c"]) (use True in auto)
  next
    case False
    with assms have "c_title c \<noteq> []" by simp
    show ?thesis unfolding format_apa_citation_def
      by (rule join_nonempty[of "c_title c @ ''.''"]) (use \<open>c_title c \<noteq> []\<close> in auto)
  qed
  have chicago: "format_chicago_citation tc c \<noteq> []"
  proof (cases "c_url c \<noteq> []")
    case True
    show ?thesis unfolding format_chicago_citation_def
      by (rule join_nonempty[of "''Accessed '' @ tc @ ''. '' @ c_url c @ ''.''"]) (use True in auto)
  next
    case False
    with assms have "c_title c \<noteq> []" by simp
    show ?thesis unfolding format_chicago_citation_def
      by (rule join_nonempty[of "[CHR 0x22] @ c_title c @ ''.'' @ [CHR 0x22]"])
         (use \<open>c_title c \<noteq> []\<close> in auto)
  qed
  have mla: "format_mla_citation netloc tm c = Inr f \<Longrightarrow> f \<noteq> []" for f
  proof (cases "c_url c \<noteq> []")
    case True
    assume "format_mla_citation netloc tm c = Inr f"
    with True obtain domain where "netloc (c_url c) = Inr domain"
      and f: "f = join '' '' (((case c_authors c of [] \<Rightarrow> [] | a # others \<Rightarrow> [a @ ''.''])
                 @ (if c_title c \<noteq> [] then [[CHR 0x22] @ c_title c @ ''.'' @ [CHR 0x22]] else []))
               @ [domain @ '',''] @ ((if c_date c \<noteq> [] then [c_date c @ ''.''] else [])
                 @ (if c_url c \<noteq> [] then [''Web. '' @ tm @ ''.''] else [])))"
      by (auto simp: format_mla_citation_def Let_def split: sum.splits)
    show "f \<noteq> []" unfolding f
      by (rule join_nonempty[of "domain @ '',''"]) auto
  next
    case False
    assume m: "format_mla_citation netloc tm c = Inr f"
    from False assms have ti: "c_title c \<noteq> []" by simp
    from m False have f: "f = join '' '' (((case c_authors c of [] \<Rightarrow> [] | a # others \<Rightarrow> [a @ ''.''])
                 @ (if c_title c \<noteq> [] then [[CHR 0x22] @ c_title c @ ''.'' @ [CHR 0x22]] else []))
               @ ((if c_date c \<noteq> [] then [c_date c @ ''.''] else [])
                 @ (if c_url c \<noteq> [] then [''Web. '' @ tm @ ''.''] else [])))"
      by (auto simp: format_mla_citation_def Let_def)
    show "f \<noteq> []" unfolding f
      by (rule join_nonempty[of "[CHR 0x22] @ c_title c @ ''.'' @ [CHR 0x22]"]) (use ti in auto)
  qed
  show ?thesis
    using apa chicago mla
    by (auto simp: format_citation_def split: sum.splits)
qed

lemma lower_Nil_iff: "lower s = [] \<longleftrightarrow> s = []"
  by (simp add: lower_def)

lemma str_nat_1_2: "str_nat 1 = ''1''" "str_nat 2 = ''2''"
  by code_simp+

lemma str_nat_Suc: "str_nat (Suc 0) = ''1''" "str_nat (Suc (Suc 0)) = ''2''"
  using str_nat_1_2 by (simp_all add: numeral_2_eq_2)

text \<open>
  C10 as stated covers every two citations with the same url. Two citations that both
  lack a url (the url is the empty string) and have different titles are both kept, so
  with the other pair the bibliography has three entries, not two.
\<close>

theorem citations_without_url_are_both_kept:
  "c_url (no_url_citations ! 0) = c_url (no_url_citations ! 1)
   \<and> c_content (no_url_citations ! 0) \<noteq> c_content (no_url_citations ! 1)
   \<and> c_url (no_url_citations ! 2) \<noteq> c_url (no_url_citations ! 3)
   \<and> lower (c_title (no_url_citations ! 2)) = lower (c_title (no_url_citations ! 3))
   \<and> length no_url_citations = 4
   \<and> length (deduplicate_citations no_url_citations) = 3
   \<and> bibliography_entries ''apa'' whole_url ''01 Jan 2024'' ''January 01, 2024'' no_url_citations
       = [''(2024-01-01) Alpha report.'', ''(2024-01-01) Beta report.'',
          ''(2024-01-01) Gamma survey. Retrieved from http://c.example/gamma'']"
proof -
  have a: "c_url (no_url_citations ! 0) = c_url (no_url_citations ! 1)" by code_simp
  have b: "c_content (no_url_citations ! 0) \<noteq> c_content (no_url_citations ! 1)" by code_simp
  have c: "c_url (no_url_citations ! 2) \<noteq> c_url (no_url_citations ! 3)" by code_simp
  have d: "lower (c_title (no_url_citations ! 2)) = lower (c_title (no_url_citations ! 3))"
    by code_simp
  have e: "length no_url_citations = 4" by code_simp
  have f: "length (deduplicate_citations no_url_citations) = 3" by code_simp
  have g: "bibliography_entries ''apa'' whole_url ''01 Jan 2024'' ''January 01, 2024'' no_url_citations
       = [''(2024-01-01) Alpha report.'', ''(2024-01-01) Beta report.'',
          ''(2024-01-01) Gamma survey. Retrieved from http://c.example/gamma'']"
    by code_simp
  from a b c d e f g show ?thesis by (intro conjI)
qed

text \<open>
  C10, amended. For every list of four citations made of two citations with the same url,
  which is not empty, and different content, and two citations with different urls and
  the same lowercased title, which is not empty, the urls and lowercased titles being
  otherwise distinct across the pairs, in any order: deduplication keeps two citations
  and the bibliography is the heading followed by exactly two numbered entries.
\<close>

theorem bibliography_of_two_pairs:
  assumes "set xs = {a1, a2, b1, b2}" and "length xs = 4"
    and "c_url a1 = c_url a2" and "c_url a1 \<noteq> []" and "c_content a1 \<noteq> c_content a2"
    and "c_url b1 \<noteq> c_url b2" and "lower (c_title b1) = lower (c_title b2)"
    and "lower (c_title b1) \<noteq> []"
    and "c_url b1 \<noteq> c_url a1" and "c_url b2 \<noteq> c_url a1"
    and "lower (c_title a1) \<noteq> lower (c_title b1)" and "lower (c_title a2) \<noteq> lower (c_title b1)"
  shows "length (deduplicate_citations xs) = 2
     \<and> (\<exists>e1 e2. bibliography_entries style netloc tm tc xs = [e1, e2] \<and> e1 \<noteq> [] \<and> e2 \<noteq> []
           \<and> create_bibliography style netloc tm tc xs
               = ''## References ('' @ upper style @ '' Style)'' @ [CHR 0x0A, CHR 0x0A]
                 @ ''1. '' @ e1 @ [CHR 0x0A, CHR 0x0A]
                 @ ''2. '' @ e2 @ [CHR 0x0A, CHR 0x0A])"
proof -
  let ?u = "c_url a1" and ?t = "lower (c_title b1)"
  have kinds: "\<forall>c \<in> set xs. (c_url c = ?u \<and> lower (c_title c) \<noteq> ?t)
                        \<or> (lower (c_title c) = ?t \<and> c_url c \<noteq> ?u)"
    using assms by auto
  have ex_u: "\<exists>c \<in> set xs. c_url c = ?u" using assms(1) by auto
  have ex_t: "\<exists>c \<in> set xs. lower (c_title c) = ?t" using assms(1) by auto
  from dedup_two_kinds[OF assms(4) assms(8) kinds, of "[]" "[]"] ex_u ex_t
  have two: "length (deduplicate_citations xs) = 2"
    by (simp add: deduplicate_citations_def)
  let ?sorted = "sort_key (\<lambda>x. lower (c_title x)) (deduplicate_citations xs)"
  let ?formatted = "map (format_citation style netloc tm tc) ?sorted"
  have "set ?sorted \<subseteq> set xs"
    using set_dedup_citations[of "[]" "[]" xs] by (simp add: deduplicate_citations_def)
  moreover have "\<forall>c \<in> set xs. c_url c \<noteq> [] \<or> c_title c \<noteq> []"
  proof -
    from assms(8) have "c_title b1 \<noteq> []" by (simp add: lower_Nil_iff)
    moreover from assms(7,8) have "c_title b2 \<noteq> []" by (simp add: lower_Nil_iff)
    moreover from assms(3,4) have "c_url a2 \<noteq> []" by simp
    ultimately show ?thesis using assms(1,4) by auto
  qed
  ultimately have "\<forall>c \<in> set ?sorted. format_citation style netloc tm tc c \<noteq> []"
    using format_citation_nonempty by blast
  then have all: "\<forall>f \<in> set ?formatted. f \<noteq> []" by simp
  then have "filter (\<lambda>f. f \<noteq> []) ?formatted = ?formatted" by (simp add: filter_id_conv)
  then have entries: "bibliography_entries style netloc tm tc xs = ?formatted"
    by (simp add: bibliography_entries_def Let_def)
  have "length ?formatted = 2" using two by simp
  then obtain e1 e2 where e: "?formatted = [e1, e2]"
    by (cases ?formatted; cases "tl ?formatted") auto
  with all have ne: "e1 \<noteq> []" "e2 \<noteq> []" by auto
  from entries e have ent: "bibliography_entries style netloc tm tc xs = [e1, e2]" by simp
  then have "create_bibliography style netloc tm tc xs
               = ''## References ('' @ upper style @ '' Style)'' @ [CHR 0x0A, CHR 0x0A]
                 @ ''1. '' @ e1 @ [CHR 0x0A, CHR 0x0A]
                 @ ''2. '' @ e2 @ [CHR 0x0A, CHR 0x0A]"
    by (simp add: create_bibliography_def str_nat_Suc)
  with two ent ne show ?thesis by blast
qed


theorem bibliography_of_two_pairs_witness:
  "length (deduplicate_citations shared_url_citations) = 2
   \<and> (\<exists>e1 e2. bibliography_entries ''apa'' whole_url ''01 Jan 2024'' ''January 01, 2024''
                  shared_url_citations = [e1, e2]
         \<and> e1 \<noteq> [] \<and> e2 \<noteq> []
         \<and> create_bibliography ''apa'' whole_url ''01 Jan 2024'' ''January 01, 2024''
              shared_url_citations
             = ''## References ('' @ upper ''apa'' @ '' Style)'' @ [CHR 0x0A, CHR 0x0A]
               @ ''1. '' @ e1 @ [CHR 0x0A, CHR 0x0A]
               @ ''2. '' @ e2 @ [CHR 0x0A, CHR 0x0A])
   \<and> bibliography_entries ''apa'' whole_url ''01 Jan 2024'' ''January 01, 2024''
         shared_url_citations
       = [''(2024-01-01) Alpha report. Retrieved from http://a.example/alpha'',
          ''(2024-01-01) Gamma survey. Retrieved from http://c.example/gamma'']"
proof -
  let ?a1 = "citation_of ''http://a.example/alpha'' ''Alpha report'' ''first claim''"
  let ?a2 = "citation_of ''http://a.example/alpha'' ''Beta report'' ''second claim''"
  let ?b1 = "citation_of ''http://c.example/gamma'' ''Gamma survey'' ''third claim''"
  let ?b2 = "citation_of ''http://d.example/gamma'' ''GAMMA SURVEY'' ''fourth claim''"
  have h1: "set shared_url_citations = {?a1, ?a2, ?b1, ?b2}"
    by (auto simp: shared_url_citations_def)
  have h2: "length shared_url_citations = 4" by (simp add: shared_url_citations_def)
  have h3: "c_url ?a1 = c_url ?a2" by (simp add: citation_of_def)
  have h4: "c_url ?a1 \<noteq> []" by (simp add: citation_of_def)
  have h5: "c_content ?a1 \<noteq> c_content ?a2" by (simp add: citation_of_def)
  have h6: "c_url ?b1 \<noteq> c_url ?b2" by (simp add: citation_of_def)
  have h7: "lower (c_title ?b1) = lower (c_title ?b2)" by code_simp
  have h8: "lower (c_title ?b1) \<noteq> []" by (simp add: citation_of_def lower_def)
  have h9: "c_url ?b1 \<noteq> c_url ?a1" by (simp add: citation_of_def)
  have h10: "c_url ?b2 \<noteq> c_url ?a1" by (simp add: citation_of_def)
  have h11: "lower (c_title ?a1) \<noteq> lower (c_title ?b1)" by code_simp
  have h12: "lower (c_title ?a2) \<noteq> lower (c_title ?b1)" by code_simp
  note t = bibliography_of_two_pairs[OF h1 h2 h3 h4 h5 h6 h7 h8 h9 h10 h11 h12,
      of "''apa''" whole_url "''01 Jan 2024''" "''January 01, 2024''"]
  have entries: "bibliography_entries ''apa'' whole_url ''01 Jan 2024'' ''January 01, 2024''
         shared_url_citations
       = [''(2024-01-01) Alpha report. Retrieved from http://a.example/alpha'',
          ''(2024-01-01) Gamma survey. Retrieved from http://c.example/gamma'']"
    by code_simp
  from t entries show ?thesis by (intro conjI) (rule conjunct1, assumption, rule conjunct2, assumption, assumption)
qed

end
